(* ===== verification/Prelude.thy ===== *)
theory Prelude
  imports Main "HOL-Library.Code_Target_Nat" "HOL-Library.Char_ord" "HOL-Library.List_Lexorder" "HOL-Library.Product_Lexorder"
begin

text \<open>
  Shared vocabulary of the development: the result type of fallible Go functions, the state
  transformer that models the body of a database transaction (a function of the database that
  either fails with an error or returns a value and the updated database), preservation and
  Hoare rules for it, and the generic list lemmas (sums, first match, keyed update) that the
  component theories share.
\<close>

named_theorems pres_intros \<open>preservation rules for transaction bodies\<close>
named_theorems sum_simps \<open>sums over filtered and mapped lists\<close>

section \<open>Errors of the domain layer\<close>

text \<open>The sentinel errors of \<open>internal/domain/domain.go\<close>, its \<open>ValidationError\<close>, and the
  failures that reach a service from the storage driver (\<open>sql.ErrNoRows\<close>, a violated
  constraint) or from \<open>fmt.Errorf\<close>.\<close>

datatype error =
    ErrNotFound
  | ErrForbidden
  | ErrUnauthenticated
  | ErrConflict
  | ErrPrecondition
  | ErrPlanningDisabled
  | ErrExternalAccountsDisabled
  | ErrIdempotencyReuse
  | ValidationError string string
  | TemporaryGuestNameConflict string
  | ErrNoRows
  | ErrConstraint string
  | ErrInternal string

type_synonym 'a result = "error + 'a"

section \<open>Transaction bodies\<close>

type_synonym ('s, 'a) tx = "'s \<Rightarrow> error + 'a \<times> 's"

definition ret :: "'a \<Rightarrow> ('s, 'a) tx" where
  "ret x = (\<lambda>s. Inr (x, s))"

definition fail :: "error \<Rightarrow> ('s, 'a) tx" where
  "fail e = (\<lambda>s. Inl e)"

definition tx_bind :: "('s, 'a) tx \<Rightarrow> ('a \<Rightarrow> ('s, 'b) tx) \<Rightarrow> ('s, 'b) tx" where
  "tx_bind m f = (\<lambda>s. case m s of Inl e \<Rightarrow> Inl e | Inr (x, s') \<Rightarrow> f x s')"

definition gets :: "('s \<Rightarrow> 'a) \<Rightarrow> ('s, 'a) tx" where
  "gets f = (\<lambda>s. Inr (f s, s))"

definition modify :: "('s \<Rightarrow> 's) \<Rightarrow> ('s, unit) tx" where
  "modify f = (\<lambda>s. Inr ((), f s))"

definition reject_if :: "bool \<Rightarrow> error \<Rightarrow> ('s, unit) tx" where
  "reject_if c e = (if c then fail e else ret ())"

definition lift_result :: "'a result \<Rightarrow> ('s, 'a) tx" where
  "lift_result r = (case r of Inl e \<Rightarrow> fail e | Inr x \<Rightarrow> ret x)"

definition the_row :: "'a option \<Rightarrow> error \<Rightarrow> ('s, 'a) tx" where
  "the_row r e = (case r of None \<Rightarrow> fail e | Some x \<Rightarrow> ret x)"

fun map_tx :: "('a \<Rightarrow> ('s, 'b) tx) \<Rightarrow> 'a list \<Rightarrow> ('s, 'b list) tx" where
  "map_tx f [] = ret []"
| "map_tx f (x # xs) = tx_bind (f x) (\<lambda>y. tx_bind (map_tx f xs) (\<lambda>ys. ret (y # ys)))"

fun each_tx :: "('a \<Rightarrow> ('s, unit) tx) \<Rightarrow> 'a list \<Rightarrow> ('s, unit) tx" where
  "each_tx f [] = ret ()"
| "each_tx f (x # xs) = tx_bind (f x) (\<lambda>_. each_tx f xs)"

subsection \<open>Evaluation\<close>

text \<open>Transaction bodies are unfolded only when they run: their code equations take the database.\<close>

lemmas run_code [code] = fun_cong [OF ret_def] fun_cong [OF fail_def] fun_cong [OF tx_bind_def] fun_cong [OF gets_def]
  fun_cong [OF modify_def] fun_cong [OF reject_if_def] fun_cong [OF lift_result_def] fun_cong [OF the_row_def]

lemma run_loops_code [code]:
  "map_tx f [] s = ret [] s"
  "map_tx f (x # xs) s = tx_bind (f x) (\<lambda>y. tx_bind (map_tx f xs) (\<lambda>ys. ret (y # ys))) s"
  "each_tx g [] s = ret () s" "each_tx g (x # xs) s = tx_bind (g x) (\<lambda>_. each_tx g xs) s"
  by simp_all

lemma bind_Inl [simp]: "m s = Inl e \<Longrightarrow> tx_bind m f s = Inl e"
  by (simp add: tx_bind_def)

lemma bind_Inr [simp]: "m s = Inr (x, s') \<Longrightarrow> tx_bind m f s = f x s'"
  by (simp add: tx_bind_def)

lemma ret_apply [simp]: "ret x s = Inr (x, s)"
  by (simp add: ret_def)

lemma fail_apply [simp]: "fail e s = Inl e"
  by (simp add: fail_def)

lemma gets_apply [simp]: "gets f s = Inr (f s, s)"
  by (simp add: gets_def)

lemma modify_apply [simp]: "modify f s = Inr ((), f s)"
  by (simp add: modify_def)

lemma reject_if_Inr [simp]: "reject_if c e s = Inr r \<longleftrightarrow> \<not> c \<and> r = ((), s)"
  by (auto simp: reject_if_def)

lemma reject_if_simps [simp]:
  "reject_if True e = fail e" "reject_if False e = ret ()"
  by (simp_all add: reject_if_def)

lemma lift_result_simps [simp]:
  "lift_result (Inl e) = fail e" "lift_result (Inr x) = ret x"
  by (simp_all add: lift_result_def)

lemma lift_result_Inr [simp]:
  "lift_result r s = Inr (x, s') \<longleftrightarrow> r = Inr x \<and> s' = s"
  by (auto simp: lift_result_def split: sum.splits)

lemma the_row_simps [simp]: "the_row None e = fail e" "the_row (Some x) e = ret x"
  by (simp_all add: the_row_def)

lemma the_row_Inr [simp]:
  "the_row r e s = Inr (x, s') \<longleftrightarrow> r = Some x \<and> s' = s"
  by (auto simp: the_row_def split: option.splits)

lemma run_Inr: "\<not> isl r \<Longrightarrow> r = Inr (fst (projr r), snd (projr r))"
  by (cases r) auto

lemma outcome_Inr: "\<not> isl (fst p) \<Longrightarrow> p = (Inr (projr (fst p)), snd p)"
  by (cases p; cases "fst p") auto

lemma bind_InrE:
  assumes "tx_bind m f s = Inr (y, s2)"
  obtains x s1 where "m s = Inr (x, s1)" "f x s1 = Inr (y, s2)"
  using assms by (auto simp: tx_bind_def split: sum.splits prod.splits)

lemma bind_eq_Inr:
  "tx_bind m f s = Inr r \<longleftrightarrow> (\<exists>x s1. m s = Inr (x, s1) \<and> f x s1 = Inr r)"
  by (auto simp: tx_bind_def split: sum.splits prod.splits)

lemma bind_assoc: "tx_bind (tx_bind m f) g = tx_bind m (\<lambda>x. tx_bind (f x) g)"
  by (rule ext) (auto simp: tx_bind_def split: sum.splits prod.splits)

lemma bind_ret [simp]: "tx_bind m ret = m"
  by (rule ext) (auto simp: tx_bind_def ret_def split: sum.splits prod.splits)

lemma ret_bind [simp]: "tx_bind (ret x) f = f x"
  by (rule ext) (simp add: tx_bind_def ret_def)

subsection \<open>Hoare triples\<close>

text \<open>A triple speaks of the runs that do not fail: a failing body is rolled back, so its
  intermediate database is never observed.\<close>

definition valid :: "('s \<Rightarrow> bool) \<Rightarrow> ('s, 'a) tx \<Rightarrow> ('a \<Rightarrow> 's \<Rightarrow> bool) \<Rightarrow> bool" where
  "valid P m Q \<longleftrightarrow> (\<forall>s x s'. P s \<longrightarrow> m s = Inr (x, s') \<longrightarrow> Q x s')"

abbreviation preserves :: "('s \<Rightarrow> bool) \<Rightarrow> ('s, 'a) tx \<Rightarrow> bool" where
  "preserves P m \<equiv> valid P m (\<lambda>_. P)"

text \<open>A body that leaves a part of the database alone.\<close>

definition keeps :: "('s \<Rightarrow> 'c) \<Rightarrow> ('s, 'a) tx \<Rightarrow> bool" where
  "keeps f m \<longleftrightarrow> (\<forall>s x s'. m s = Inr (x, s') \<longrightarrow> f s' = f s)"

lemma validI: "(\<And>s x s'. P s \<Longrightarrow> m s = Inr (x, s') \<Longrightarrow> Q x s') \<Longrightarrow> valid P m Q"
  by (auto simp: valid_def)

lemma validD: "valid P m Q \<Longrightarrow> P s \<Longrightarrow> m s = Inr (x, s') \<Longrightarrow> Q x s'"
  by (auto simp: valid_def)

lemma keepsI: "(\<And>c. preserves (\<lambda>s. f s = c) m) \<Longrightarrow> keeps f m"
  unfolding keeps_def using validD by fast

lemma keepsD: "keeps f m \<Longrightarrow> m s = Inr (x, s') \<Longrightarrow> f s' = f s"
  unfolding keeps_def by blast

lemma keeps_preserves: "keeps f m \<Longrightarrow> preserves (\<lambda>s. P (f s)) m"
  by (rule validI) (drule (1) keepsD, erule ssubst)

lemma valid_bind:
  "valid P m R \<Longrightarrow> (\<And>x. valid (R x) (f x) Q) \<Longrightarrow> valid P (tx_bind m f) Q"
  by (fastforce simp: valid_def elim: bind_InrE)

lemma preserves_bind [pres_intros]:
  "preserves P m \<Longrightarrow> (\<And>x. preserves P (f x)) \<Longrightarrow> preserves P (tx_bind m f)"
  by (rule valid_bind)

lemma preserves_ret [pres_intros]: "preserves P (ret x)"
  by (simp add: valid_def)

lemma preserves_fail [pres_intros]: "preserves P (fail e)"
  by (simp add: valid_def)

lemma preserves_gets [pres_intros]: "preserves P (gets f)"
  by (simp add: valid_def)

lemma preserves_reject_if [pres_intros]: "preserves P (reject_if c e)"
  by (simp add: valid_def)

lemma preserves_lift_result [pres_intros]: "preserves P (lift_result r)"
  by (simp add: valid_def)

lemma preserves_the_row [pres_intros]: "preserves P (the_row r e)"
  by (simp add: valid_def)

lemma preserves_if [pres_intros]:
  "preserves P m \<Longrightarrow> preserves P n \<Longrightarrow> preserves P (if c then m else n)"
  by simp

lemma preserves_case_option [pres_intros]:
  "preserves P m \<Longrightarrow> (\<And>x. preserves P (f x)) \<Longrightarrow> preserves P (case r of None \<Rightarrow> m | Some x \<Rightarrow> f x)"
  by (cases r) simp_all

lemma preserves_case_prod [pres_intros]:
  "(\<And>x y. preserves P (f x y)) \<Longrightarrow> preserves P (case p of (x, y) \<Rightarrow> f x y)"
  by (cases p) simp

lemma preserves_each_tx [pres_intros]:
  "(\<And>x. preserves P (f x)) \<Longrightarrow> preserves P (each_tx f xs)"
  by (induction xs) (auto intro!: pres_intros)

lemma preserves_map_tx [pres_intros]:
  "(\<And>x. preserves P (f x)) \<Longrightarrow> preserves P (map_tx f xs)"
  by (induction xs) (auto intro!: pres_intros)

lemma preserves_modify: "(\<And>s. P s \<Longrightarrow> P (f s)) \<Longrightarrow> preserves P (modify f)"
  by (simp add: valid_def)

subsection \<open>Readers\<close>

text \<open>A body that only reads, and reads nothing but a view of the database.\<close>

named_theorems reads_intros \<open>rules for bodies that only read a view\<close>

definition reads :: "('s \<Rightarrow> 'c) \<Rightarrow> ('s, 'a) tx \<Rightarrow> bool" where
  "reads v m \<longleftrightarrow> (\<forall>s. (\<exists>e. \<forall>s'. v s' = v s \<longrightarrow> m s' = Inl e) \<or> (\<exists>x. \<forall>s'. v s' = v s \<longrightarrow> m s' = Inr (x, s')))"

lemma readsD: "reads v m \<Longrightarrow> m s = Inr (x, s1) \<Longrightarrow> v s' = v s \<Longrightarrow> m s' = Inr (x, s')"
  unfolding reads_def by (metis Inl_Inr_False Pair_inject sum.inject(2))

lemma reads_state: "reads v m \<Longrightarrow> m s = Inr (x, s1) \<Longrightarrow> s1 = s"
  unfolding reads_def by (metis Inl_Inr_False Pair_inject sum.inject(2))

lemma reads_bind [reads_intros]:
  assumes "reads v m" "\<And>x. reads v (f x)"
  shows "reads v (tx_bind m f)"
  unfolding reads_def
proof
  fix s
  from assms(1) consider e where "\<forall>s'. v s' = v s \<longrightarrow> m s' = Inl e" | x where "\<forall>s'. v s' = v s \<longrightarrow> m s' = Inr (x, s')"
    unfolding reads_def by blast
  then show "(\<exists>e. \<forall>s'. v s' = v s \<longrightarrow> tx_bind m f s' = Inl e) \<or> (\<exists>x. \<forall>s'. v s' = v s \<longrightarrow> tx_bind m f s' = Inr (x, s'))"
  proof cases
    case (1 e)
    then show ?thesis using bind_Inl by metis
  next
    case (2 x)
    then have eq: "v s' = v s \<Longrightarrow> tx_bind m f s' = f x s'" for s' by simp
    from assms(2) [of x] show ?thesis unfolding reads_def using eq by metis
  qed
qed

lemma reads_simple [reads_intros]:
  "reads v (ret x)" "reads v (fail e)" "reads v (reject_if c e)" "reads v (lift_result r)" "reads v (the_row q e)"
  by (auto simp: reads_def reject_if_def lift_result_def the_row_def split: sum.split option.split)

lemma reads_gets [reads_intros]: "(\<And>s s'. v s' = v s \<Longrightarrow> f s' = f s) \<Longrightarrow> reads v (gets f)"
  unfolding reads_def gets_apply by metis

lemma reads_if [reads_intros]: "reads v m \<Longrightarrow> reads v n \<Longrightarrow> reads v (if c then m else n)"
  by simp

lemma reads_case_prod [reads_intros]: "(\<And>x y. reads v (f x y)) \<Longrightarrow> reads v (case p of (x, y) \<Rightarrow> f x y)"
  by (cases p) simp

lemma reads_case_option [reads_intros]:
  "reads v m \<Longrightarrow> (\<And>x. reads v (f x)) \<Longrightarrow> reads v (case r of None \<Rightarrow> m | Some x \<Rightarrow> f x)"
  by (cases r) simp_all

lemma reads_preserves: "reads v m \<Longrightarrow> preserves P m"
  by (rule validI) (drule (1) reads_state, simp)

section \<open>Rows\<close>

text \<open>\<open>QueryRow\<close> over a table: the first row that satisfies the condition.\<close>

definition first_row :: "('a \<Rightarrow> bool) \<Rightarrow> 'a list \<Rightarrow> 'a option" where
  "first_row P xs = (case filter P xs of [] \<Rightarrow> None | x # _ \<Rightarrow> Some x)"

lemma first_row_Some: "first_row P xs = Some x \<Longrightarrow> x \<in> set xs \<and> P x"
  by (auto simp: first_row_def filter_eq_Cons_iff split: list.splits)

lemma first_row_simps [simp]:
  "first_row P [] = None"
  "first_row P (x # xs) = (if P x then Some x else first_row P xs)"
  by (simp_all add: first_row_def)

lemma first_row_None: "first_row P xs = None \<longleftrightarrow> (\<forall>x\<in>set xs. \<not> P x)"
  by (induction xs) auto

lemma first_row_unique:
  "distinct (map f xs) \<Longrightarrow> x \<in> set xs \<Longrightarrow> P x \<Longrightarrow> (\<And>y. y \<in> set xs \<Longrightarrow> P y \<Longrightarrow> f y = f x) \<Longrightarrow>
   first_row P xs = Some x"
proof (induction xs)
  case (Cons a xs)
  show ?case
  proof (cases "P a")
    case True
    then have eq: "f a = f x" by (intro Cons.prems(4)) simp_all
    have "x \<notin> set xs"
    proof
      assume "x \<in> set xs"
      then have "f x \<in> f ` set xs" by (rule imageI)
      then show False using Cons.prems(1) eq by simp
    qed
    then have "a = x" using Cons.prems(2) by simp
    then show ?thesis using True by simp
  next
    case False
    then have "x \<in> set xs" using Cons.prems(2,3) by auto
    moreover have "distinct (map f xs)" using Cons.prems(1) by simp
    moreover have "f y = f x" if "y \<in> set xs" "P y" for y
      using that by (intro Cons.prems(4)) simp_all
    ultimately have "first_row P xs = Some x" by (intro Cons.IH Cons.prems(3))
    then show ?thesis using False by simp
  qed
qed simp

lemma first_row_append:
  "first_row P (xs @ ys) = (case first_row P xs of None \<Rightarrow> first_row P ys | Some x \<Rightarrow> Some x)"
  by (induction xs) auto

text \<open>\<open>UPDATE ... SET ... WHERE\<close>: the rows that satisfy the condition are rewritten in place.\<close>

definition update_rows :: "('a \<Rightarrow> bool) \<Rightarrow> ('a \<Rightarrow> 'a) \<Rightarrow> 'a list \<Rightarrow> 'a list" where
  "update_rows P f xs = map (\<lambda>x. if P x then f x else x) xs"

lemma update_rows_simps [simp]:
  "update_rows P f [] = []"
  "update_rows P f (x # xs) = (if P x then f x else x) # update_rows P f xs"
  by (simp_all add: update_rows_def)

lemma update_rows_length [simp]: "length (update_rows P f xs) = length xs"
  by (simp add: update_rows_def)

lemma first_row_update:
  "(\<And>p. f (h p) = f p) \<Longrightarrow> first_row (\<lambda>p. f p = i) (update_rows Q h ps) = map_option (\<lambda>p. if Q p then h p else p) (first_row (\<lambda>p. f p = i) ps)"
  by (induction ps) auto

lemma distinct_first_row: "distinct (map f ps) \<Longrightarrow> p \<in> set ps \<Longrightarrow> first_row (\<lambda>q. f q = f p) ps = Some p"
  by (induction ps) auto

lemma map_update_rows [simp]:
  "(\<And>x. g (f x) = g x) \<Longrightarrow> map g (update_rows P f xs) = map g xs"
  by (induction xs) auto

text \<open>The optional text parameter of an \<open>INSERT\<close>: the helper \<open>nullable\<close> and SQL \<open>nullif(?,'')\<close>.\<close>

definition nullable :: "string \<Rightarrow> string option" where
  "nullable v = (if v = [] then None else Some v)"

definition coalesce_text :: "string option \<Rightarrow> string" where
  "coalesce_text v = (case v of None \<Rightarrow> [] | Some t \<Rightarrow> t)"

lemma coalesce_nullable [simp]: "coalesce_text (nullable v) = v"
  by (simp add: coalesce_text_def nullable_def)

section \<open>Sums\<close>

lemma sum_list_filter_split [sum_simps]:
  fixes f :: "'a \<Rightarrow> 'b::ab_group_add"
  shows "sum_list (map f (filter P xs)) + sum_list (map f (filter (\<lambda>x. \<not> P x) xs))
    = sum_list (map f xs)"
  by (induction xs) (auto simp: algebra_simps)

lemma sum_list_nonneg_int: "(\<And>x. x \<in> set xs \<Longrightarrow> 0 \<le> f x) \<Longrightarrow> (0::int) \<le> sum_list (map f xs)"
  by (induction xs) (auto intro: add_nonneg_nonneg)

lemma sum_list_map_uminus: "sum_list (map (\<lambda>x. - f x) xs) = - (sum_list (map f xs) :: int)"
  by (induction xs) auto

lemma member_le_sum_list_int:
  "(\<And>y. y \<in> set xs \<Longrightarrow> 0 \<le> f y) \<Longrightarrow> x \<in> set xs \<Longrightarrow> f x \<le> (sum_list (map f xs) :: int)"
proof (induction xs)
  case (Cons a xs)
  have "0 \<le> sum_list (map f xs)" by (rule sum_list_nonneg_int) (simp add: Cons.prems(1))
  moreover have "x \<in> set xs \<Longrightarrow> f x \<le> sum_list (map f xs)" by (rule Cons.IH) (simp_all add: Cons.prems(1))
  moreover have "0 \<le> f a" by (simp add: Cons.prems(1))
  ultimately show ?case using Cons.prems(2) by auto
qed simp

end
