(* ===== verification/GoStrings.thy ===== *)
theory GoStrings
  imports Prelude
begin

text \<open>
  The part of Go's string library the services use. A Go string is a sequence of bytes, so a
  Go string is a \<open>string\<close> whose characters are its bytes and \<open>len\<close> is \<open>length\<close>. Ranging over a
  string decodes UTF-8 exactly as \<open>unicode/utf8\<close> does, with one replacement rune (65533) per
  byte that starts no well-formed sequence. \<open>TrimSpace\<close> and \<open>IsSpace\<close> are exact. \<open>ToUpper\<close>
  is exact on ASCII and on the only runes outside ASCII whose image is an ASCII letter (its results
  are only compared with ASCII text); \<open>ToLower\<close> follows \<open>unicode.ToLower\<close> on the Latin, Greek and
  Cyrillic blocks.
\<close>

abbreviation byte :: "char \<Rightarrow> nat" where
  "byte c \<equiv> of_char c"

section \<open>UTF-8\<close>

definition is_cont :: "char \<Rightarrow> bool" where
  "is_cont c \<longleftrightarrow> 128 \<le> byte c \<and> byte c \<le> 191"

definition second_lo :: "nat \<Rightarrow> nat" where
  "second_lo b = (if b = 224 then 160 else if b = 240 then 144 else 128)"

definition second_hi :: "nat \<Rightarrow> nat" where
  "second_hi b = (if b = 237 then 159 else if b = 244 then 143 else 191)"

definition rune_error :: nat where
  "rune_error = 65533"

text \<open>The decoded rune and its width in bytes.\<close>

definition decode_rune :: "char \<Rightarrow> string \<Rightarrow> nat \<times> nat" where
  "decode_rune c r =
    (let b = byte c in
     if b < 128 then (b, 1)
     else if 194 \<le> b \<and> b \<le> 223 then
       (case r of c1 # _ \<Rightarrow>
          if is_cont c1 then ((b - 192) * 64 + (byte c1 - 128), 2) else (rune_error, 1)
        | _ \<Rightarrow> (rune_error, 1))
     else if 224 \<le> b \<and> b \<le> 239 then
       (case r of c1 # c2 # _ \<Rightarrow>
          if second_lo b \<le> byte c1 \<and> byte c1 \<le> second_hi b \<and> is_cont c2
          then ((b - 224) * 4096 + (byte c1 - 128) * 64 + (byte c2 - 128), 3) else (rune_error, 1)
        | _ \<Rightarrow> (rune_error, 1))
     else if 240 \<le> b \<and> b \<le> 244 then
       (case r of c1 # c2 # c3 # _ \<Rightarrow>
          if second_lo b \<le> byte c1 \<and> byte c1 \<le> second_hi b \<and> is_cont c2 \<and> is_cont c3
          then ((b - 240) * 262144 + (byte c1 - 128) * 4096 + (byte c2 - 128) * 64 + (byte c3 - 128), 4)
          else (rune_error, 1)
        | _ \<Rightarrow> (rune_error, 1))
     else (rune_error, 1))"

lemma decode_rune_ascii [simp]: "byte c < 128 \<Longrightarrow> decode_rune c r = (byte c, 1)"
  by (simp add: decode_rune_def)

lemma decode_rune_width: "decode_rune c r = (x, n) \<Longrightarrow> 1 \<le> n \<and> n \<le> Suc (length r)"
  by (auto simp: decode_rune_def Let_def split: if_splits list.splits)

lemma decode_rune_high: "128 \<le> byte c \<Longrightarrow> 128 \<le> fst (decode_rune c r)"
  by (auto simp: decode_rune_def rune_error_def Let_def second_lo_def is_cont_def
      split: if_splits list.splits)

text \<open>A string cut into the byte sequences of its runes, each with the rune it decodes to.\<close>

function spans :: "string \<Rightarrow> (nat \<times> string) list" where
  "spans [] = []"
| "spans (c # r) = (case decode_rune c r of (x, n) \<Rightarrow> (x, c # take (n - 1) r) # spans (drop (n - 1) r))"
  by pat_completeness auto
termination
  by (relation "measure length") (auto simp: le_imp_less_Suc)

definition runes :: "string \<Rightarrow> nat list" where
  "runes s = map fst (spans s)"

definition RuneCountInString :: "string \<Rightarrow> nat" where
  "RuneCountInString s = length (runes s)"

lemma spans_ascii_Cons [simp]:
  "byte c < 128 \<Longrightarrow> spans (c # r) = (byte c, [c]) # spans r"
  by simp

lemma concat_spans: "concat (map snd (spans s)) = s"
proof (induction s rule: spans.induct)
  case (2 c r)
  then show ?case by (auto split: prod.splits)
qed simp

definition ascii :: "string \<Rightarrow> bool" where
  "ascii s \<longleftrightarrow> (\<forall>c\<in>set s. byte c < 128)"

lemma ascii_simps [simp]: "ascii []" "ascii (c # s) \<longleftrightarrow> byte c < 128 \<and> ascii s"
  "ascii (s @ t) \<longleftrightarrow> ascii s \<and> ascii t"
  by (auto simp: ascii_def)

lemma spans_ascii: "ascii s \<Longrightarrow> spans s = map (\<lambda>c. (byte c, [c])) s"
  by (induction s) (simp_all del: spans.simps(2))

lemma runes_ascii: "ascii s \<Longrightarrow> runes s = map byte s"
  by (simp add: runes_def spans_ascii comp_def)

lemma runes_low_ascii: "(\<forall>x\<in>set (runes s). x < 128) \<longleftrightarrow> ascii s"
proof
  show "\<forall>x\<in>set (runes s). x < 128 \<Longrightarrow> ascii s"
  proof (induction s rule: spans.induct)
    case (2 c r)
    obtain x n where d: "decode_rune c r = (x, n)" by fastforce
    have x: "x < 128" using 2(2) d by (simp add: runes_def)
    then have c: "byte c < 128" using decode_rune_high [of c r] d by (metis fst_conv not_le)
    then have "n = 1" using d by simp
    then show ?case using 2(1) [OF d [symmetric]] 2(2) d c by (simp add: runes_def)
  qed simp
  show "ascii s \<Longrightarrow> \<forall>x\<in>set (runes s). x < 128"
    by (auto simp: runes_ascii ascii_def)
qed

section \<open>White space\<close>

text \<open>\<open>unicode.IsSpace\<close> and \<open>unicode.IsControl\<close>.\<close>

definition IsSpace :: "nat \<Rightarrow> bool" where
  "IsSpace x \<longleftrightarrow> (9 \<le> x \<and> x \<le> 13) \<or> x = 32 \<or> x = 133 \<or> x = 160 \<or> x = 5760
     \<or> (8192 \<le> x \<and> x \<le> 8202) \<or> x = 8232 \<or> x = 8233 \<or> x = 8239 \<or> x = 8287 \<or> x = 12288"

definition IsControl :: "nat \<Rightarrow> bool" where
  "IsControl x \<longleftrightarrow> x < 32 \<or> (127 \<le> x \<and> x < 160)"

definition TrimSpace :: "string \<Rightarrow> string" where
  "TrimSpace s = concat (map snd
     (rev (dropWhile (IsSpace \<circ> fst) (rev (dropWhile (IsSpace \<circ> fst) (spans s))))))"

lemma TrimSpace_Nil [simp]: "TrimSpace [] = []"
  by (simp add: TrimSpace_def)

text \<open>A contiguous part of the decoding of a string is the decoding of its bytes.\<close>

lemma decode_rune_prefix:
  assumes "decode_rune c r = (x, n)" "n - 1 \<le> k"
  shows "decode_rune c (take k r) = (x, n)"
proof -
  consider "194 \<le> byte c" "byte c \<le> 223" | "224 \<le> byte c" "byte c \<le> 239" | "240 \<le> byte c" "byte c \<le> 244"
    | "byte c < 194 \<or> 244 < byte c" by linarith
  then show ?thesis
  proof cases
    case 1
    then have d: "decode_rune c q = (case q of c1 # _ \<Rightarrow>
        if is_cont c1 then ((byte c - 192) * 64 + (byte c1 - 128), 2) else (rune_error, 1) | _ \<Rightarrow> (rune_error, 1))" for q
      by (simp add: decode_rune_def Let_def)
    show ?thesis using assms unfolding d by (cases r; cases k) (auto split: if_splits)
  next
    case 2
    then have d: "decode_rune c q = (case q of c1 # c2 # _ \<Rightarrow>
        if second_lo (byte c) \<le> byte c1 \<and> byte c1 \<le> second_hi (byte c) \<and> is_cont c2
        then ((byte c - 224) * 4096 + (byte c1 - 128) * 64 + (byte c2 - 128), 3) else (rune_error, 1)
      | _ \<Rightarrow> (rune_error, 1))" for q
      by (simp add: decode_rune_def Let_def)
    consider "r = []" | c1 where "r = [c1]" | c1 c2 t where "r = c1 # c2 # t" by (metis neq_Nil_conv)
    then show ?thesis using assms unfolding d
      by cases (cases k; cases "k - 1"; auto split: if_splits list.splits)+
  next
    case 3
    then have d: "decode_rune c q = (case q of c1 # c2 # c3 # _ \<Rightarrow>
        if second_lo (byte c) \<le> byte c1 \<and> byte c1 \<le> second_hi (byte c) \<and> is_cont c2 \<and> is_cont c3
        then ((byte c - 240) * 262144 + (byte c1 - 128) * 4096 + (byte c2 - 128) * 64 + (byte c3 - 128), 4)
        else (rune_error, 1) | _ \<Rightarrow> (rune_error, 1))" for q
      by (simp add: decode_rune_def Let_def)
    consider "r = []" | c1 where "r = [c1]" | c1 c2 where "r = [c1, c2]" | c1 c2 c3 t where "r = c1 # c2 # c3 # t"
      by (metis neq_Nil_conv)
    then show ?thesis using assms unfolding d
      by cases (cases k; cases "k - 1"; cases "k - 2"; auto split: if_splits list.splits)+
  qed (use assms in \<open>auto simp: decode_rune_def Let_def split: if_splits\<close>)
qed

lemma spans_prefix: "spans s = xs @ ys \<Longrightarrow> spans (concat (map snd xs)) = xs"
proof (induction s arbitrary: xs rule: spans.induct)
  case (2 c r)
  show ?case
  proof (cases xs)
    case (Cons z zs)
    obtain x n where d: "decode_rune c r = (x, n)" by fastforce
    have z: "z = (x, c # take (n - 1) r)" and zs: "spans (drop (n - 1) r) = zs @ ys"
      using 2(2) d Cons by auto
    have IH: "spans (concat (map snd zs)) = zs"
      using 2(1) [OF d [symmetric]] zs by simp
    have "concat (map snd (zs @ ys)) = drop (n - 1) r"
      using concat_spans [of "drop (n - 1) r"] zs by simp
    then obtain t where t: "drop (n - 1) r = concat (map snd zs) @ t" by (metis concat_append map_append)
    define q where "q = take (n - 1) r @ concat (map snd zs)"
    have n: "1 \<le> n" "n - 1 \<le> length r" using decode_rune_width [OF d] by auto
    have r: "r = q @ t" by (metis append_take_drop_id append.assoc q_def t)
    then have q: "q = take (length q) r" by simp
    have "n - 1 \<le> length q" using n by (simp add: q_def)
    then have dq: "decode_rune c q = (x, n)"
      using decode_rune_prefix [OF d, of "length q"] q by simp
    have len: "length (take (n - 1) r) = n - 1" using n by simp
    have tq: "take (n - 1) q = take (n - 1) r" and dr: "drop (n - 1) q = concat (map snd zs)"
      using len by (simp_all add: q_def)
    have "spans (c # q) = xs"
      using tq dr by (simp add: dq IH Cons z)
    then show ?thesis by (simp add: Cons z q_def)
  qed simp
qed simp

lemma spans_suffix: "spans s = xs @ ys \<Longrightarrow> spans (concat (map snd ys)) = ys"
proof (induction xs arbitrary: s)
  case Nil
  then show ?case using concat_spans [of s] by simp
next
  case (Cons z zs)
  then obtain c r where s: "s = c # r" by (cases s) auto
  obtain x n where d: "decode_rune c r = (x, n)" by fastforce
  then show ?case using Cons s by auto
qed

lemma spans_TrimSpace:
  "spans (TrimSpace s) = rev (dropWhile (IsSpace \<circ> fst) (rev (dropWhile (IsSpace \<circ> fst) (spans s))))"
proof -
  let ?P = "IsSpace \<circ> fst"
  let ?l = "dropWhile ?P (spans s)"
  have "spans s = takeWhile ?P (spans s) @ ?l" by simp
  then have l: "spans (concat (map snd ?l)) = ?l" by (rule spans_suffix)
  have "rev ?l = takeWhile ?P (rev ?l) @ dropWhile ?P (rev ?l)" by simp
  then have "?l = rev (dropWhile ?P (rev ?l)) @ rev (takeWhile ?P (rev ?l))"
    by (metis rev_append rev_rev_ident)
  with l have "spans (concat (map snd ?l)) = rev (dropWhile ?P (rev ?l)) @ rev (takeWhile ?P (rev ?l))"
    by simp
  then show ?thesis unfolding TrimSpace_def by (rule spans_prefix)
qed

lemma dropWhile_trimmed: "dropWhile P (rev (dropWhile P (rev (dropWhile P xs)))) = rev (dropWhile P (rev (dropWhile P xs)))"
proof (cases "dropWhile P xs")
  case (Cons y ys)
  then have "\<not> P y" by (metis dropWhile_eq_Cons_conv)
  have "\<exists>zs. rev (dropWhile P (rev (y # ys))) = y # zs" for ys
    using \<open>\<not> P y\<close> by (auto simp: dropWhile_append intro: exI [of _ "rev (dropWhile P (rev ys))"])
  then have "\<exists>zs. rev (dropWhile P (rev (dropWhile P xs))) = y # zs"
    using Cons by simp
  then show ?thesis using \<open>\<not> P y\<close> by auto
next
  case Nil
  then show ?thesis by (simp only: dropWhile.simps rev.simps)
qed

lemma TrimSpace_idem [simp]: "TrimSpace (TrimSpace s) = TrimSpace s"
proof -
  have "TrimSpace (TrimSpace s) = concat (map snd (spans (TrimSpace s)))"
    unfolding TrimSpace_def [of "TrimSpace s"] spans_TrimSpace
    by (simp only: dropWhile_trimmed rev_rev_ident dropWhile_idem)
  then show ?thesis by (simp add: concat_spans)
qed

lemma rev_dropWhile_rev_Cons:
  "\<not> P x \<Longrightarrow> rev (dropWhile P (rev (x # xs))) = x # rev (dropWhile P (rev xs))"
  by (induction xs rule: rev_induct) auto

lemma TrimSpace_starts:
  assumes "byte c < 128" "\<not> IsSpace (byte c)"
  shows "TrimSpace (c # r) \<noteq> []"
proof -
  have sp: "spans (c # r) = (byte c, [c]) # spans r" using assms(1) by simp
  have no: "\<not> (IsSpace \<circ> fst) (byte c, [c])" using assms(2) by simp
  have d: "dropWhile (IsSpace \<circ> fst) ((byte c, [c]) # spans r) = (byte c, [c]) # spans r"
    using no by (simp only: dropWhile.simps if_False)
  have "TrimSpace (c # r) = [c] @ concat (map snd (rev (dropWhile (IsSpace \<circ> fst) (rev (spans r)))))"
    unfolding TrimSpace_def sp d rev_dropWhile_rev_Cons [of "IsSpace \<circ> fst", OF no]
    by (simp only: list.map concat.simps snd_conv)
  then show ?thesis by simp
qed

section \<open>Case conversion\<close>

definition upper_char :: "char \<Rightarrow> char" where
  "upper_char c = (if 97 \<le> byte c \<and> byte c \<le> 122 then char_of (byte c - 32) else c)"

definition lower_char :: "char \<Rightarrow> char" where
  "lower_char c = (if 65 \<le> byte c \<and> byte c \<le> 90 then char_of (byte c + 32) else c)"

definition ToUpper :: "string \<Rightarrow> string" where
  "ToUpper s = concat (map (\<lambda>(x, bs).
     if x = 305 then ''I'' else if x = 383 then ''S'' else map upper_char bs) (spans s))"

text \<open>\<open>unicode.ToLower\<close> on the Latin, Greek and Cyrillic blocks; other runes have no case here.\<close>

definition lower_rune :: "nat \<Rightarrow> nat" where
  "lower_rune x =
    (if x < 128 then (if 65 \<le> x \<and> x \<le> 90 then x + 32 else x)
     else if 192 \<le> x \<and> x \<le> 222 \<and> x \<noteq> 215 then x + 32
     else if x = 304 then 105
     else if (256 \<le> x \<and> x \<le> 310 \<or> 330 \<le> x \<and> x \<le> 374) \<and> even x then x + 1
     else if (313 \<le> x \<and> x \<le> 327 \<or> 377 \<le> x \<and> x \<le> 381) \<and> odd x then x + 1
     else if x = 376 then 255
     else if x = 902 then 940
     else if 904 \<le> x \<and> x \<le> 906 then x + 37
     else if x = 908 then 972
     else if x = 910 \<or> x = 911 then x + 63
     else if 913 \<le> x \<and> x \<le> 939 \<and> x \<noteq> 930 then x + 32
     else if 1024 \<le> x \<and> x \<le> 1039 then x + 80
     else if 1040 \<le> x \<and> x \<le> 1071 then x + 32
     else if (1120 \<le> x \<and> x \<le> 1152 \<or> 1162 \<le> x \<and> x \<le> 1214 \<or> 1232 \<le> x \<and> x \<le> 1326) \<and> even x then x + 1
     else if x = 1216 then 1231
     else if 1217 \<le> x \<and> x \<le> 1229 \<and> odd x then x + 1
     else if x = 7838 then 223
     else if (7680 \<le> x \<and> x \<le> 7828 \<or> 7840 \<le> x \<and> x \<le> 7934) \<and> even x then x + 1
     else if x = 8486 then 969 else if x = 8490 then 107 else if x = 8491 then 229
     else x)"

definition encode_rune :: "nat \<Rightarrow> string" where
  "encode_rune x = map char_of
    (if x < 128 then [x]
     else if x < 2048 then [192 + x div 64, 128 + x mod 64]
     else if x < 65536 then [224 + x div 4096, 128 + x div 64 mod 64, 128 + x mod 64]
     else [240 + x div 262144, 128 + x div 4096 mod 64, 128 + x div 64 mod 64, 128 + x mod 64])"

definition ToLower :: "string \<Rightarrow> string" where
  "ToLower s = concat (map (encode_rune \<circ> lower_rune) (runes s))"

lemma upper_char_ascii [simp]: "byte c < 128 \<Longrightarrow> byte (upper_char c) < 128"
  by (auto simp: upper_char_def)

lemma upper_char_idem [simp]: "upper_char (upper_char c) = upper_char c"
  by (auto simp: upper_char_def)

lemma ToUpper_ascii: "ascii s \<Longrightarrow> ToUpper s = map upper_char s"
  by (induction s) (auto simp: ToUpper_def ascii_def simp del: spans.simps(2))

lemma ToLower_ascii: "ascii s \<Longrightarrow> ToLower s = map lower_char s"
  by (induction s) (auto simp: ToLower_def runes_def ascii_def encode_rune_def lower_rune_def lower_char_def
      simp del: spans.simps(2))

section \<open>Digits\<close>

definition is_digit :: "char \<Rightarrow> bool" where
  "is_digit c \<longleftrightarrow> 48 \<le> byte c \<and> byte c \<le> 57"

definition is_upper :: "char \<Rightarrow> bool" where
  "is_upper c \<longleftrightarrow> 65 \<le> byte c \<and> byte c \<le> 90"

definition is_lower :: "char \<Rightarrow> bool" where
  "is_lower c \<longleftrightarrow> 97 \<le> byte c \<and> byte c \<le> 122"

definition digit :: "char \<Rightarrow> int" where
  "digit c = int (byte c) - 48"

lemma digit_range: "is_digit c \<Longrightarrow> 0 \<le> digit c \<and> digit c \<le> 9"
  by (simp add: is_digit_def digit_def)

lemma digit_inject [simp]: "digit c = digit d \<longleftrightarrow> c = d"
  by (auto simp: digit_def)

lemma digits_ascii: "list_all is_digit s \<Longrightarrow> ascii s"
  by (auto simp: list_all_iff ascii_def is_digit_def)

lemma TrimSpace_digits: "list_all is_digit s \<Longrightarrow> TrimSpace s = s"
proof -
  assume d: "list_all is_digit s"
  then have s: "spans s = map (\<lambda>c. (byte c, [c])) s" by (intro spans_ascii digits_ascii)
  have keep: "dropWhile (IsSpace \<circ> fst) (map (\<lambda>c. (byte c, [c])) t) = map (\<lambda>c. (byte c, [c])) t"
    if "set t \<subseteq> set s" for t
    using d that by (cases t) (auto simp: IsSpace_def list_all_iff is_digit_def)
  show "TrimSpace s = s"
    using keep [of s] keep [of "rev s"]
    by (simp add: TrimSpace_def s rev_map [symmetric] comp_def)
qed

text \<open>The decimal digits of a non-negative integer, and \<open>fmt.Sprintf("%d", i)\<close>.\<close>

function show_digits :: "int \<Rightarrow> string" where
  "show_digits i =
    (if i < 10 then [''0123456789'' ! nat i]
     else show_digits (i div 10) @ [''0123456789'' ! nat (i mod 10)])"
  by pat_completeness auto
termination
  by (relation "measure nat") auto

declare show_digits.simps [simp del]

definition show_int :: "int \<Rightarrow> string" where
  "show_int i = (if i < 0 then ''-'' @ show_digits (- i) else show_digits i)"

fun digits_value :: "int \<Rightarrow> string \<Rightarrow> int" where
  "digits_value acc [] = acc"
| "digits_value acc (c # s) = digits_value (acc * 10 + digit c) s"

lemma digits_value_append: "digits_value a (s @ t) = digits_value (digits_value a s) t"
  by (induction s arbitrary: a) auto

lemma digits_value_zeros: "digits_value a (replicate k CHR ''0'') = a * 10 ^ k"
  by (induction k arbitrary: a) (auto simp: digit_def)

lemma digit_char:
  assumes "0 \<le> k" "k < 10"
  shows "is_digit (''0123456789'' ! nat k) \<and> digit (''0123456789'' ! nat k) = k"
proof -
  have "k = 0 \<or> k = 1 \<or> k = 2 \<or> k = 3 \<or> k = 4 \<or> k = 5 \<or> k = 6 \<or> k = 7 \<or> k = 8 \<or> k = 9"
    using assms by presburger
  then show ?thesis by (elim disjE) (simp_all add: is_digit_def digit_def)
qed

lemma show_digits_digits: "0 \<le> i \<Longrightarrow> list_all is_digit (show_digits i)"
proof (induction i rule: show_digits.induct)
  case (1 i)
  then show ?case using digit_char [of i] digit_char [of "i mod 10"]
    by (subst show_digits.simps) (auto simp: pos_imp_zdiv_nonneg_iff)
qed

lemma digits_value_show: "0 \<le> i \<Longrightarrow> digits_value 0 (show_digits i) = i"
proof (induction i rule: show_digits.induct)
  case (1 i)
  then show ?case using digit_char [of i] digit_char [of "i mod 10"]
    by (subst show_digits.simps) (auto simp: digits_value_append pos_imp_zdiv_nonneg_iff)
qed

lemma show_digits_length: "0 < k \<Longrightarrow> i < 10 ^ k \<Longrightarrow> length (show_digits i) \<le> k"
proof (induction i arbitrary: k rule: show_digits.induct)
  case (1 i)
  show ?case
  proof (cases "i < 10")
    case True
    then show ?thesis using 1(2) by (subst show_digits.simps) simp
  next
    case False
    then obtain j where k: "k = Suc j" "0 < j" using 1(2,3) by (cases k; cases "k - 1") auto
    have "i div 10 < 10 ^ j"
    proof (rule ccontr)
      assume "\<not> i div 10 < 10 ^ j"
      then have "10 ^ j * 10 \<le> i div 10 * 10" by simp
      also have "\<dots> \<le> i" using False by simp
      finally show False using 1(3) k by simp
    qed
    then show ?thesis using 1(1) [OF False k(2)] False k by (subst show_digits.simps) simp
  qed
qed

lemma show_digits_inject: "0 \<le> i \<Longrightarrow> 0 \<le> j \<Longrightarrow> show_digits i = show_digits j \<Longrightarrow> i = j"
  by (metis digits_value_show)

lemma show_digits_nonempty [simp]: "show_digits i \<noteq> []"
  by (subst show_digits.simps) simp

section \<open>Prefixes\<close>

definition HasPrefix :: "string \<Rightarrow> string \<Rightarrow> bool" where
  "HasPrefix s p \<longleftrightarrow> take (length p) s = p"

definition TrimPrefix :: "string \<Rightarrow> string \<Rightarrow> string" where
  "TrimPrefix s p = (if HasPrefix s p then drop (length p) s else s)"

definition TrimSuffix :: "string \<Rightarrow> string \<Rightarrow> string" where
  "TrimSuffix s p = rev (TrimPrefix (rev s) (rev p))"

fun Contains :: "string \<Rightarrow> string \<Rightarrow> bool" where
  "Contains [] p = (p = [])"
| "Contains (c # s) p = (HasPrefix (c # s) p \<or> Contains s p)"

end
