(* ===== verification/Barcodes.thy ===== *)
theory Barcodes
  imports GoStrings
begin

text \<open>
  \<open>internal/catalog/barcodes.go\<close>: validation of retail barcodes, the canonical lookup key that
  identifies the equivalent EAN and UPC forms of one article number, and the
  \<open>product_barcodes\<close> table with its replace and load operations. The lemmas show what the check
  digit detects, that the key of every retail code is a valid 14-digit article number, and that
  loading after a replacement returns the stored codes in order.
\<close>

record product_barcode =
  pb_format :: string
  pb_value :: string

record normalized_barcode = product_barcode +
  nb_key :: string

section \<open>Check digits\<close>

definition allDigits :: "string \<Rightarrow> bool" where
  "allDigits value = list_all (\<lambda>character. \<not> (character < 48 \<or> character > 57)) (runes value)"

fun gtin_loop :: "string \<Rightarrow> nat \<Rightarrow> int \<Rightarrow> int \<Rightarrow> int" where
  "gtin_loop value 0 weight acc = acc"
| "gtin_loop value (Suc index) weight acc =
     gtin_loop value index (4 - weight) (acc + digit (value ! index) * weight)"

definition validGTIN :: "string \<Rightarrow> nat \<Rightarrow> bool" where
  "validGTIN value len =
    (if length value \<noteq> len \<or> \<not> allDigits value then False
     else (10 - gtin_loop value (length value - 1) 3 0 mod 10) mod 10
            = digit (value ! (length value - 1)))"

lemma allDigits_iff: "allDigits value \<longleftrightarrow> list_all is_digit value"
proof
  assume a: "allDigits value"
  then have "\<forall>x\<in>set (runes value). x < 128" by (auto simp: allDigits_def list_all_iff)
  then have "ascii value" by (simp add: runes_low_ascii)
  with a show "list_all is_digit value"
    by (auto simp: allDigits_def runes_ascii list_all_iff is_digit_def)
next
  assume d: "list_all is_digit value"
  then show "allDigits value"
    by (auto simp: allDigits_def runes_ascii [OF digits_ascii [OF d]] list_all_iff is_digit_def)
qed

text \<open>The weighted digit sum, read from the right.\<close>

fun wsum :: "int \<Rightarrow> string \<Rightarrow> int" where
  "wsum w [] = 0"
| "wsum w (c # cs) = digit c * w + wsum (4 - w) cs"

lemma gtin_loop_wsum:
  "n \<le> length v \<Longrightarrow> gtin_loop v n w s = s + wsum w (rev (take n v))"
  by (induction n arbitrary: w s) (auto simp: take_Suc_conv_app_nth)

lemma wsum_zeros: "wsum w (cs @ replicate k CHR ''0'') = wsum w cs"
proof (induction cs arbitrary: w)
  case Nil
  show ?case by (induction k arbitrary: w) (auto simp: digit_def)
qed simp

lemma wsum_update:
  "j < length cs \<Longrightarrow>
   wsum w (cs[j := c]) = wsum w cs + (digit c - digit (cs ! j)) * (if even j then w else 4 - w)"
proof (induction cs arbitrary: j w)
  case (Cons a cs)
  show ?case
  proof (cases j)
    case (Suc i)
    then have "wsum (4 - w) (cs[i := c])
        = wsum (4 - w) cs + (digit c - digit (cs ! i)) * (if even i then 4 - w else 4 - (4 - w))"
      using Cons by simp
    then show ?thesis using Suc by auto
  qed (simp add: algebra_simps)
qed simp

definition checksum :: "string \<Rightarrow> int" where
  "checksum v = (10 - wsum 3 (rev (butlast v)) mod 10) mod 10"

lemma validGTIN_iff:
  "0 < len \<Longrightarrow> validGTIN v len \<longleftrightarrow>
     length v = len \<and> list_all is_digit v \<and> checksum v = digit (last v)"
  by (auto simp: validGTIN_def allDigits_iff gtin_loop_wsum checksum_def butlast_conv_take last_conv_nth)

lemma digit_scaled_mod:
  assumes "is_digit c" "is_digit d" "w = 1 \<or> w = 3" "(digit c - digit d) * w mod 10 = 0"
  shows "c = d"
proof -
  have "- 9 \<le> digit c - digit d" "digit c - digit d \<le> 9"
    using digit_range [OF assms(1)] digit_range [OF assms(2)] by linarith+
  then have "digit c - digit d = 0" using assms(3,4) by presburger
  then show ?thesis by simp
qed

lemma add_mod_changes: "(t::int) mod m \<noteq> 0 \<Longrightarrow> (s + t) mod m \<noteq> s mod m"
  by (simp add: mod_eq_dvd_iff dvd_eq_mod_eq_0)

lemma checksum_change:
  assumes "a mod 10 \<noteq> (b::int) mod 10"
  shows "(10 - a mod 10) mod 10 \<noteq> (10 - b mod 10) mod 10"
proof
  assume "(10 - a mod 10) mod 10 = (10 - b mod 10) mod 10"
  then have "(10 - a) mod 10 = (10 - b) mod 10" by (simp only: mod_diff_right_eq)
  then have "10 dvd b - a" by (simp add: mod_eq_dvd_iff)
  then show False using assms by (metis mod_eq_dvd_iff)
qed

lemma GTIN_single_digit:
  assumes "validGTIN v n" "j < n" "is_digit c" "c \<noteq> v ! j"
  shows "\<not> validGTIN (v[j := c]) n"
proof -
  have n: "0 < n" using assms(2) by simp
  note v = assms(1) [unfolded validGTIN_iff [OF n]]
  have dj: "is_digit (v ! j)" using v assms(2) by (simp add: list_all_length)
  show ?thesis
  proof (cases "j = n - 1")
    case True
    then have "butlast (v[j := c]) = butlast v" "last (v[j := c]) = c" "last v = v ! j"
      using v n by (auto simp: butlast_list_update last_list_update last_conv_nth)
    then show ?thesis using v assms(4) n by (auto simp: validGTIN_iff checksum_def)
  next
    case False
    then have j: "j < n - 1" using assms(2) by simp
    let ?b = "butlast v"
    have lb: "length ?b = n - 1" using v by simp
    have last: "last (v[j := c]) = last v" and bl: "butlast (v[j := c]) = ?b[j := c]"
      using v j by (cases v rule: rev_cases; auto simp: butlast_list_update last_list_update)+
    define i where "i = n - 1 - Suc j"
    have rev: "rev (?b[j := c]) = (rev ?b)[i := c]"
      using j lb by (simp add: rev_update i_def)
    have i: "i < length (rev ?b)" "rev ?b ! i = v ! j"
    proof -
      show l: "i < length (rev ?b)" using j lb by (simp add: i_def)
      have "rev ?b ! i = ?b ! (n - 1 - Suc i)" using l lb by (simp add: rev_nth)
      also have "n - 1 - Suc i = j" using j by (simp add: i_def)
      finally show "rev ?b ! i = v ! j" using j lb by (simp add: nth_butlast)
    qed
    let ?w = "if even i then 3 else 4 - 3 :: int"
    have "wsum 3 (rev (?b[j := c])) = wsum 3 (rev ?b) + (digit c - digit (v ! j)) * ?w"
      unfolding rev using wsum_update [OF i(1)] i(2) by simp
    moreover have "(digit c - digit (v ! j)) * ?w mod 10 \<noteq> 0"
      using digit_scaled_mod [OF assms(3) dj, of ?w] assms(4) by auto
    ultimately have "wsum 3 (rev (?b[j := c])) mod 10 \<noteq> wsum 3 (rev ?b) mod 10"
      using add_mod_changes by metis
    then have "checksum (v[j := c]) \<noteq> checksum v"
      unfolding checksum_def bl by (rule checksum_change)
    then show ?thesis using v last n by (auto simp: validGTIN_iff)
  qed
qed

lemma GTIN_pad: "0 < n \<Longrightarrow> validGTIN (replicate k CHR ''0'' @ v) (k + n) \<longleftrightarrow> validGTIN v n"
  by (auto simp: validGTIN_iff checksum_def butlast_append last_append wsum_zeros
      list_all_length is_digit_def nth_append)

section \<open>Canonical keys\<close>

definition invalidBarcode :: error where
  "invalidBarcode = ValidationError ''barcodes'' ''contains an invalid value or check digit''"

text \<open>The UPC-A number a UPC-E value stands for (the \<open>switch\<close> on the sixth digit).\<close>

definition expandUPCE :: "string \<Rightarrow> string" where
  "expandUPCE value =
    (let prefix = take 1 value;
         digits = take 6 (drop 1 value);
         sel = digits ! 5;
         expanded =
           (if sel = CHR ''0'' \<or> sel = CHR ''1'' \<or> sel = CHR ''2''
            then prefix @ take 2 digits @ [sel] @ ''0000'' @ take 3 (drop 2 digits)
            else if sel = CHR ''3'' then prefix @ take 3 digits @ ''00000'' @ take 2 (drop 3 digits)
            else if sel = CHR ''4'' then prefix @ take 4 digits @ ''00000'' @ take 1 (drop 4 digits)
            else prefix @ take 5 digits @ ''0000'' @ [sel])
     in expanded @ drop 7 value)"

definition barcodeKey :: "product_barcode \<Rightarrow> string result" where
  "barcodeKey item =
    (let value = TrimSpace (pb_value item) in
     if pb_format item = ''EAN_8'' then
       (if \<not> validGTIN value 8 then Inl invalidBarcode
        else Inr (''GTIN:'' @ replicate 6 CHR ''0'' @ value))
     else if pb_format item = ''EAN_13'' then
       (if \<not> validGTIN value 13 then Inl invalidBarcode else Inr (''GTIN:0'' @ value))
     else if pb_format item = ''UPC_A'' then
       (if \<not> validGTIN value 12 then Inl invalidBarcode else Inr (''GTIN:00'' @ value))
     else if pb_format item = ''UPC_E'' then
       (if length value \<noteq> 8 \<or> \<not> allDigits value
           \<or> (value ! 0 \<noteq> CHR ''0'' \<and> value ! 0 \<noteq> CHR ''1'') then Inl invalidBarcode
        else let upcA = expandUPCE value in
          if \<not> validGTIN upcA 12 then Inl invalidBarcode else Inr (''GTIN:00'' @ upcA))
     else if pb_format item = ''CODE_128'' then
       (if length value < 1 \<or> length value > 80 then Inl invalidBarcode
        else if list_ex (\<lambda>character. character < 32 \<or> character > 126) (runes value)
        then Inl invalidBarcode
        else Inr (''CODE128:'' @ value))
     else Inl (ValidationError ''barcodes'' ''contains an unsupported format''))"

definition BarcodeKey :: "product_barcode \<Rightarrow> string result" where
  "BarcodeKey item = barcodeKey item"

lemma barcodeKey_error: "barcodeKey item = Inl e \<Longrightarrow> \<exists>m. e = ValidationError ''barcodes'' m"
  by (auto simp: barcodeKey_def invalidBarcode_def Let_def split: if_splits)

lemma GTIN14_pads:
  "validGTIN v 8 \<Longrightarrow> validGTIN (replicate 6 CHR ''0'' @ v) 14"
  "validGTIN v 13 \<Longrightarrow> validGTIN (CHR ''0'' # v) 14"
  "validGTIN v 12 \<Longrightarrow> validGTIN (CHR ''0'' # CHR ''0'' # v) 14"
  using GTIN_pad [of 8 6 v] GTIN_pad [of 13 1 v] GTIN_pad [of 12 2 v]
  by (simp_all add: numeral_2_eq_2)

lemma retail_key:
  assumes "barcodeKey item = Inr k" "pb_format item \<noteq> ''CODE_128''"
  shows "\<exists>g. k = ''GTIN:'' @ g \<and> validGTIN g 14"
  using assms by (auto simp: barcodeKey_def Let_def intro: GTIN14_pads split: if_splits)

lemma barcodeKey_trimmed:
  "barcodeKey (item\<lparr>pb_value := TrimSpace (pb_value item)\<rparr>) = barcodeKey item"
  by (simp add: barcodeKey_def Let_def)

section \<open>Zero suppression\<close>

text \<open>The GS1 rule a UPC-E code is printed by, in the direction of compression: four or five zeros at the border
  of the manufacturer and the item number of the UPC-A number \<open>a\<close> are left out, and the seventh digit of \<open>e\<close>
  says which. Positions of \<open>a\<close>: 0 the number system, 1 to 5 the manufacturer, 6 to 10 the item, 11
  the check digit.\<close>

definition zeros_at :: "string \<Rightarrow> nat list \<Rightarrow> bool" where
  "zeros_at a js \<longleftrightarrow> list_all (\<lambda>j. a ! j = CHR ''0'') js"

definition zero_suppressed :: "string \<Rightarrow> string \<Rightarrow> bool" where
  "zero_suppressed a e \<longleftrightarrow> length a = 12 \<and>
    (a ! 3 \<in> set ''012'' \<and> zeros_at a [4, 5, 6, 7] \<and> e = map ((!) a) [0, 1, 2, 8, 9, 10, 3, 11] \<or>
     zeros_at a [4, 5, 6, 7, 8] \<and> e = map ((!) a) [0, 1, 2, 3, 9, 10] @ ''3'' @ [a ! 11] \<or>
     zeros_at a [5, 6, 7, 8, 9] \<and> e = map ((!) a) [0, 1, 2, 3, 4, 10] @ ''4'' @ [a ! 11] \<or>
     a ! 10 \<in> set ''56789'' \<and> zeros_at a [6, 7, 8, 9] \<and> e = map ((!) a) [0, 1, 2, 3, 4, 5, 10, 11])"

text \<open>The sixth digit after the number system of \<open>e\<close> names the rule, so a code stands for exactly one number: the
  one the \<open>switch\<close> builds.\<close>

lemma eight_chars: "length e = 8 \<Longrightarrow> \<exists>a b c d f g h i. e = [a, b, c, d, f, g, h, i :: char]"
  by (auto simp: numeral_eq_Suc length_Suc_conv)

lemma twelve_chars: "length e = 12 \<Longrightarrow> \<exists>a b c d f g h i j k l m. e = [a, b, c, d, f, g, h, i, j, k, l, m :: char]"
  by (auto simp: numeral_eq_Suc length_Suc_conv)

lemma digit_chars: "is_digit c \<Longrightarrow> c \<in> set ''0123456789''"
proof -
  assume "is_digit c"
  then have r: "0 \<le> digit c" "digit c < 10" using digit_range [of c] by simp_all
  then have "c = ''0123456789'' ! nat (digit c)" using digit_char [OF r] by (simp flip: digit_inject)
  moreover have "nat (digit c) < length ''0123456789''" using r by simp
  ultimately show ?thesis by (metis nth_mem)
qed

lemma zero_suppressed_expand:
  assumes "zero_suppressed a e"
  shows "length e = 8 \<and> a = expandUPCE e"
proof -
  have "length a = 12" using assms by (simp add: zero_suppressed_def)
  from twelve_chars [OF this] obtain b c d f g h i j k l m n where "a = [b, c, d, f, g, h, i, j, k, l, m, n]"
    by (elim exE)
  then show ?thesis using assms by (auto simp: zero_suppressed_def zeros_at_def expandUPCE_def Let_def)
qed

lemma expand_zero_suppressed:
  assumes "length e = 8" "list_all is_digit e"
  shows "zero_suppressed (expandUPCE e) e"
proof -
  obtain a b c d f g h i where e: "e = [a, b, c, d, f, g, h, i]" using eight_chars [OF assms(1)] by blast
  have "h \<in> set ''0123456789''" using assms(2) e digit_chars by simp
  then show ?thesis unfolding e zero_suppressed_def zeros_at_def expandUPCE_def
    by (auto simp: Let_def)
qed

lemma UPC_E_key:
  assumes "barcodeKey \<lparr>pb_format = ''UPC_E'', pb_value = e\<rparr> = Inr k"
  shows "length (TrimSpace e) = 8" "list_all is_digit (TrimSpace e)" "validGTIN (expandUPCE (TrimSpace e)) 12"
    "k = ''GTIN:00'' @ expandUPCE (TrimSpace e)"
  using assms by (auto simp: barcodeKey_def Let_def allDigits_iff split: if_splits)

lemma GTIN_trimmed: "0 < n \<Longrightarrow> validGTIN s n \<Longrightarrow> TrimSpace s = s"
  by (intro TrimSpace_digits) (simp add: validGTIN_iff)

lemma UPC_A_keys:
  assumes "validGTIN u 12"
  shows "barcodeKey \<lparr>pb_format = ''UPC_A'', pb_value = u\<rparr> = Inr (''GTIN:00'' @ u)"
    "barcodeKey \<lparr>pb_format = ''EAN_13'', pb_value = CHR ''0'' # u\<rparr> = Inr (''GTIN:00'' @ u)"
proof -
  have u: "validGTIN (CHR ''0'' # u) 13" using GTIN_pad [of 12 1 u] assms by simp
  show "barcodeKey \<lparr>pb_format = ''UPC_A'', pb_value = u\<rparr> = Inr (''GTIN:00'' @ u)"
    using assms by (simp add: barcodeKey_def GTIN_trimmed [OF _ assms])
  show "barcodeKey \<lparr>pb_format = ''EAN_13'', pb_value = CHR ''0'' # u\<rparr> = Inr (''GTIN:00'' @ u)"
    using u by (simp add: barcodeKey_def GTIN_trimmed [OF _ u])
qed

lemma zero_suppressed_key:
  assumes "validGTIN a 12" "a ! 0 \<in> set ''01''" "zero_suppressed a e"
  shows "barcodeKey \<lparr>pb_format = ''UPC_E'', pb_value = e\<rparr> = Inr (''GTIN:00'' @ a)"
proof -
  have "is_digit (a ! j)" if "j < 12" for j using assms(1) that by (auto simp: validGTIN_iff list_all_length)
  moreover have "is_digit CHR ''3''" "is_digit CHR ''4''" by (simp_all add: is_digit_def)
  ultimately have "list_all is_digit e" "e ! 0 = a ! 0"
    using assms(3) unfolding zero_suppressed_def by (elim conjE disjE; simp)+
  moreover have "length e = 8" "a = expandUPCE e" using zero_suppressed_expand [OF assms(3)] by simp_all
  ultimately show ?thesis
    using assms(1,2) by (auto simp: barcodeKey_def Let_def TrimSpace_digits allDigits_iff)
qed

section \<open>Normalising a list of codes\<close>

definition barcode_field :: "nat \<Rightarrow> string" where
  "barcode_field index = ''barcodes['' @ show_int (int index) @ ''].value''"

fun normalize_loop :: "nat \<Rightarrow> string list \<Rightarrow> product_barcode list \<Rightarrow> normalized_barcode list result" where
  "normalize_loop index seen [] = Inr []"
| "normalize_loop index seen (item # rest) =
    (let item = item\<lparr>pb_value := TrimSpace (pb_value item)\<rparr> in
     case barcodeKey item of
       Inl e \<Rightarrow> (case e of ValidationError _ msg \<Rightarrow> Inl (ValidationError (barcode_field index) msg)
                 | _ \<Rightarrow> Inl e)
     | Inr key \<Rightarrow>
         if key \<in> set seen
         then Inl (ValidationError (barcode_field index) ''contains the same code more than once'')
         else (case normalize_loop (Suc index) (key # seen) rest of
                 Inl e \<Rightarrow> Inl e
               | Inr result \<Rightarrow> Inr (product_barcode.extend item \<lparr>nb_key = key\<rparr> # result)))"

definition normalizeBarcodes :: "product_barcode list \<Rightarrow> normalized_barcode list result" where
  "normalizeBarcodes input =
    (if length input > 50 then Inl (ValidationError ''barcodes'' ''must contain no more than 50 codes'')
     else normalize_loop 0 [] input)"

abbreviation stored_code :: "normalized_barcode \<Rightarrow> product_barcode" where
  "stored_code \<equiv> product_barcode.truncate"

lemma stored_code_extend [simp]: "stored_code (product_barcode.extend item x) = item"
  by (simp add: product_barcode.defs)

lemma nb_key_extend [simp]: "nb_key (product_barcode.extend item \<lparr>nb_key = k\<rparr>) = k"
  by (simp add: product_barcode.defs)

abbreviation trimmed_code :: "product_barcode \<Rightarrow> product_barcode" where
  "trimmed_code item \<equiv> item\<lparr>pb_value := TrimSpace (pb_value item)\<rparr>"

lemma normalize_loop_Cons_Inr:
  "normalize_loop i seen (item # rest) = Inr out \<longleftrightarrow>
     (\<exists>key result. barcodeKey (trimmed_code item) = Inr key \<and> key \<notin> set seen \<and>
        normalize_loop (Suc i) (key # seen) rest = Inr result \<and>
        out = product_barcode.extend (trimmed_code item) \<lparr>nb_key = key\<rparr> # result)"
  by (cases "barcodeKey (trimmed_code item)") (auto simp: Let_def split: sum.splits error.splits)

lemma normalize_loop_Inr:
  "normalize_loop i seen input = Inr out \<Longrightarrow>
     length out = length input \<and> distinct (map nb_key out) \<and> set (map nb_key out) \<inter> set seen = {} \<and>
     map stored_code out = map trimmed_code input \<and>
     (\<forall>n\<in>set out. barcodeKey (stored_code n) = Inr (nb_key n))"
proof (induction input arbitrary: i seen out)
  case (Cons item rest)
  from Cons.prems obtain key result where
    "barcodeKey (trimmed_code item) = Inr key" "key \<notin> set seen"
    "normalize_loop (Suc i) (key # seen) rest = Inr result"
    "out = product_barcode.extend (trimmed_code item) \<lparr>nb_key = key\<rparr> # result"
    unfolding normalize_loop_Cons_Inr by blast
  then show ?case using Cons.IH [of "Suc i" "key # seen" result] by (auto simp: disjoint_iff)
qed simp

lemma normalize_loop_stable:
  "normalize_loop i seen input = Inr out \<Longrightarrow> normalize_loop j seen (map stored_code out) = Inr out"
proof (induction input arbitrary: i j seen out)
  case (Cons item rest)
  from Cons.prems obtain key result where
    "barcodeKey (trimmed_code item) = Inr key" "key \<notin> set seen"
    "normalize_loop (Suc i) (key # seen) rest = Inr result"
    "out = product_barcode.extend (trimmed_code item) \<lparr>nb_key = key\<rparr> # result"
    unfolding normalize_loop_Cons_Inr by blast
  then show ?case using Cons.IH [of "Suc i" "key # seen" result "Suc j"]
    by (simp add: normalize_loop_Cons_Inr del: normalize_loop.simps(2))
qed simp

section \<open>The \<open>product_barcodes\<close> table\<close>

record barcode_row =
  br_group :: string
  br_product :: string
  br_format :: string
  br_value :: string
  br_key :: string
  br_sort :: nat

type_synonym barcode_table = "barcode_row list"

definition barcode_checks :: "barcode_row \<Rightarrow> bool" where
  "barcode_checks r \<longleftrightarrow>
     br_format r \<in> {''EAN_8'', ''EAN_13'', ''UPC_A'', ''UPC_E'', ''CODE_128''} \<and>
     1 \<le> RuneCountInString (br_value r) \<and> RuneCountInString (br_value r) \<le> 80 \<and>
     1 \<le> RuneCountInString (br_key r) \<and> RuneCountInString (br_key r) \<le> 88"

definition insert_barcode_row :: "barcode_row \<Rightarrow> (barcode_table, unit) tx" where
  "insert_barcode_row r = (\<lambda>t.
     if \<not> barcode_checks r then Inl (ErrConstraint ''product_barcodes'')
     else if \<exists>x\<in>set t. br_group x = br_group r \<and> br_key x = br_key r then Inl ErrConflict
     else if \<exists>x\<in>set t. br_group x = br_group r \<and> br_product x = br_product r \<and> br_sort x = br_sort r
     then Inl (ErrConstraint ''product_barcodes'')
     else Inr ((), t @ [r]))"

fun insert_barcodes :: "string \<Rightarrow> string \<Rightarrow> nat \<Rightarrow> normalized_barcode list \<Rightarrow> (barcode_table, unit) tx" where
  "insert_barcodes groupID productID index [] = ret ()"
| "insert_barcodes groupID productID index (item # rest) =
    tx_bind (gets (first_row (\<lambda>r. br_group r = groupID \<and> br_key r = nb_key item))) (\<lambda>found.
    tx_bind (reject_if (case found of Some r \<Rightarrow> br_product r \<noteq> productID | None \<Rightarrow> False) ErrConflict) (\<lambda>_.
    tx_bind (insert_barcode_row \<lparr>br_group = groupID, br_product = productID, br_format = pb_format item,
            br_value = pb_value item, br_key = nb_key item, br_sort = index\<rparr>) (\<lambda>_.
    insert_barcodes groupID productID (Suc index) rest)))"

definition replaceProductBarcodes ::
  "string \<Rightarrow> string \<Rightarrow> normalized_barcode list \<Rightarrow> (barcode_table, unit) tx" where
  "replaceProductBarcodes groupID productID barcodes =
    tx_bind (modify (filter (\<lambda>r. \<not> (br_group r = groupID \<and> br_product r = productID)))) (\<lambda>_.
    insert_barcodes groupID productID 0 barcodes)"

definition loadProductBarcodes :: "string \<Rightarrow> string \<Rightarrow> barcode_table \<Rightarrow> product_barcode list" where
  "loadProductBarcodes groupID productID t =
    map (\<lambda>r. \<lparr>pb_format = br_format r, pb_value = br_value r\<rparr>)
      (sort_key br_sort (filter (\<lambda>r. br_group r = groupID \<and> br_product r = productID) t))"

definition barcode_rows :: "string \<Rightarrow> string \<Rightarrow> nat \<Rightarrow> normalized_barcode list \<Rightarrow> barcode_table" where
  "barcode_rows groupID productID index items =
    map (\<lambda>(i, n). \<lparr>br_group = groupID, br_product = productID, br_format = pb_format n,
        br_value = pb_value n, br_key = nb_key n, br_sort = i\<rparr>) (zip [index..<index + length items] items)"

lemma barcode_rows_simps [simp]:
  "barcode_rows g p i [] = []"
  "barcode_rows g p i (n # ns) = \<lparr>br_group = g, br_product = p, br_format = pb_format n,
        br_value = pb_value n, br_key = nb_key n, br_sort = i\<rparr> # barcode_rows g p (Suc i) ns"
  by (simp_all add: barcode_rows_def upt_conv_Cons del: upt_Suc)

lemma barcode_rows_fields:
  "r \<in> set (barcode_rows g p i ns) \<Longrightarrow> br_group r = g \<and> br_product r = p \<and> i \<le> br_sort r"
  by (induction ns arbitrary: i) (auto dest: Suc_leD)

lemma barcode_rows_sorted: "sorted (map br_sort (barcode_rows g p i ns))"
  by (induction ns arbitrary: i) (auto dest!: barcode_rows_fields)

lemma barcode_rows_codes:
  "map (\<lambda>r. \<lparr>pb_format = br_format r, pb_value = br_value r\<rparr>) (barcode_rows g p i ns) = map stored_code ns"
  by (induction ns arbitrary: i) (auto simp: product_barcode.defs)

lemma insert_barcodes_Inr:
  "insert_barcodes g p i ns t = Inr ((), t') \<Longrightarrow> t' = t @ barcode_rows g p i ns"
proof (induction ns arbitrary: i t)
  case (Cons n ns)
  from Cons.prems show ?case
    by (auto simp: insert_barcode_row_def bind_eq_Inr split: if_splits dest!: Cons.IH)
qed simp

definition barcode_inv :: "barcode_table \<Rightarrow> bool" where
  "barcode_inv t \<longleftrightarrow> distinct (map (\<lambda>r. (br_group r, br_key r)) t)
     \<and> distinct (map (\<lambda>r. (br_group r, br_product r, br_sort r)) t) \<and> (\<forall>r\<in>set t. barcode_checks r)"

lemma insert_barcodes_inv: "preserves barcode_inv (insert_barcodes g p i ns)"
proof (induction ns arbitrary: i)
  case (Cons n ns)
  have "preserves barcode_inv (insert_barcode_row r)" for r
    by (rule validI) (fastforce simp: insert_barcode_row_def barcode_inv_def split: if_splits)
  with Cons show ?case unfolding insert_barcodes.simps by (intro pres_intros)
qed (simp add: pres_intros)

lemma replace_preserves_inv: "preserves barcode_inv (replaceProductBarcodes g p ns)"
  unfolding replaceProductBarcodes_def
  by (intro pres_intros insert_barcodes_inv preserves_modify)
     (auto simp: barcode_inv_def distinct_map_filter)

section \<open>Properties\<close>

text \<open>C14. The check digit of \<open>validGTIN\<close> detects every substitution of one digit: a valid EAN or
  UPC number in which one digit is misread is rejected.\<close>

theorem validGTIN_detects_single_error:
  assumes "validGTIN v n" "j < n" "is_digit c" "c \<noteq> v ! j"
  shows "\<not> validGTIN (v[j := c]) n"
  using assms by (rule GTIN_single_digit)

theorem validGTIN_detects_single_error_witness:
  "validGTIN ''4006381333931'' 13 \<and> \<not> validGTIN (''4006381333931''[5 := CHR ''9'']) 13"
proof -
  have v: "validGTIN ''4006381333931'' 13" by code_simp
  have d: "is_digit (CHR ''9'')" "CHR ''9'' \<noteq> ''4006381333931'' ! 5" by code_simp+
  show ?thesis using v validGTIN_detects_single_error [OF v _ d, simplified] by simp
qed

text \<open>C15. The lookup key of every accepted retail code (EAN-8, EAN-13, UPC-A, UPC-E) is
  \<open>GTIN:\<close> followed by a valid 14-digit number. An accepted UPC-E code is the zero-suppressed form of exactly one
  UPC-A number, and its key is that of this number and of its EAN-13 form; conversely the zero-suppressed form of
  every valid UPC-A number of the number systems 0 and 1 is accepted with the key of that number.\<close>

theorem barcodeKey_canonical:
  "(barcodeKey item = Inr k \<and> pb_format item \<noteq> ''CODE_128'' \<longrightarrow> (\<exists>g. k = ''GTIN:'' @ g \<and> validGTIN g 14)) \<and>
   (barcodeKey \<lparr>pb_format = ''UPC_E'', pb_value = e\<rparr> = Inr k \<longrightarrow>
      (\<exists>!a. zero_suppressed a (TrimSpace e)) \<and>
      (\<forall>a. zero_suppressed a (TrimSpace e) \<longrightarrow> k = ''GTIN:00'' @ a \<and>
        barcodeKey \<lparr>pb_format = ''UPC_A'', pb_value = a\<rparr> = Inr k \<and>
        barcodeKey \<lparr>pb_format = ''EAN_13'', pb_value = CHR ''0'' # a\<rparr> = Inr k)) \<and>
   (validGTIN a 12 \<and> a ! 0 \<in> set ''01'' \<and> zero_suppressed a e \<longrightarrow>
      barcodeKey \<lparr>pb_format = ''UPC_E'', pb_value = e\<rparr> = Inr (''GTIN:00'' @ a))"
proof (intro conjI impI)
  show "\<exists>g. k = ''GTIN:'' @ g \<and> validGTIN g 14"
    if "barcodeKey item = Inr k \<and> pb_format item \<noteq> ''CODE_128''"
    using that retail_key by blast
next
  assume key: "barcodeKey \<lparr>pb_format = ''UPC_E'', pb_value = e\<rparr> = Inr k"
  then have "zero_suppressed (expandUPCE (TrimSpace e)) (TrimSpace e)"
    using UPC_E_key expand_zero_suppressed by blast
  then show "\<exists>!a. zero_suppressed a (TrimSpace e)" using zero_suppressed_expand by blast
  show "\<forall>a. zero_suppressed a (TrimSpace e) \<longrightarrow> k = ''GTIN:00'' @ a \<and>
      barcodeKey \<lparr>pb_format = ''UPC_A'', pb_value = a\<rparr> = Inr k \<and>
      barcodeKey \<lparr>pb_format = ''EAN_13'', pb_value = CHR ''0'' # a\<rparr> = Inr k"
    using UPC_E_key [OF key] UPC_A_keys zero_suppressed_expand by blast
next
  assume a: "validGTIN a 12 \<and> a ! 0 \<in> set ''01'' \<and> zero_suppressed a e"
  then show "barcodeKey \<lparr>pb_format = ''UPC_E'', pb_value = e\<rparr> = Inr (''GTIN:00'' @ a)"
    using zero_suppressed_key by blast
qed

theorem barcodeKey_canonical_witness:
  "barcodeKey \<lparr>pb_format = ''UPC_A'', pb_value = ''042100005264''\<rparr> = Inr ''GTIN:00042100005264'' \<and>
   (\<exists>g. ''GTIN:00042100005264'' = ''GTIN:'' @ g \<and> validGTIN g 14) \<and>
   barcodeKey \<lparr>pb_format = ''UPC_E'', pb_value = ''01234531''\<rparr> = Inr ''GTIN:00012300000451'' \<and>
   barcodeKey \<lparr>pb_format = ''UPC_E'', pb_value = ''01234543''\<rparr> = Inr ''GTIN:00012340000053'' \<and>
   barcodeKey \<lparr>pb_format = ''UPC_E'', pb_value = ''01234572''\<rparr> = Inr ''GTIN:00012345000072''"
proof -
  let ?e = "\<lparr>pb_format = ''UPC_E'', pb_value = '' 04252614''\<rparr>"
  have e: "barcodeKey ?e = Inr ''GTIN:00042100005264''" "zero_suppressed ''042100005264'' (TrimSpace '' 04252614'')"
    by code_simp+
  have a: "validGTIN ''012300000451'' 12 \<and> ''012300000451'' ! 0 \<in> set ''01'' \<and> zero_suppressed ''012300000451'' ''01234531''"
    "validGTIN ''012340000053'' 12 \<and> ''012340000053'' ! 0 \<in> set ''01'' \<and> zero_suppressed ''012340000053'' ''01234543''"
    "validGTIN ''012345000072'' 12 \<and> ''012345000072'' ! 0 \<in> set ''01'' \<and> zero_suppressed ''012345000072'' ''01234572''"
    by code_simp+
  note z = barcodeKey_canonical [THEN conjunct2, THEN conjunct2, THEN mp]
  note c = barcodeKey_canonical [of ?e "''GTIN:00042100005264''" "'' 04252614''"]
  have x: "''GTIN:00'' @ ''012300000451'' = ''GTIN:00012300000451''" "''GTIN:00'' @ ''012340000053'' = ''GTIN:00012340000053''"
    "''GTIN:00'' @ ''012345000072'' = ''GTIN:00012345000072''" by simp_all
  show ?thesis
  proof (intro conjI)
    show "\<exists>g. ''GTIN:00042100005264'' = ''GTIN:'' @ g \<and> validGTIN g 14"
      by (rule c [THEN conjunct1, THEN mp]) (simp add: e)
    show "barcodeKey \<lparr>pb_format = ''UPC_A'', pb_value = ''042100005264''\<rparr> = Inr ''GTIN:00042100005264''"
      using c [THEN conjunct2, THEN conjunct1, THEN mp, OF e(1), THEN conjunct2, THEN spec, THEN mp, OF e(2)] by blast
  qed (rule z [OF a(1), unfolded x] z [OF a(2), unfolded x] z [OF a(3), unfolded x])+
qed

text \<open>C16. Normalising accepts at most 50 codes, trims every value, gives each its key, admits no
  two codes with the same key, and is stable: normalising the stored codes again yields the same
  list.\<close>

theorem normalizeBarcodes_correct:
  assumes "normalizeBarcodes input = Inr out"
  shows "length out \<le> 50 \<and> map stored_code out = map trimmed_code input \<and>
    distinct (map nb_key out) \<and> (\<forall>n\<in>set out. barcodeKey (stored_code n) = Inr (nb_key n)) \<and>
    normalizeBarcodes (map stored_code out) = Inr out"
proof -
  from assms have l: "length input \<le> 50" and n: "normalize_loop 0 [] input = Inr out"
    by (auto simp: normalizeBarcodes_def split: if_splits)
  show ?thesis using l normalize_loop_Inr [OF n] normalize_loop_stable [OF n, of 0]
    by (simp add: normalizeBarcodes_def)
qed

theorem normalizeBarcodes_correct_witness:
  "normalizeBarcodes [\<lparr>pb_format = ''CODE_128'', pb_value = ''B7''\<rparr>]
   = Inr [\<lparr>pb_format = ''CODE_128'', pb_value = ''B7'', nb_key = ''CODE128:B7''\<rparr>]"
proof -
  let ?out = "[\<lparr>pb_format = ''CODE_128'', pb_value = ''B7'', nb_key = ''CODE128:B7''\<rparr>]"
  have n: "normalizeBarcodes [\<lparr>pb_format = ''CODE_128'', pb_value = ''B7 ''\<rparr>] = Inr ?out" by code_simp
  have "map stored_code ?out = [\<lparr>pb_format = ''CODE_128'', pb_value = ''B7''\<rparr>]" by (simp add: product_barcode.defs)
  moreover have "normalizeBarcodes (map stored_code ?out) = Inr ?out"
    using normalizeBarcodes_correct [OF n] by blast
  ultimately show ?thesis by (simp only:)
qed

text \<open>C17. Replacing a product's codes and loading them returns exactly the new codes in request
  order, leaves the codes of every other product untouched, and keeps the keys of each group
  unique.\<close>

theorem replace_then_load:
  assumes "barcode_inv t" "replaceProductBarcodes g p items t = Inr ((), t')"
  shows "loadProductBarcodes g p t' = map stored_code items \<and>
    (\<forall>g' p'. (g', p') \<noteq> (g, p) \<longrightarrow> loadProductBarcodes g' p' t' = loadProductBarcodes g' p' t) \<and>
    barcode_inv t'"
proof (intro conjI allI impI)
  let ?new = "barcode_rows g p 0 items"
  have t': "t' = filter (\<lambda>r. \<not> (br_group r = g \<and> br_product r = p)) t @ ?new"
    using assms(2) by (auto simp: replaceProductBarcodes_def bind_eq_Inr dest: insert_barcodes_Inr)
  have new: "r \<in> set ?new \<Longrightarrow> br_group r = g \<and> br_product r = p" for r
    using barcode_rows_fields by blast
  have "filter (\<lambda>r. br_group r = g \<and> br_product r = p) t' = ?new"
    using new by (auto simp: t' filter_empty_conv intro!: filter_True)
  then show "loadProductBarcodes g p t' = map stored_code items"
    by (simp add: loadProductBarcodes_def barcode_rows_codes barcode_rows_sorted sort_key_id_if_sorted)
  show "loadProductBarcodes g' p' t' = loadProductBarcodes g' p' t" if "(g', p') \<noteq> (g, p)" for g' p'
  proof -
    have "filter (\<lambda>r. br_group r = g' \<and> br_product r = p') t'
        = filter (\<lambda>r. br_group r = g' \<and> br_product r = p') t"
      using new that by (auto simp: t' filter_empty_conv intro!: filter_cong)
    then show ?thesis by (simp add: loadProductBarcodes_def)
  qed
  show "barcode_inv t'" using validD [OF replace_preserves_inv assms] .
qed

theorem replace_then_load_witness:
  "loadProductBarcodes ''g'' ''p''
     [\<lparr>br_group = ''g'', br_product = ''q'', br_format = ''CODE_128'', br_value = ''B'',
        br_key = ''CODE128:B'', br_sort = 0\<rparr>,
      \<lparr>br_group = ''g'', br_product = ''p'', br_format = ''CODE_128'', br_value = ''C'',
        br_key = ''CODE128:C'', br_sort = 0\<rparr>]
   = [\<lparr>pb_format = ''CODE_128'', pb_value = ''C''\<rparr>]"
proof -
  let ?q = "\<lparr>br_group = ''g'', br_product = ''q'', br_format = ''CODE_128'', br_value = ''B'',
        br_key = ''CODE128:B'', br_sort = 0\<rparr>"
  let ?old = "\<lparr>br_group = ''g'', br_product = ''p'', br_format = ''CODE_128'', br_value = ''A'',
        br_key = ''CODE128:A'', br_sort = 0\<rparr>"
  let ?new = "\<lparr>br_group = ''g'', br_product = ''p'', br_format = ''CODE_128'', br_value = ''C'',
        br_key = ''CODE128:C'', br_sort = 0\<rparr>"
  let ?item = "\<lparr>pb_format = ''CODE_128'', pb_value = ''C'', nb_key = ''CODE128:C''\<rparr>"
  have "barcode_inv [?q, ?old]" by code_simp
  moreover have "replaceProductBarcodes ''g'' ''p'' [?item] [?q, ?old] = Inr ((), [?q, ?new])"
    by code_simp
  ultimately show ?thesis
    using replace_then_load [of "[?q, ?old]" "''g''" "''p''" "[?item]"] by (simp add: product_barcode.defs)
qed

end
