(* ===== verification/PaymentTargets.thy ===== *)
theory PaymentTargets
  imports GoStrings
begin

text \<open>
  \<open>internal/paymenttargets/validation.go\<close>: normalisation of SEPA account numbers, the ISO 13616
  check sum, and the shape rules for BIC codes. The lemmas relate the streaming check-sum loop to
  the number it stands for and show which typing errors the check sum detects.
\<close>

section \<open>Normalisation\<close>

definition NormalizeIBAN :: "string \<Rightarrow> string" where
  "NormalizeIBAN value =
    ToUpper (concat (map snd (filter (\<lambda>(character, _). \<not> IsSpace character) (spans value))))"

definition containsControlCharacter :: "string \<Rightarrow> bool" where
  "containsControlCharacter value = list_ex IsControl (runes value)"

section \<open>Shapes\<close>

abbreviation is_alnum_upper :: "char \<Rightarrow> bool" where
  "is_alnum_upper c \<equiv> is_upper c \<or> is_digit c"

text \<open>\<open>^[A-Z]{2}[0-9]{2}[A-Z0-9]{11,30}$\<close>\<close>

definition ibanPattern :: "string \<Rightarrow> bool" where
  "ibanPattern v \<longleftrightarrow> 15 \<le> length v \<and> length v \<le> 34 \<and> list_all is_upper (take 2 v)
     \<and> list_all is_digit (take 2 (drop 2 v)) \<and> list_all is_alnum_upper (drop 4 v)"

text \<open>\<open>^[A-Z]{6}[A-Z0-9]{2}([A-Z0-9]{3})?$\<close>\<close>

definition bicPattern :: "string \<Rightarrow> bool" where
  "bicPattern v \<longleftrightarrow> (length v = 8 \<or> length v = 11) \<and> list_all is_upper (take 6 v)
     \<and> list_all is_alnum_upper (drop 6 v)"

definition eeaIBANCountries :: "string list" where
  "eeaIBANCountries =
    [''AT'', ''BE'', ''BG'', ''HR'', ''CY'', ''CZ'', ''DK'', ''EE'', ''FI'', ''FR'',
     ''DE'', ''GR'', ''HU'', ''IS'', ''IE'', ''IT'', ''LV'', ''LI'', ''LT'', ''LU'',
     ''MT'', ''NL'', ''NO'', ''PL'', ''PT'', ''RO'', ''SK'', ''SI'', ''ES'', ''SE'']"

definition ValidBIC :: "string \<Rightarrow> bool" where
  "ValidBIC value = bicPattern value"

definition IBANRequiresBIC :: "string \<Rightarrow> bool" where
  "IBANRequiresBIC value =
    (if length value < 2 then True else take 2 value \<notin> set eeaIBANCountries)"

section \<open>The check sum\<close>

text \<open>The loop over the runes of the rearranged number; \<open>None\<close> is the early \<open>return false\<close>.\<close>

fun mod97_loop :: "int \<Rightarrow> nat list \<Rightarrow> int option" where
  "mod97_loop remainder [] = Some remainder"
| "mod97_loop remainder (character # rest) =
    (if character \<ge> 48 \<and> character \<le> 57 then
       mod97_loop ((remainder * 10 + (int character - 48)) mod 97) rest
     else if character \<ge> 65 \<and> character \<le> 90 then
       (let digits = (int character - 65) + 10 in
        mod97_loop ((remainder * 100 + digits) mod 97) rest)
     else None)"

definition ValidIBAN :: "string \<Rightarrow> bool" where
  "ValidIBAN value =
    (if length value < 15 \<or> length value > 34 \<or> \<not> ibanPattern value then False
     else (case mod97_loop 0 (runes (drop 4 value @ take 4 value)) of
             None \<Rightarrow> False | Some remainder \<Rightarrow> remainder = 1))"

subsection \<open>The number behind an account number\<close>

text \<open>ISO 13616 reads the rearranged account number as one decimal number in which \<open>A\<close> to \<open>Z\<close>
  stand for 10 to 35.\<close>

definition char_value :: "char \<Rightarrow> int" where
  "char_value c = (if is_digit c then digit c else int (byte c) - 55)"

definition char_base :: "char \<Rightarrow> int" where
  "char_base c = (if is_digit c then 10 else 100)"

fun iban_number :: "int \<Rightarrow> string \<Rightarrow> int" where
  "iban_number acc [] = acc"
| "iban_number acc (c # cs) = iban_number (acc * char_base c + char_value c) cs"

lemma mod_step: "((a::int) mod m * b + x) mod m = (a * b + x) mod m"
  by (metis mod_add_left_eq mod_mult_left_eq)

lemma iban_number_mod:
  "iban_number (a mod 97) cs mod 97 = iban_number a cs mod 97"
proof (induction cs arbitrary: a)
  case (Cons c cs)
  have "iban_number (a mod 97 * char_base c + char_value c) cs mod 97
      = iban_number ((a mod 97 * char_base c + char_value c) mod 97) cs mod 97"
    by (rule Cons.IH [symmetric])
  also have "(a mod 97 * char_base c + char_value c) mod 97 = (a * char_base c + char_value c) mod 97"
    by (rule mod_step)
  finally show ?case using Cons.IH [of "a * char_base c + char_value c"] by simp
qed simp

lemma mod97_loop_number:
  "list_all is_alnum_upper cs \<Longrightarrow>
   \<exists>r. mod97_loop (a mod 97) (map byte cs) = Some r \<and> r = iban_number a cs mod 97"
proof (induction cs arbitrary: a)
  case (Cons c cs)
  show ?case
    using Cons.prems Cons.IH [of "a * char_base c + char_value c"]
    by (auto simp: char_base_def char_value_def digit_def is_digit_def is_upper_def Let_def mod_step)
qed simp

fun width :: "string \<Rightarrow> nat" where
  "width [] = 0"
| "width (c # cs) = (if is_digit c then 1 else 2) + width cs"

lemma char_base_pow: "char_base c = 10 ^ (if is_digit c then 1 else 2)"
  by (simp add: char_base_def)

lemma iban_number_shift: "iban_number a cs = a * 10 ^ width cs + iban_number 0 cs"
proof (induction cs arbitrary: a)
  case (Cons c cs)
  show ?case
    using Cons [of "a * char_base c + char_value c"] Cons [of "char_value c"]
    by (simp add: char_base_pow power_add algebra_simps)
qed simp

lemma iban_number_append: "iban_number a (xs @ ys) = iban_number (iban_number a xs) ys"
  by (induction xs arbitrary: a) auto

lemma iban_number_change:
  assumes "is_digit c \<longleftrightarrow> is_digit d"
  shows "iban_number 0 (xs @ c # ys) - iban_number 0 (xs @ d # ys)
    = (char_value c - char_value d) * 10 ^ width ys"
proof -
  have "iban_number 0 (xs @ e # ys)
      = (iban_number 0 xs * char_base e + char_value e) * 10 ^ width ys + iban_number 0 ys" for e
    by (simp add: iban_number_append)
      (rule iban_number_shift)
  moreover have "char_base c = char_base d" using assms by (simp add: char_base_def)
  ultimately show ?thesis by (simp add: algebra_simps)
qed

lemma coprime_97_10: "coprime (97::int) (10 ^ k)"
proof -
  have "coprime (97::int) 10" by (simp add: coprime_iff_gcd_eq_1) code_simp
  then show ?thesis by simp
qed

lemma same_class_change:
  assumes "is_digit c \<and> is_digit d \<or> is_upper c \<and> is_upper d" "c \<noteq> d"
  shows "iban_number 0 (xs @ c # ys) mod 97 \<noteq> iban_number 0 (xs @ d # ys) mod 97"
proof
  assume "iban_number 0 (xs @ c # ys) mod 97 = iban_number 0 (xs @ d # ys) mod 97"
  then have "97 dvd iban_number 0 (xs @ c # ys) - iban_number 0 (xs @ d # ys)"
    by (simp add: mod_eq_dvd_iff)
  moreover have "is_digit c \<longleftrightarrow> is_digit d" using assms(1) by (auto simp: is_digit_def is_upper_def)
  ultimately have "97 dvd (char_value c - char_value d) * 10 ^ width ys"
    by (simp add: iban_number_change)
  then have "97 dvd char_value c - char_value d"
    using coprime_97_10 by (simp add: coprime_dvd_mult_left_iff)
  moreover have "\<bar>char_value c - char_value d\<bar> < 97" "char_value c - char_value d \<noteq> 0"
    using assms by (auto simp: char_value_def digit_def is_digit_def is_upper_def)
  ultimately show False using zdvd_imp_le [of 97 "\<bar>char_value c - char_value d\<bar>"] by simp
qed

lemma iban_chars: "ibanPattern v \<Longrightarrow> list_all is_alnum_upper v"
proof -
  assume p: "ibanPattern v"
  have "v = take 2 v @ take 2 (drop 2 v) @ drop 4 v"
    by (metis append_take_drop_id drop_drop numeral_Bit0 one_add_one add.commute)
  then show ?thesis using p unfolding ibanPattern_def
    by (metis (mono_tags, lifting) list_all_append list.pred_mono_strong)
qed

lemma alnum_ascii: "list_all is_alnum_upper v \<Longrightarrow> ascii v"
  by (auto simp: list_all_iff ascii_def is_upper_def is_digit_def)

lemma ValidIBAN_iff:
  "ValidIBAN v \<longleftrightarrow> ibanPattern v \<and> iban_number 0 (drop 4 v @ take 4 v) mod 97 = 1"
proof (cases "ibanPattern v")
  case True
  let ?r = "drop 4 v @ take 4 v"
  have "list_all is_alnum_upper (take 4 v @ drop 4 v)"
    unfolding append_take_drop_id by (rule iban_chars [OF True])
  then have "list_all is_alnum_upper ?r" unfolding list_all_append by blast
  then have "runes ?r = map byte ?r" "mod97_loop 0 (map byte ?r) = Some (iban_number 0 ?r mod 97)"
    using mod97_loop_number [of ?r 0] by (simp_all only: runes_ascii alnum_ascii) auto
  then show ?thesis using True by (simp add: ValidIBAN_def ibanPattern_def)
qed (simp add: ValidIBAN_def)

lemma ValidIBAN_normal:
  assumes "ValidIBAN v"
  shows "NormalizeIBAN v = v"
proof -
  have a: "list_all is_alnum_upper v" using assms iban_chars by (simp add: ValidIBAN_iff)
  then have "filter (\<lambda>(c, _). \<not> IsSpace c) (spans v) = spans v"
    by (auto simp: spans_ascii alnum_ascii filter_id_conv IsSpace_def list_all_iff is_digit_def is_upper_def)
  moreover have "map upper_char v = v"
    using a by (auto simp: list_all_iff upper_char_def is_digit_def is_upper_def intro!: map_idI)
  ultimately show ?thesis
    using a by (simp add: NormalizeIBAN_def concat_spans ToUpper_ascii alnum_ascii)
qed

section \<open>PayPal.Me handles\<close>

text \<open>The components of a parsed URL that the code inspects; \<open>net/url.Parse\<close> is the parameter that yields
  them.\<close>

record url =
  ur_Scheme :: string
  ur_HasUser :: bool
  ur_Port :: string
  ur_RawQuery :: string
  ur_Fragment :: string
  ur_Hostname :: string
  ur_EscapedPath :: string

text \<open>\<open>^[A-Za-z0-9]{1,20}$\<close>\<close>

definition payPalMeHandlePattern :: "string \<Rightarrow> bool" where
  "payPalMeHandlePattern v \<longleftrightarrow> 1 \<le> length v \<and> length v \<le> 20 \<and> list_all (\<lambda>c. is_upper c \<or> is_lower c \<or> is_digit c) v"

definition url_handle :: "url option \<Rightarrow> string result" where
  "url_handle parsed =
    (case parsed of
       None \<Rightarrow> Inl (ValidationError ''paymentTarget'' ''contains an invalid PayPal.Me link'')
     | Some u \<Rightarrow>
       if ur_Scheme u \<noteq> ''https'' \<or> ur_HasUser u \<or> ur_Port u \<noteq> [] \<or> ur_RawQuery u \<noteq> [] \<or> ur_Fragment u \<noteq> []
       then Inl (ValidationError ''paymentTarget'' ''contains an invalid PayPal.Me link'')
       else let host = ToLower (ur_Hostname u) in
       if host \<noteq> ''paypal.me'' \<and> host \<noteq> ''www.paypal.me''
       then Inl (ValidationError ''paymentTarget'' ''contains a PayPal.Me link with an unsupported host'')
       else let path = TrimSuffix (TrimPrefix (ur_EscapedPath u) ''/'') ''/'' in
       if path = [] \<or> Contains path ''/'' \<or> Contains path ''%''
       then Inl (ValidationError ''paymentTarget'' ''contains a PayPal.Me link without exactly one handle'')
       else Inr path)"

definition NormalizePayPalMeHandle :: "(string \<Rightarrow> url option) \<Rightarrow> string \<Rightarrow> string result" where
  "NormalizePayPalMeHandle parse_url value =
    (let handle = TrimSpace value; lower = ToLower handle;
         link = Contains handle ''://'' \<or> HasPrefix lower ''paypal.me/'' \<or> HasPrefix lower ''www.paypal.me/'';
         found = (if link
           then url_handle (parse_url (if Contains handle ''://'' then handle else ''https://'' @ handle))
           else Inr handle) in
     case found of
       Inl e \<Rightarrow> Inl e
     | Inr handle \<Rightarrow>
       if payPalMeHandlePattern handle then Inr handle
       else Inl (ValidationError ''paymentTarget''
         ''contains a PayPal.Me handle outside 1 to 20 ASCII letters or digits''))"

lemma NormalizePayPalMeHandle_shape:
  "NormalizePayPalMeHandle parse_url v = Inr h \<Longrightarrow> payPalMeHandlePattern h"
  by (auto simp: NormalizePayPalMeHandle_def Let_def split: sum.splits if_splits)

section \<open>Payment targets\<close>

record payment_target =
  pt_Type :: string
  pt_PayPalMeHandle :: string
  pt_RecipientName :: string
  pt_IBAN :: string
  pt_BIC :: string

definition validationForField :: "error \<Rightarrow> string \<Rightarrow> error" where
  "validationForField err field = (case err of ValidationError _ message \<Rightarrow> ValidationError field message | _ \<Rightarrow> err)"

definition paypal_target :: "(string \<Rightarrow> url option) \<Rightarrow> payment_target \<Rightarrow> string \<Rightarrow> payment_target result" where
  "paypal_target parse_url t field =
    (if TrimSpace (pt_RecipientName t) \<noteq> [] \<or> TrimSpace (pt_IBAN t) \<noteq> [] \<or> TrimSpace (pt_BIC t) \<noteq> []
     then Inl (ValidationError field ''contains SEPA fields on a PayPal.Me target'')
     else case NormalizePayPalMeHandle parse_url (pt_PayPalMeHandle t) of
       Inl e \<Rightarrow> Inl (validationForField e field)
     | Inr handle \<Rightarrow> Inr (t\<lparr>pt_PayPalMeHandle := handle, pt_RecipientName := [], pt_IBAN := [], pt_BIC := []\<rparr>))"

definition sepa_target :: "payment_target \<Rightarrow> string \<Rightarrow> string \<Rightarrow> payment_target result" where
  "sepa_target t currency field =
    (if currency \<noteq> ''EUR''
     then Inl (ValidationError field ''contains a SEPA target but the group currency is not EUR'')
     else if TrimSpace (pt_PayPalMeHandle t) \<noteq> []
     then Inl (ValidationError field ''contains a PayPal.Me handle on a SEPA target'')
     else let recipientName = TrimSpace (pt_RecipientName t) in
     if RuneCountInString recipientName < 1 \<or> RuneCountInString recipientName > 70 \<or> containsControlCharacter recipientName
     then Inl (ValidationError field ''contains a SEPA recipient name outside 1 to 70 characters'')
     else let iban = NormalizeIBAN (pt_IBAN t) in
     if \<not> ValidIBAN iban then Inl (ValidationError field ''contains an invalid IBAN'')
     else let bic = ToUpper (TrimSpace (pt_BIC t)) in
     if bic \<noteq> [] \<and> \<not> ValidBIC bic then Inl (ValidationError field ''contains an invalid BIC'')
     else if bic = [] \<and> IBANRequiresBIC iban
     then Inl (ValidationError field ''contains a non-EEA IBAN without the required BIC'')
     else Inr (t\<lparr>pt_PayPalMeHandle := [], pt_RecipientName := recipientName, pt_IBAN := iban, pt_BIC := bic\<rparr>))"

definition NormalizeForField ::
  "(string \<Rightarrow> url option) \<Rightarrow> payment_target option \<Rightarrow> string \<Rightarrow> string \<Rightarrow> payment_target option result" where
  "NormalizeForField parse_url target currency field =
    (case target of
       None \<Rightarrow> Inr None
     | Some t \<Rightarrow>
       if RuneCountInString (pt_PayPalMeHandle t) > 120 \<or> RuneCountInString (pt_RecipientName t) > 70 \<or>
          RuneCountInString (pt_IBAN t) > 42 \<or> RuneCountInString (pt_BIC t) > 14
       then Inl (ValidationError field ''contains an overlong payment target field'')
       else if list_ex containsControlCharacter [pt_PayPalMeHandle t, pt_RecipientName t, pt_IBAN t, pt_BIC t]
       then Inl (ValidationError field ''contains control characters in a payment target'')
       else map_sum (\<lambda>e. e) Some
         (if pt_Type t = ''PAYPAL_ME'' then paypal_target parse_url t field
          else if pt_Type t = ''SEPA_TRANSFER'' then sepa_target t currency field
          else Inl (ValidationError field ''contains a payment target with an unsupported type'')))"

definition Normalize :: "(string \<Rightarrow> url option) \<Rightarrow> payment_target option \<Rightarrow> string \<Rightarrow> payment_target option result" where
  "Normalize parse_url target currency = NormalizeForField parse_url target currency ''paymentTarget''"

text \<open>Unaccented letters and digits are their own normal form.\<close>

abbreviation is_alnum :: "char \<Rightarrow> bool" where
  "is_alnum c \<equiv> is_upper c \<or> is_lower c \<or> is_digit c"

lemma alnum_text:
  assumes "list_all is_alnum v"
  shows "ascii v" "TrimSpace v = v" "\<not> containsControlCharacter v" "RuneCountInString v = length v"
proof -
  show a: "ascii v" using assms by (auto simp: list_all_iff ascii_def is_upper_def is_lower_def is_digit_def)
  have plain: "\<not> IsSpace (byte c)" "\<not> IsControl (byte c)" if "c \<in> set v" for c
    using that assms by (auto simp: list_all_iff IsSpace_def IsControl_def is_upper_def is_lower_def is_digit_def)
  then show "\<not> containsControlCharacter v"
    by (auto simp: containsControlCharacter_def runes_ascii [OF a] list_ex_iff)
  show "RuneCountInString v = length v" by (simp add: RuneCountInString_def runes_ascii [OF a])
  have "dropWhile (IsSpace \<circ> fst) (map (\<lambda>c. (byte c, [c])) w) = map (\<lambda>c. (byte c, [c])) w"
    if "set w \<subseteq> set v" for w
    using that plain(1) by (cases w) auto
  from this [of v] this [of "rev v"] show "TrimSpace v = v"
    by (simp add: TrimSpace_def spans_ascii [OF a] rev_map [symmetric] comp_def)
qed

lemma alnum_upper: "list_all is_alnum_upper v \<Longrightarrow> list_all is_alnum v"
  by (auto simp: list_all_iff)

lemma no_letters_between: "list_all is_alnum v \<Longrightarrow> p \<noteq> [] \<Longrightarrow> c \<in> set p \<Longrightarrow> \<not> is_alnum c \<Longrightarrow> \<not> Contains v p"
proof (induction v)
  case (Cons d v)
  have "set (take (length p) (d # v)) \<subseteq> set (d # v)" by (rule set_take_subset)
  then show ?case using Cons by (auto simp: HasPrefix_def list_all_iff)
qed auto

lemma HasPrefix_mem: "HasPrefix v p \<Longrightarrow> c \<in> set p \<Longrightarrow> c \<in> set v"
  unfolding HasPrefix_def by (metis in_set_takeD)

section \<open>Properties\<close>

text \<open>C18. The streaming loop of \<open>ValidIBAN\<close> decides the ISO 13616 rule: a value is accepted exactly
  when it has the account-number shape and the decimal number obtained by moving the first four
  characters to the end and replacing letters by 10 to 35 leaves remainder 1 modulo 97; an
  accepted number is already in normal form.\<close>

theorem ValidIBAN_iso13616:
  "(ValidIBAN v \<longleftrightarrow> ibanPattern v \<and> iban_number 0 (drop 4 v @ take 4 v) mod 97 = 1) \<and>
   (NormalizeIBAN v = v \<or> \<not> ValidIBAN v)"
  using ValidIBAN_iff ValidIBAN_normal by blast

theorem ValidIBAN_iso13616_witness:
  "ValidIBAN ''DE89370400440532013000'' \<and> NormalizeIBAN ''DE89370400440532013000'' = ''DE89370400440532013000''"
proof -
  have "ibanPattern ''DE89370400440532013000''"
    "iban_number 0 (drop 4 ''DE89370400440532013000'' @ take 4 ''DE89370400440532013000'') mod 97 = 1"
    by code_simp+
  then show ?thesis using ValidIBAN_iso13616 [of "''DE89370400440532013000''"] by blast
qed



lemma handle_fixed:
  assumes "payPalMeHandlePattern h"
  shows "NormalizePayPalMeHandle parse_url h = Inr h" "RuneCountInString h \<le> 20" "\<not> containsControlCharacter h"
proof -
  have a: "list_all is_alnum h" using assms by (auto simp: payPalMeHandlePattern_def list_all_iff)
  note plain = alnum_text [OF a]
  have low: "set (ToLower h) \<subseteq> lower_char ` set h" by (simp add: ToLower_ascii plain(1))
  have "\<not> Contains h ''://''" by (rule no_letters_between [OF a, of _ "CHR ''/''"]) (simp_all add: is_upper_def is_lower_def is_digit_def)
  moreover have "lower_char c \<noteq> CHR ''.''" if "c \<in> set h" for c
  proof -
    have "byte (lower_char c) = (if 65 \<le> byte c \<and> byte c \<le> 90 then byte c + 32 else byte c)"
      by (simp add: lower_char_def)
    then have "byte (lower_char c) \<noteq> 46"
      using that a by (auto simp: list_all_iff is_upper_def is_lower_def is_digit_def)
    then show ?thesis by auto
  qed
  then have "CHR ''.'' \<notin> lower_char ` set h" by (metis imageE)
  with low have "CHR ''.'' \<notin> set (ToLower h)" by (rule contra_subsetD)
  then have "\<not> HasPrefix (ToLower h) ''paypal.me/''" "\<not> HasPrefix (ToLower h) ''www.paypal.me/''"
    by (auto dest: HasPrefix_mem [where c = "CHR ''.''"])
  ultimately show "NormalizePayPalMeHandle parse_url h = Inr h"
    using assms plain(2) by (simp add: NormalizePayPalMeHandle_def Let_def)
  show "RuneCountInString h \<le> 20" "\<not> containsControlCharacter h"
    using assms plain by (auto simp: payPalMeHandlePattern_def)
qed

lemma IBAN_fixed:
  assumes "ValidIBAN v"
  shows "NormalizeIBAN v = v" "RuneCountInString v \<le> 34" "\<not> containsControlCharacter v"
proof -
  have p: "ibanPattern v" using assms by (simp add: ValidIBAN_iff)
  then have a: "list_all is_alnum v" by (intro alnum_upper iban_chars)
  show "NormalizeIBAN v = v" using assms ValidIBAN_normal by blast
  show "RuneCountInString v \<le> 34" "\<not> containsControlCharacter v"
    using p alnum_text [OF a] by (auto simp: ibanPattern_def)
qed

lemma BIC_fixed:
  assumes "b = [] \<or> ValidBIC b"
  shows "ToUpper (TrimSpace b) = b" "RuneCountInString b \<le> 14" "\<not> containsControlCharacter b"
proof -
  have "list_all is_alnum_upper (take 6 b @ drop 6 b)"
    unfolding list_all_append using assms by (auto simp: ValidBIC_def bicPattern_def list_all_iff)
  then have u: "list_all is_alnum_upper b" by simp
  note plain = alnum_text [OF alnum_upper [OF u]]
  have "map upper_char b = b"
    using u by (auto simp: list_all_iff upper_char_def is_upper_def is_digit_def intro!: map_idI)
  then show "ToUpper (TrimSpace b) = b" using plain by (simp add: ToUpper_ascii)
  show "RuneCountInString b \<le> 14" "\<not> containsControlCharacter b"
    using assms plain by (auto simp: ValidBIC_def bicPattern_def)
qed

lemma empty_field [simp]: "RuneCountInString [] = 0" "\<not> containsControlCharacter []"
  by (simp_all add: RuneCountInString_def containsControlCharacter_def runes_def)

lemma NormalizeForField_cases:
  assumes "NormalizeForField parse_url (Some t) currency field = Inr (Some t')"
  obtains (paypal) h where "pt_Type t = ''PAYPAL_ME''" "payPalMeHandlePattern h"
      "t' = t\<lparr>pt_PayPalMeHandle := h, pt_RecipientName := [], pt_IBAN := [], pt_BIC := []\<rparr>"
    | (sepa) r i b where "pt_Type t = ''SEPA_TRANSFER''" "currency = ''EUR''"
      "t' = t\<lparr>pt_PayPalMeHandle := [], pt_RecipientName := r, pt_IBAN := i, pt_BIC := b\<rparr>"
      "TrimSpace r = r" "1 \<le> RuneCountInString r" "RuneCountInString r \<le> 70"
      "\<not> containsControlCharacter r" "ValidIBAN i" "b = [] \<or> ValidBIC b" "b = [] \<Longrightarrow> \<not> IBANRequiresBIC i"
  using assms
  by (auto simp: NormalizeForField_def paypal_target_def sepa_target_def Let_def not_less
      split: if_splits sum.splits dest: NormalizePayPalMeHandle_shape)

text \<open>C20. Normalising a payment target yields a well-formed target of its kind (a PayPal.Me handle of
  1 to 20 letters and digits and no bank fields, or a euro bank target with a check-sum-valid IBAN and
  a BIC where the country needs one) and is stable: normalising the result again changes nothing.\<close>

theorem NormalizeForField_canonical:
  assumes ok: "NormalizeForField parse_url (Some t) currency field = Inr (Some t')"
  shows "NormalizeForField parse_url (Some t') currency field = Inr (Some t') \<and>
    (pt_Type t' = ''PAYPAL_ME'' \<and> payPalMeHandlePattern (pt_PayPalMeHandle t') \<and> pt_RecipientName t' = [] \<and>
        pt_IBAN t' = [] \<and> pt_BIC t' = [] \<or>
     pt_Type t' = ''SEPA_TRANSFER'' \<and> currency = ''EUR'' \<and> pt_PayPalMeHandle t' = [] \<and> ValidIBAN (pt_IBAN t') \<and>
        (if pt_BIC t' = [] then \<not> IBANRequiresBIC (pt_IBAN t') else ValidBIC (pt_BIC t')))"
  using ok
proof (cases rule: NormalizeForField_cases)
  case (paypal h)
  then show ?thesis using handle_fixed(1) [OF paypal(2), of parse_url] handle_fixed(2,3) [OF paypal(2)]
    by (simp add: NormalizeForField_def paypal_target_def)
next
  case (sepa r i b)
  then show ?thesis using IBAN_fixed [OF sepa(8)] BIC_fixed [OF sepa(9)]
    by (auto simp: NormalizeForField_def sepa_target_def Let_def)
qed

theorem NormalizeForField_canonical_witness:
  "\<exists>t'. NormalizeForField (\<lambda>_. None) (Some \<lparr>pt_Type = ''SEPA_TRANSFER'', pt_PayPalMeHandle = [], pt_RecipientName = '' K '',
       pt_IBAN = ''de89 37040044 0532013000'', pt_BIC = []\<rparr>) ''EUR'' ''f'' = Inr (Some t') \<and> ValidIBAN (pt_IBAN t')"
proof -
  have run: "NormalizeForField (\<lambda>_. None) (Some \<lparr>pt_Type = ''SEPA_TRANSFER'', pt_PayPalMeHandle = [], pt_RecipientName = '' K '',
       pt_IBAN = ''de89 37040044 0532013000'', pt_BIC = []\<rparr>) ''EUR'' ''f''
     = Inr (Some \<lparr>pt_Type = ''SEPA_TRANSFER'', pt_PayPalMeHandle = [], pt_RecipientName = ''K'',
       pt_IBAN = ''DE89370400440532013000'', pt_BIC = []\<rparr>)"
    by code_simp
  show ?thesis using NormalizeForField_canonical [OF run] run by auto
qed

end
