(* ===== verification/Civil.thy ===== *)
theory Civil
  imports Prelude
begin

text \<open>
  The civil calendar behind Go's \<open>time\<close> package, which the planning and accounting services use
  for dates. A civil day is the number of days since 1970-01-01. \<open>days_civil\<close> is \<open>time.Date\<close> at
  midnight UTC with its normalisation of month and day overflow; \<open>year_of\<close>, \<open>month_of\<close> and
  \<open>day_of\<close> read the fields back. The lemmas are the two round trips and the 400-year period.
\<close>

section \<open>Years\<close>

definition leap :: "int \<Rightarrow> bool" where
  "leap y \<longleftrightarrow> 4 dvd y \<and> (\<not> 100 dvd y \<or> 400 dvd y)"

text \<open>Days from 0001-01-01 to the first day of year \<open>y\<close>.\<close>

definition year_days :: "int \<Rightarrow> int" where
  "year_days y = 365 * (y - 1) + (y - 1) div 4 - (y - 1) div 100 + (y - 1) div 400"

definition epoch_days :: int where
  "epoch_days = 719162"

lemma div_step: "0 < m \<Longrightarrow> (y::int) div m = (y - 1) div m + (if m dvd y then 1 else 0)"
proof -
  assume m: "0 < m"
  show ?thesis
  proof (cases "m dvd y")
    case True
    then obtain k where y: "y = m * k" by blast
    have "(m * k - 1) div m = k - 1"
      using m by (intro div_pos_neg_trivial [THEN trans] int_div_pos_eq [of _ _ _ "m - 1"])
        (auto simp: algebra_simps)
    then show ?thesis using m y by simp
  next
    case False
    then have "0 < y mod m" using m by (metis dvd_eq_mod_eq_0 order_le_less pos_mod_sign)
    then have "(y - 1) div m = y div m"
      using m by (intro int_div_pos_eq [of _ _ _ "y mod m - 1"])
        (auto simp: algebra_simps, smt (verit) pos_mod_bound)
    then show ?thesis using False by simp
  qed
qed

lemma year_sum:
  "a = A + i \<Longrightarrow> b = B + j \<Longrightarrow> c = C + k \<Longrightarrow>
     365 * y + a - b + c = 365 * (y - 1) + A - B + C + 365 + (i - j + k)" for a :: int
  by simp

lemma bool_sum:
  "(q \<Longrightarrow> p) \<Longrightarrow> (r \<Longrightarrow> q) \<Longrightarrow> (if p then 1 else 0) - (if q then 1 else 0) + (if r then 1 else 0)
     = (if p \<and> (\<not> q \<or> r) then 1 else 0 :: int)"
  by (cases p; cases q; cases r) simp_all

lemma year_days_Suc: "year_days (y + 1) = year_days y + (if leap y then 366 else 365)"
proof -
  have d: "(4::int) dvd 100" "(100::int) dvd 400" by simp_all
  have "100 dvd y \<Longrightarrow> 4 dvd y" "400 dvd y \<Longrightarrow> 100 dvd y" using d dvd_trans by blast+
  note l = bool_sum [OF this]
  have "year_days (y + 1) = 365 * y + y div 4 - y div 100 + y div 400"
    by (simp add: year_days_def)
  also have "\<dots> = year_days y + 365
      + ((if 4 dvd y then 1 else 0) - (if 100 dvd y then 1 else 0) + (if 400 dvd y then 1 else 0))"
    unfolding year_days_def by (rule year_sum) (rule div_step, simp)+
  also have "\<dots> = year_days y + 365 + (if leap y then 1 else 0)" by (simp only: l leap_def)
  finally show ?thesis by simp
qed

lemma year_days_mono_aux: "year_days y + 365 * int n \<le> year_days (y + int n)"
proof (induction n)
  case (Suc n)
  have "year_days (y + int (Suc n)) = year_days (y + int n) + (if leap (y + int n) then 366 else 365)"
    using year_days_Suc [of "y + int n"] by (simp add: algebra_simps)
  then show ?case using Suc by auto
qed simp

lemma year_days_mono: "y \<le> y' \<Longrightarrow> year_days y \<le> year_days y'"
  using year_days_mono_aux [of y "nat (y' - y)"] by simp

lemma year_days_cycle: "year_days (y + 400 * k) = year_days y + 146097 * k"
proof -
  have "((y - 1) + 4 * (100 * k)) div 4 = (y - 1) div 4 + 100 * k"
    "((y - 1) + 100 * (4 * k)) div 100 = (y - 1) div 100 + 4 * k"
    "((y - 1) + 400 * k) div 400 = (y - 1) div 400 + k"
    by (simp_all only: div_mult_self2 numeral_eq_iff zero_neq_numeral not_False_eq_True add.commute)
  then show ?thesis by (simp add: year_days_def algebra_simps)
qed

lemma leap_cycle: "leap (y + 400 * k) = leap y"
proof -
  have "m dvd y + 400 * k \<longleftrightarrow> m dvd y" if "m dvd 400" for m
    using that dvd_add_left_iff [of m "400 * k" y] by simp
  then show ?thesis by (simp add: leap_def)
qed

subsection \<open>The year of a day\<close>

lemma clipped_div:
  assumes "0 < m" "1 < m" "0 \<le> r" "r < 4 * m + k" "k \<le> m" "k = 1"
  shows "min 3 (r div m) * m \<le> r \<and> r < min 3 (r div m) * m + m + (if min 3 (r div m) = 3 then k else (0::int))"
proof -
  define q t where "q = r div m" and "t = r mod m"
  have r: "r = m * q + t" "0 \<le> t" "t < m" using assms(1) by (simp_all add: q_def t_def)
  show ?thesis
  proof (cases "q \<le> 3")
    case True
    then show ?thesis using r unfolding q_def [symmetric] by (simp add: min_def algebra_simps assms(6))
  next
    case False
    then have "4 * m \<le> m * q" using assms(1) by (simp add: mult.commute)
    then have "3 * m \<le> r" "r < 3 * m + m + k" using r assms by linarith+
    then show ?thesis using False unfolding q_def [symmetric] by (simp add: min_def)
  qed
qed

definition year_of :: "int \<Rightarrow> int" where
  "year_of n =
    (let N = n + epoch_days;
         q400 = N div 146097; r400 = N mod 146097;
         q100 = min 3 (r400 div 36524); r100 = r400 - q100 * 36524;
         q4 = r100 div 1461; r4 = r100 mod 1461;
         q1 = min 3 (r4 div 365)
     in 400 * q400 + 100 * q100 + 4 * q4 + q1 + 1)"

lemma year_of_bounds:
  "year_days (year_of n) \<le> n + epoch_days \<and> n + epoch_days < year_days (year_of n + 1)"
proof -
  define N where "N = n + epoch_days"
  define a where "a = N div 146097"
  define r where "r = N mod 146097"
  define b where "b = min 3 (r div 36524)"
  define r2 where "r2 = r - b * 36524"
  define c where "c = r2 div 1461"
  define r3 where "r3 = r2 mod 1461"
  define d where "d = min 3 (r3 div 365)"
  have N: "N = 146097 * a + r" and r: "0 \<le> r" "r < 146097" by (simp_all add: a_def r_def)
  have "0 \<le> r div 36524" using r(1) by (simp add: pos_imp_zdiv_nonneg_iff)
  then have b: "0 \<le> b" "b \<le> 3" by (simp_all add: b_def)
  have "b * 36524 \<le> r \<and> r < b * 36524 + 36524 + (if b = 3 then 1 else 0)"
    using r clipped_div [of 36524 r 1] by (simp add: b_def)
  then have r2: "0 \<le> r2" "r2 < 36524 + (if b = 3 then 1 else 0)" by (auto simp: r2_def)
  have r2e: "r2 = 1461 * c + r3" and r3: "0 \<le> r3" "r3 < 1461" by (simp_all add: c_def r3_def)
  have "r2 < 36525" using r2(2) by (cases "b = 3") simp_all
  then have c: "0 \<le> c" "c \<le> 24" using r2(1) r2e r3 by linarith+
  have "0 \<le> r3 div 365" using r3(1) by (simp add: pos_imp_zdiv_nonneg_iff)
  then have d: "0 \<le> d" "d \<le> 3" by (simp_all add: d_def)
  have d3: "d * 365 \<le> r3 \<and> r3 < d * 365 + 365 + (if d = 3 then 1 else 0)"
    using r3 clipped_div [of 365 r3 1] by (simp add: d_def)
  have y: "year_of n = 400 * a + 100 * b + 4 * c + d + 1"
    unfolding year_of_def Let_def d_def r3_def c_def r2_def b_def r_def a_def N_def by (rule refl)
  have q: "(400 * a + 100 * b + 4 * c + d) div 4 = 100 * a + 25 * b + c"
    "(400 * a + 100 * b + 4 * c + d) div 100 = 4 * a + b"
    "(400 * a + 100 * b + 4 * c + d) div 400 = a"
    using b c d by (auto intro!: int_div_pos_eq)
  have lo: "year_days (year_of n) = 146097 * a + 36524 * b + 1461 * c + 365 * d"
    unfolding year_days_def y using q by simp
  have q': "(400 * a + 100 * b + 4 * c + d + 1) div 4 = 100 * a + 25 * b + c + (if d = 3 then 1 else 0)"
    "(400 * a + 100 * b + 4 * c + d + 1) div 100 = 4 * a + b + (if d = 3 \<and> c = 24 then 1 else 0)"
    "(400 * a + 100 * b + 4 * c + d + 1) div 400 = a + (if d = 3 \<and> c = 24 \<and> b = 3 then 1 else 0)"
    using b c d by (auto intro!: int_div_pos_eq)
  have hi: "year_days (year_of n + 1) = 146097 * a + 36524 * b + 1461 * c + 365 * d + 365
      + (if d = 3 then 1 else 0) - (if d = 3 \<and> c = 24 then 1 else 0) + (if d = 3 \<and> c = 24 \<and> b = 3 then 1 else 0)"
  proof -
    have e: "year_of n + 1 - 1 = 400 * a + 100 * b + 4 * c + d + 1" using y by simp
    show ?thesis unfolding year_days_def e q' by simp
  qed
  have N': "N = 146097 * a + 36524 * b + 1461 * c + r3" using N r2e by (simp add: r2_def)
  have "r3 < 365 * d + 365 + (if d = 3 then 1 else 0) - (if d = 3 \<and> c = 24 then 1 else 0)
      + (if d = 3 \<and> c = 24 \<and> b = 3 then 1 else 0)"
    using d3 r2 r2e by auto
  then show ?thesis using lo hi N' d3 N_def by auto
qed

lemma year_of_unique:
  assumes "year_days y \<le> n + epoch_days" "n + epoch_days < year_days (y + 1)"
  shows "year_of n = y"
proof (rule ccontr)
  assume "year_of n \<noteq> y"
  then consider "year_of n + 1 \<le> y" | "y + 1 \<le> year_of n" by linarith
  then show False
    using assms year_of_bounds [of n] year_days_mono [of "year_of n + 1" y] year_days_mono [of "y + 1" "year_of n"]
    by cases linarith+
qed

section \<open>Months\<close>

text \<open>Days of a year before its month \<open>m\<close>, counted from 0 (January) to 12 (the next January).\<close>

definition month_days :: "bool \<Rightarrow> nat \<Rightarrow> int" where
  "month_days l m =
    [0, 31, 59, 90, 120, 151, 181, 212, 243, 273, 304, 334, 365] ! m + (if l \<and> 2 \<le> m then 1 else 0)"

definition month_index :: "bool \<Rightarrow> int \<Rightarrow> nat" where
  "month_index l yday = length (filter (\<lambda>m. month_days l m \<le> yday) [1..<12])"

lemma less_12_cases:
  "m < (12::nat) \<Longrightarrow> m = 0 \<or> m = 1 \<or> m = 2 \<or> m = 3 \<or> m = 4 \<or> m = 5 \<or> m = 6 \<or> m = 7 \<or> m = 8
     \<or> m = 9 \<or> m = 10 \<or> m = 11"
  by presburger

lemma upt_1_12: "[1..<12] = [1, 2, 3, 4, 5, 6, 7, 8, 9, 10, 11::nat]"
  by (simp add: upt_rec)

lemma month_index_eq:
  assumes "m < 12" "month_days l m \<le> yday" "yday < month_days l (Suc m)"
  shows "month_index l yday = m"
  using less_12_cases [OF assms(1)] assms(2,3)
  by (elim disjE; cases l; simp add: month_index_def month_days_def upt_1_12 eval_nat_numeral)

lemma month_index_bounds:
  assumes "0 \<le> yday" "yday < (if l then 366 else 365)"
  shows "month_index l yday < 12 \<and> month_days l (month_index l yday) \<le> yday
    \<and> yday < month_days l (Suc (month_index l yday))"
proof -
  have "\<exists>m<12. month_days l m \<le> yday \<and> yday < month_days l (Suc m)"
  proof (rule ccontr)
    assume no: "\<not> ?thesis"
    have "month_days l m \<le> yday" if "m \<le> 12" for m
      using that
    proof (induction m)
      case 0
      then show ?case using assms by (simp add: month_days_def)
    next
      case (Suc m)
      then have "m < 12" "month_days l m \<le> yday" by simp_all
      then show ?case using no by (meson not_less)
    qed
    from this [of 12] show False using assms by (simp add: month_days_def eval_nat_numeral split: if_splits)
  qed
  then show ?thesis using month_index_eq by metis
qed

section \<open>Dates\<close>

text \<open>The day number of a date; months and days out of range are carried over, as in
  \<open>time.Date\<close>.\<close>

definition days_civil :: "int \<Rightarrow> int \<Rightarrow> int \<Rightarrow> int" where
  "days_civil y m d =
    (let y' = y + (m - 1) div 12; m' = nat ((m - 1) mod 12)
     in year_days y' + month_days (leap y') m' + d - 1 - epoch_days)"

definition yday_of :: "int \<Rightarrow> int" where
  "yday_of n = n + epoch_days - year_days (year_of n)"

definition month_of :: "int \<Rightarrow> int" where
  "month_of n = int (month_index (leap (year_of n)) (yday_of n)) + 1"

definition day_of :: "int \<Rightarrow> int" where
  "day_of n = yday_of n - month_days (leap (year_of n)) (month_index (leap (year_of n)) (yday_of n)) + 1"

text \<open>Sunday is 0, as \<open>time.Sunday\<close>; 1970-01-01 was a Thursday.\<close>

definition weekday_of :: "int \<Rightarrow> int" where
  "weekday_of n = (n + 4) mod 7"

definition month_length :: "int \<Rightarrow> int \<Rightarrow> int" where
  "month_length y m = days_civil y (m + 1) 1 - days_civil y m 1"

lemma yday_bounds: "0 \<le> yday_of n \<and> yday_of n < (if leap (year_of n) then 366 else 365)"
  using year_of_bounds [of n] year_days_Suc [of "year_of n"] by (simp add: yday_of_def)

lemma month_of_range: "1 \<le> month_of n \<and> month_of n \<le> 12"
  using month_index_bounds [of "yday_of n" "leap (year_of n)"] yday_bounds [of n]
  by (simp add: month_of_def)

lemma days_civil_fields: "days_civil (year_of n) (month_of n) (day_of n) = n"
proof -
  let ?i = "month_index (leap (year_of n)) (yday_of n)"
  have i: "?i < 12" using month_index_bounds yday_bounds by blast
  then have "int ?i div 12 = 0" "int ?i mod 12 = int ?i" by simp_all
  then show ?thesis
    by (simp add: days_civil_def month_of_def day_of_def yday_of_def)
qed

lemma month_days_12 [simp]: "month_days l 12 = (if l then 366 else 365)"
  by (simp add: month_days_def eval_nat_numeral)

lemma month_length_in_year:
  assumes "1 \<le> m" "m \<le> 12"
  shows "month_length y m = month_days (leap y) (nat m) - month_days (leap y) (nat (m - 1))"
proof (cases "m = 12")
  case True
  then show ?thesis
    by (simp add: month_length_def days_civil_def year_days_Suc month_days_def)
next
  case False
  then have "(m - 1) div 12 = 0" "m div 12 = 0" "m mod 12 = m" "(m - 1) mod 12 = m - 1"
    using assms by simp_all
  then show ?thesis by (simp add: month_length_def days_civil_def)
qed

lemma fields_days_civil:
  assumes "1 \<le> m" "m \<le> 12" "1 \<le> d" "d \<le> month_length y m"
  shows "year_of (days_civil y m d) = y \<and> month_of (days_civil y m d) = m \<and> day_of (days_civil y m d) = d"
proof -
  let ?n = "days_civil y m d"
  let ?i = "nat (m - 1)"
  have i: "?i < 12" and si: "nat m = Suc ?i" using assms by auto
  have q: "(m - 1) div 12 = 0" "(m - 1) mod 12 = m - 1" using assms by simp_all
  have n: "?n + epoch_days = year_days y + month_days (leap y) ?i + d - 1"
    by (simp add: days_civil_def q)
  have len: "d - 1 + month_days (leap y) ?i < month_days (leap y) (Suc ?i)"
    using assms month_length_in_year [of m y] si by simp
  have lo: "0 \<le> month_days (leap y) ?i"
    using less_12_cases [OF i] by (auto simp: month_days_def)
  have hi: "month_days (leap y) (Suc ?i) \<le> (if leap y then 366 else 365)"
    using less_12_cases [OF i] by (auto simp: month_days_def)
  have y: "year_of ?n = y"
    using n lo hi len assms(3) year_days_Suc [of y] by (intro year_of_unique) auto
  have yd: "yday_of ?n = month_days (leap y) ?i + d - 1" using n y by (simp add: yday_of_def)
  have "month_index (leap y) (yday_of ?n) = ?i"
    using i len assms(3) yd by (intro month_index_eq) auto
  then show ?thesis using y yd assms(1) by (simp add: month_of_def day_of_def)
qed

lemma day_of_range: "1 \<le> day_of n \<and> day_of n \<le> month_length (year_of n) (month_of n)"
proof -
  let ?l = "leap (year_of n)"
  let ?i = "month_index ?l (yday_of n)"
  have "month_days ?l ?i \<le> yday_of n \<and> yday_of n < month_days ?l (Suc ?i)"
    using month_index_bounds yday_bounds by blast
  moreover have "month_length (year_of n) (month_of n) = month_days ?l (Suc ?i) - month_days ?l ?i"
    using month_length_in_year [of "month_of n" "year_of n"] month_of_range [of n]
    by (simp add: month_of_def nat_add_distrib)
  ultimately show ?thesis by (simp add: day_of_def)
qed

lemma month_length_cases:
  assumes "1 \<le> m" "m \<le> 12"
  shows "28 \<le> month_length y m \<and> month_length y m \<le> 31"
proof -
  have "nat (m - 1) < 12" using assms by auto
  moreover have "nat m = Suc (nat (m - 1))" using assms by auto
  ultimately show ?thesis
    using less_12_cases [of "nat (m - 1)"] month_length_in_year [OF assms, of y]
    by (auto simp: month_days_def eval_nat_numeral)
qed

lemma days_civil_carry: "days_civil (y + k) m d = days_civil y (m + 12 * k) d"
proof -
  have "(m + 12 * k - 1) div 12 = (m - 1) div 12 + k" "(m + 12 * k - 1) mod 12 = (m - 1) mod 12"
    using div_mult_self2 [of 12 "m - 1" k] mod_mult_self2 [of "m - 1" 12 k]
    by (simp_all add: algebra_simps)
  then show ?thesis by (simp add: days_civil_def Let_def algebra_simps)
qed

lemma days_civil_day: "days_civil y m (d + k) = days_civil y m d + k"
  by (simp add: days_civil_def Let_def)

lemma days_civil_cycle: "days_civil (y + 400 * k) m d = days_civil y m d + 146097 * k"
proof -
  have e: "y + 400 * k + q = (y + q) + 400 * k" for q by simp
  show ?thesis unfolding days_civil_def Let_def e by (simp add: year_days_cycle leap_cycle)
qed

text \<open>A month number may be any integer: \<open>norm_year\<close> and \<open>norm_month\<close> are the fields of the first day
  of that month.\<close>

definition norm_year :: "int \<Rightarrow> int \<Rightarrow> int" where
  "norm_year y m = y + (m - 1) div 12"

definition norm_month :: "int \<Rightarrow> int" where
  "norm_month m = (m - 1) mod 12 + 1"

lemma norm_month_range: "1 \<le> norm_month m \<and> norm_month m \<le> 12"
  by (simp add: norm_month_def)

lemma days_civil_norm: "days_civil y m d = days_civil (norm_year y m) (norm_month m) d"
  by (simp add: days_civil_def norm_year_def norm_month_def)

lemma month_length_norm: "month_length y m = month_length (norm_year y m) (norm_month m)"
proof -
  have m: "m + 1 = norm_month m + 1 + 12 * ((m - 1) div 12)"
    unfolding norm_month_def using div_mult_mod_eq [of "m - 1" 12] by linarith
  show ?thesis
    unfolding month_length_def days_civil_norm [of y m 1] m
    by (simp add: norm_year_def days_civil_carry)
qed

lemma month_length_bounds: "28 \<le> month_length y m \<and> month_length y m \<le> 31"
  using month_length_cases norm_month_range month_length_norm by metis

lemma fields_days_civil_norm:
  assumes "1 \<le> d" "d \<le> month_length y m"
  shows "year_of (days_civil y m d) = norm_year y m \<and> month_of (days_civil y m d) = norm_month m
    \<and> day_of (days_civil y m d) = d"
  using fields_days_civil [of "norm_month m" d "norm_year y m"] assms norm_month_range
    days_civil_norm [of y m d] month_length_norm [of y m] by simp

section \<open>Order\<close>

text \<open>Later days have later fields.\<close>

lemma year_of_mono: "n \<le> n' \<Longrightarrow> year_of n \<le> year_of n'"
proof (rule ccontr)
  assume n: "n \<le> n'" and "\<not> year_of n \<le> year_of n'"
  then have "year_days (year_of n' + 1) \<le> year_days (year_of n)" by (intro year_days_mono) simp
  then show False using year_of_bounds [of n] year_of_bounds [of n'] n by linarith
qed

lemma length_filter_mono: "(\<And>x. P x \<Longrightarrow> Q x) \<Longrightarrow> length (filter P xs) \<le> length (filter Q xs)"
  by (induction xs) (auto simp: le_SucI)

lemma month_index_mono: "yday \<le> yday' \<Longrightarrow> month_index l yday \<le> month_index l yday'"
  unfolding month_index_def by (rule length_filter_mono) (erule order_trans)

lemma fields_mono:
  assumes "n < n'"
  shows "year_of n < year_of n' \<or> year_of n = year_of n' \<and>
    (month_of n < month_of n' \<or> month_of n = month_of n' \<and> day_of n < day_of n')"
proof -
  have "year_of n < year_of n' \<or> year_of n = year_of n'" using year_of_mono [of n n'] assms by auto
  moreover have "month_of n < month_of n' \<or> month_of n = month_of n' \<and> day_of n < day_of n'"
    if y: "year_of n = year_of n'"
  proof -
    have "yday_of n < yday_of n'" using y assms by (simp add: yday_of_def)
    then have "month_of n \<le> month_of n'" using y by (simp add: month_of_def month_index_mono)
    moreover have "day_of n < day_of n'" if "month_of n = month_of n'"
      using that y \<open>yday_of n < yday_of n'\<close> by (simp add: month_of_def day_of_def)
    ultimately show ?thesis by auto
  qed
  ultimately show ?thesis by blast
qed

end
