(* ===== verification/Timestamps.thy ===== *)
theory Timestamps
  imports Civil GoStrings "HOL-Library.Monad_Syntax"
begin

text \<open>
  Instants and their text form. An instant (\<open>time.Time\<close> in UTC) is the number of nanoseconds since
  the epoch. \<open>Timestamp\<close> is \<open>platform.Timestamp\<close>, the RFC 3339 text with optional nanoseconds
  under which every time is stored; \<open>parse_rfc3339\<close> and \<open>parse_date\<close> are \<open>time.Parse\<close> for the two
  layouts the services use, with the leniencies of Go's parser (a one-digit hour, a comma before
  the fraction, offsets up to 24:60). The main lemmas are that parsing a stored timestamp yields
  the instant it was made from, and that the texts of instants in different seconds sort by time.
\<close>

definition second :: int where "second = 1000000000"
definition minute :: int where "minute = 60 * second"
definition day_ns :: int where "day_ns = 86400 * second"

lemma time_units [simp]: "0 < second" "0 < minute" "0 < day_ns"
  by (simp_all add: second_def minute_def day_ns_def)

section \<open>Formatting\<close>

text \<open>\<open>appendInt\<close>: decimal digits padded with zeros to a minimal width.\<close>

definition pad :: "nat \<Rightarrow> int \<Rightarrow> string" where
  "pad w i =
    (let s = show_digits \<bar>i\<bar>
     in (if i < 0 then ''-'' else []) @ replicate (w - length s) CHR ''0'' @ s)"

definition trim_zeros :: "string \<Rightarrow> string" where
  "trim_zeros s = rev (dropWhile (\<lambda>c. c = CHR ''0'') (rev s))"

definition fraction :: "int \<Rightarrow> string" where
  "fraction ns = (let digits = trim_zeros (pad 9 ns) in if digits = [] then [] else CHR ''.'' # digits)"

definition format_date :: "int \<Rightarrow> string" where
  "format_date n = pad 4 (year_of n) @ ''-'' @ pad 2 (month_of n) @ ''-'' @ pad 2 (day_of n)"

definition Timestamp :: "int \<Rightarrow> string" where
  "Timestamp t =
    (let s = t div second; sod = s mod 86400 in
     format_date (s div 86400) @ ''T'' @ pad 2 (sod div 3600) @ '':'' @ pad 2 (sod div 60 mod 60)
       @ '':'' @ pad 2 (sod mod 60) @ fraction (t mod second) @ ''Z'')"

text \<open>Evaluation waits until the instant is a number: unfolding the calendar arithmetic of a variable under
  a lambda would never pay.\<close>

definition formatted :: "int \<Rightarrow> string" where
  "formatted t = Timestamp t"

lemmas formatted_code [code] = Timestamp_def [folded formatted_def]

lemma Timestamp_code [code]:
  "Timestamp 0 = formatted 0" "Timestamp (Int.Pos n) = formatted (Int.Pos n)" "Timestamp (Int.Neg n) = formatted (Int.Neg n)"
  by (simp_all add: formatted_def)

section \<open>Parsing\<close>

definition take_digits :: "nat \<Rightarrow> string \<Rightarrow> (int \<times> string) option" where
  "take_digits n s =
    (if n \<le> length s \<and> list_all is_digit (take n s) then Some (digits_value 0 (take n s), drop n s)
     else None)"

definition expect :: "char \<Rightarrow> string \<Rightarrow> string option" where
  "expect c s = (case s of [] \<Rightarrow> None | d # r \<Rightarrow> if d = c then Some r else None)"

text \<open>\<open>getnum(value, false)\<close>: one or two digits.\<close>

definition take_hour :: "string \<Rightarrow> (int \<times> string) option" where
  "take_hour s =
    (case s of
       c # d # _ \<Rightarrow> if is_digit c \<and> is_digit d then take_digits 2 s else take_digits 1 s
     | _ \<Rightarrow> take_digits 1 s)"

definition in_range :: "int \<Rightarrow> int \<Rightarrow> int \<Rightarrow> unit option" where
  "in_range lo v hi = (if lo \<le> v \<and> v \<le> hi then Some () else None)"

definition take_fraction :: "string \<Rightarrow> int \<times> string" where
  "take_fraction s =
    (case s of
       p # c # r \<Rightarrow>
         if (p = CHR ''.'' \<or> p = CHR '','') \<and> is_digit c then
           (let ds = takeWhile is_digit (c # r); kept = take 9 ds
            in (digits_value 0 (kept @ replicate (9 - length kept) CHR ''0''), dropWhile is_digit (c # r)))
         else (0, s)
     | _ \<Rightarrow> (0, s))"

definition take_zone :: "string \<Rightarrow> (int \<times> string) option" where
  "take_zone s =
    (case s of
       [] \<Rightarrow> None
     | c # r \<Rightarrow>
       if c = CHR ''Z'' then Some (0, r)
       else do {
         (h, r) \<leftarrow> take_digits 2 r;
         r \<leftarrow> expect CHR '':'' r;
         (m, r) \<leftarrow> take_digits 2 r;
         in_range 0 h 24;
         in_range 0 m 60;
         if c = CHR ''+'' then Some ((h * 60 + m) * 60, r)
         else if c = CHR ''-'' then Some (- ((h * 60 + m) * 60), r)
         else None
       })"

text \<open>\<open>2006-01-02\<close> at the head of the text: the civil day and the rest.\<close>

definition take_date :: "string \<Rightarrow> (int \<times> string) option" where
  "take_date s = do {
     (y, s) \<leftarrow> take_digits 4 s;
     s \<leftarrow> expect CHR ''-'' s;
     (m, s) \<leftarrow> take_digits 2 s;
     in_range 1 m 12;
     s \<leftarrow> expect CHR ''-'' s;
     (d, s) \<leftarrow> take_digits 2 s;
     in_range 1 d (month_length y m);
     Some (days_civil y m d, s)
   }"

definition parse_date :: "string \<Rightarrow> int option" where
  "parse_date s = do { (n, r) \<leftarrow> take_date s; if r = [] then Some n else None }"

definition parse_rfc3339 :: "string \<Rightarrow> int option" where
  "parse_rfc3339 s = do {
     (n, s) \<leftarrow> take_date s;
     s \<leftarrow> expect CHR ''T'' s;
     (h, s) \<leftarrow> take_hour s;
     in_range 0 h 23;
     s \<leftarrow> expect CHR '':'' s;
     (mi, s) \<leftarrow> take_digits 2 s;
     in_range 0 mi 59;
     s \<leftarrow> expect CHR '':'' s;
     (sec, s) \<leftarrow> take_digits 2 s;
     in_range 0 sec 59;
     (let (ns, s) = take_fraction s in do {
       (off, s) \<leftarrow> take_zone s;
       if s = [] then Some ((n * 86400 + h * 3600 + mi * 60 + sec - off) * second + ns) else None
     })
   }"

section \<open>Round trip\<close>

lemma div_lower: "0 < m \<Longrightarrow> a * m \<le> t \<Longrightarrow> a \<le> t div (m::int)"
  by (metis less_irrefl nonzero_mult_div_cancel_right zdiv_mono1)

lemma div_upper: "0 < m \<Longrightarrow> t < b * m \<Longrightarrow> t div (m::int) < b"
proof (rule ccontr)
  assume m: "0 < m" and t: "t < b * m" and "\<not> t div m < b"
  then have "b * m \<le> t div m * m" by simp
  also have "\<dots> \<le> t" using m pos_mod_sign [OF m, of t] div_mult_mod_eq [of t m] by linarith
  finally show False using t by simp
qed

definition digit_text :: "nat \<Rightarrow> int \<Rightarrow> string \<Rightarrow> bool" where
  "digit_text w i s \<longleftrightarrow> length s = w \<and> list_all is_digit s \<and> digits_value 0 s = i"

lemma zeros_digits: "list_all is_digit (replicate k CHR ''0'')"
  by (simp add: list_all_length is_digit_def)

lemma pad_digits:
  assumes "0 < w" "0 \<le> i" "i < 10 ^ w"
  shows "digit_text w i (pad w i)"
proof -
  have "length (show_digits i) \<le> w" using show_digits_length assms by blast
  then show ?thesis
    using assms show_digits_digits [of i] zeros_digits
    by (simp add: digit_text_def pad_def Let_def digits_value_append digits_value_zeros digits_value_show)
qed

lemma take_digits_text: "digit_text w i s \<Longrightarrow> take_digits w (s @ r) = Some (i, r)"
  by (auto simp: digit_text_def take_digits_def)

lemma take_hour_text: "digit_text 2 i s \<Longrightarrow> take_hour (s @ r) = Some (i, r)"
  using take_digits_text [of 2 i s r]
  by (auto simp: take_hour_def digit_text_def numeral_2_eq_2 length_Suc_conv)

lemma expect_Cons [simp]: "expect c (c # r) = Some r"
  by (simp add: expect_def)

lemma in_range_Some [simp]: "lo \<le> v \<Longrightarrow> v \<le> hi \<Longrightarrow> in_range lo v hi = Some ()"
  by (simp add: in_range_def)

lemma trim_zeros_pad: "\<exists>k. s = trim_zeros s @ replicate k CHR ''0''"
proof -
  have "\<forall>c\<in>set (takeWhile (\<lambda>c. c = CHR ''0'') (rev s)). c = CHR ''0''"
    by (auto dest: set_takeWhileD)
  then have "takeWhile (\<lambda>c. c = CHR ''0'') (rev s) =
      replicate (length (takeWhile (\<lambda>c. c = CHR ''0'') (rev s))) CHR ''0''"
    by (metis replicate_length_same)
  then have "rev s = replicate (length (takeWhile (\<lambda>c. c = CHR ''0'') (rev s))) CHR ''0''
      @ dropWhile (\<lambda>c. c = CHR ''0'') (rev s)"
    by (metis takeWhile_dropWhile_id)
  then have "s = rev (dropWhile (\<lambda>c. c = CHR ''0'') (rev s))
      @ rev (replicate (length (takeWhile (\<lambda>c. c = CHR ''0'') (rev s))) CHR ''0'')"
    by (metis rev_append rev_rev_ident)
  then show ?thesis unfolding trim_zeros_def by (metis rev_replicate)
qed

lemma take_fraction_text:
  assumes "0 \<le> ns" "ns < second"
  shows "take_fraction (fraction ns @ ''Z'') = (ns, ''Z'')"
proof -
  let ?s = "pad 9 ns"
  have d: "length ?s = 9" "list_all is_digit ?s" "digits_value 0 ?s = ns"
    using pad_digits [of 9 ns] assms by (auto simp: digit_text_def second_def)
  obtain k where k: "?s = trim_zeros ?s @ replicate k CHR ''0''" using trim_zeros_pad by blast
  show ?thesis
  proof (cases "trim_zeros ?s")
    case Nil
    then have "digits_value 0 ?s = 0" using k digits_value_zeros [of 0 k] by simp
    then show ?thesis using d Nil by (simp add: fraction_def take_fraction_def)
  next
    case (Cons c r)
    have ds: "list_all is_digit (c # r)" using d(2) k Cons by (metis list_all_append)
    have len: "length (c # r) + k = 9" using d(1) k Cons by (metis length_append length_replicate)
    have z: "\<not> is_digit CHR ''Z''" by (simp add: is_digit_def)
    have w: "takeWhile is_digit (c # r @ ''Z'') = c # r" "dropWhile is_digit (c # r @ ''Z'') = ''Z''"
      using ds z by (auto simp: takeWhile_append2 dropWhile_append2 list_all_iff)
    have "digits_value 0 ((c # r) @ replicate k CHR ''0'') = ns" using d(3) k Cons by simp
    moreover have "9 - length (c # r) = k" "take 9 (c # r) = c # r" using len by auto
    ultimately show ?thesis
      using ds by (simp add: fraction_def Cons take_fraction_def Let_def w del: takeWhile.simps dropWhile.simps)
  qed
qed

lemma take_date_text:
  assumes "0 \<le> year_of n" "year_of n \<le> 9999"
  shows "take_date (format_date n @ r) = Some (n, r)"
proof -
  have m: "1 \<le> month_of n" "month_of n \<le> 12" using month_of_range by auto
  have d: "1 \<le> day_of n" "day_of n \<le> month_length (year_of n) (month_of n)" using day_of_range by auto
  then have "day_of n \<le> 31" using month_length_bounds order_trans by blast
  with m d have t: "digit_text 4 (year_of n) (pad 4 (year_of n))"
    "digit_text 2 (month_of n) (pad 2 (month_of n))" "digit_text 2 (day_of n) (pad 2 (day_of n))"
    using assms by (auto intro!: pad_digits)
  show ?thesis
    by (simp add: take_date_def format_date_def take_digits_text [OF t(1)] take_digits_text [OF t(2)]
        take_digits_text [OF t(3)] m d days_civil_fields)
qed

lemma parse_format_date:
  "0 \<le> year_of n \<Longrightarrow> year_of n \<le> 9999 \<Longrightarrow> parse_date (format_date n) = Some n"
  using take_date_text [of n "[]"] by (simp add: parse_date_def)

lemma parse_parts:
  assumes "0 \<le> year_of n" "year_of n \<le> 9999" "0 \<le> h" "h \<le> 23" "0 \<le> mi" "mi \<le> 59" "0 \<le> se" "se \<le> 59"
    "0 \<le> ns" "ns < second"
  shows "parse_rfc3339 (format_date n @ ''T'' @ pad 2 h @ '':'' @ pad 2 mi @ '':'' @ pad 2 se
      @ fraction ns @ ''Z'') = Some ((n * 86400 + h * 3600 + mi * 60 + se) * second + ns)"
proof -
  have t: "digit_text 2 h (pad 2 h)" "digit_text 2 mi (pad 2 mi)" "digit_text 2 se (pad 2 se)"
    using assms by (auto intro!: pad_digits)
  show ?thesis
    using assms
    by (simp add: parse_rfc3339_def take_date_text take_hour_text [OF t(1)] take_digits_text [OF t(2)]
        take_digits_text [OF t(3)] take_fraction_text take_zone_def)
qed

lemma clock_fields:
  assumes "0 \<le> sod" "sod < 86400"
  shows "0 \<le> sod div 3600" "sod div 3600 \<le> 23" "0 \<le> sod div 60 mod 60" "sod div 60 mod 60 \<le> 59"
    "0 \<le> sod mod 60" "sod mod 60 \<le> (59::int)"
    "sod div 3600 * 3600 + sod div 60 mod 60 * 60 + sod mod 60 = sod"
proof -
  show "0 \<le> sod div 3600" using assms by (simp add: pos_imp_zdiv_nonneg_iff)
  have "sod div 3600 < 24" using div_upper [of 3600 sod 24] assms by simp
  then show "sod div 3600 \<le> 23" by simp
  show "0 \<le> sod div 60 mod 60" "0 \<le> sod mod 60" by simp_all
  show "sod div 60 mod 60 \<le> 59" "sod mod 60 \<le> 59"
    using pos_mod_bound [of 60 "sod div 60"] pos_mod_bound [of 60 sod] by simp_all
  have "sod div 60 div 60 = sod div 3600" using zdiv_zmult2_eq [of 60 sod 60] by simp
  then show "sod div 3600 * 3600 + sod div 60 mod 60 * 60 + sod mod 60 = sod"
    using div_mult_mod_eq [of "sod div 60" 60] div_mult_mod_eq [of sod 60] by linarith
qed

lemma parse_Timestamp_aux:
  assumes "0 \<le> year_of (t div second div 86400)" "year_of (t div second div 86400) \<le> 9999"
  shows "parse_rfc3339 (Timestamp t) = Some t"
proof -
  define s where "s = t div second"
  define sod where "sod = s mod 86400"
  have sod: "0 \<le> sod" "sod < 86400" by (simp_all add: sod_def)
  have ns: "0 \<le> t mod second" "t mod second < second" by simp_all
  have "s div 86400 * 86400 + sod = s" by (simp add: sod_def)
  then have "(s div 86400 * 86400 + sod div 3600 * 3600 + sod div 60 mod 60 * 60 + sod mod 60) * second
      + t mod second = t"
  proof -
    have "s div 86400 * 86400 + sod div 3600 * 3600 + sod div 60 mod 60 * 60 + sod mod 60 = s"
      using clock_fields(7) [OF sod] \<open>s div 86400 * 86400 + sod = s\<close> by linarith
    then show ?thesis using div_mult_mod_eq [of t second] by (simp only: s_def)
  qed
  then show ?thesis
    using parse_parts [OF assms clock_fields(1-6) [OF sod] ns]
    by (simp only: Timestamp_def Let_def s_def [symmetric] sod_def [symmetric])
qed

section \<open>Order of the stored text\<close>

text \<open>Texts of one length are compared at the first place where they differ.\<close>

lemma less_append: "length (a :: string) = length b \<Longrightarrow> a < b \<Longrightarrow> a @ r < b @ r'"
  by (simp add: list_less_def lexord_sufI)

lemma append_less: "r < r' \<Longrightarrow> (a :: string) @ r < a @ r'"
  by (simp add: list_less_def lexord_append_leftI)

lemma digits_value_acc: "digits_value a s = a * 10 ^ length s + digits_value 0 s"
proof (induction s arbitrary: a)
  case (Cons c s)
  show ?case using Cons [of "a * 10 + digit c"] Cons [of "digit c"] by (simp add: algebra_simps)
qed simp

lemma digits_value_bounds: "list_all is_digit s \<Longrightarrow> 0 \<le> digits_value 0 s \<and> digits_value 0 s < 10 ^ length s"
proof (induction s)
  case (Cons c s)
  then have d: "0 \<le> digit c" "digit c \<le> 9" using digit_range by auto
  have "digit c * 10 ^ length s \<le> 9 * 10 ^ length s" using d by simp
  moreover have "0 \<le> digit c * 10 ^ length s" using d by simp
  moreover have "0 \<le> digits_value 0 s" "digits_value 0 s < 10 ^ length s" using Cons by simp_all
  ultimately have "0 \<le> digits_value (digit c) s" "digits_value (digit c) s < 10 * 10 ^ length s"
    unfolding digits_value_acc [of "digit c" s] by linarith+
  then show ?case by simp
qed simp

lemma digits_less:
  "length a = length b \<Longrightarrow> list_all is_digit a \<Longrightarrow> list_all is_digit b \<Longrightarrow> a < b \<Longrightarrow>
   digits_value 0 a < digits_value 0 b"
proof (induction a b rule: list_induct2)
  case (Cons c s d t)
  have s: "digits_value 0 s < 10 ^ length s" "0 \<le> digits_value 0 t"
    using Cons digits_value_bounds [of s] digits_value_bounds [of t] by auto
  from Cons consider "c < d" | "c = d" "s < t" by auto
  then show ?case
  proof cases
    case 1
    then have "digit c + 1 \<le> digit d" by (simp add: digit_def less_char_def)
    then have "(digit c + 1) * 10 ^ length s \<le> digit d * 10 ^ length s" by (intro mult_right_mono) simp_all
    then show ?thesis
      using s Cons.hyps digits_value_acc [of "digit c" s] digits_value_acc [of "digit d" t] by (simp add: algebra_simps)
  next
    case 2
    then show ?thesis
      using Cons digits_value_acc [of "digit c" s] digits_value_acc [of "digit d" t] by simp
  qed
qed simp

lemma digit_text_less: "digit_text w i a \<Longrightarrow> digit_text w j b \<Longrightarrow> i < j \<Longrightarrow> a < b"
  using digits_less [of b a] unfolding digit_text_def by (metis less_irrefl less_trans linorder_neqE)

lemma pad_less: "0 < w \<Longrightarrow> 0 \<le> i \<Longrightarrow> i < j \<Longrightarrow> j < 10 ^ w \<Longrightarrow> pad w i @ r < pad w j @ r'"
  by (rule less_append, use pad_digits [of w i] pad_digits [of w j] in \<open>simp add: digit_text_def\<close>)
    (rule digit_text_less [of w i _ j], simp_all add: pad_digits)

lemma fields_range: "0 \<le> month_of n" "month_of n < 100" "0 \<le> day_of n" "day_of n < 100"
  using month_of_range [of n] day_of_range [of n] month_length_bounds [of "year_of n" "month_of n"] by auto

lemma format_date_less:
  assumes "0 \<le> year_of n" "year_of n' \<le> 9999" "n < n'"
  shows "format_date n @ r < format_date n' @ r'"
proof -
  from fields_mono [OF assms(3)] consider "year_of n < year_of n'"
    | "year_of n = year_of n'" "month_of n < month_of n'"
    | "year_of n = year_of n'" "month_of n = month_of n'" "day_of n < day_of n'" by blast
  then show ?thesis
    using assms(1,2) fields_range [of n] fields_range [of n'] unfolding format_date_def append_assoc
    by cases (simp_all only:, (intro append_less pad_less; simp)+)
qed

lemma clock_order:
  fixes h :: int
  assumes "h \<le> h'" "m \<le> m'" "s < s'" "m = h * 60 + mi" "m' = h' * 60 + mi'" "s = m * 60 + se" "s' = m' * 60 + se'"
  shows "h < h' \<or> h = h' \<and> mi < mi' \<or> h = h' \<and> mi = mi' \<and> se < se'"
  using assms by linarith

lemma clock_text_less:
  assumes "h < h' \<or> h = h' \<and> mi < mi' \<or> h = h' \<and> mi = mi' \<and> se < se'"
    "0 \<le> h" "h \<le> 23" "0 \<le> mi" "mi \<le> 59" "0 \<le> se" "se \<le> 59"
    "0 \<le> h'" "h' \<le> 23" "0 \<le> mi'" "mi' \<le> 59" "0 \<le> se'" "se' \<le> 59"
  shows "pad 2 h @ '':'' @ pad 2 mi @ '':'' @ pad 2 se @ r < pad 2 h' @ '':'' @ pad 2 mi' @ '':'' @ pad 2 se' @ r'"
  using assms by (elim disjE conjE) (simp_all only:, (intro append_less pad_less; simp)+)

lemma clock_less:
  fixes s :: int
  assumes "0 \<le> s" "s < s'" "s' < 86400"
  shows "pad 2 (s div 3600) @ '':'' @ pad 2 (s div 60 mod 60) @ '':'' @ pad 2 (s mod 60) @ r
    < pad 2 (s' div 3600) @ '':'' @ pad 2 (s' div 60 mod 60) @ '':'' @ pad 2 (s' mod 60) @ r'"
proof -
  have s: "0 \<le> s" "s < 86400" "0 \<le> s'" "s' < 86400" using assms by simp_all
  have hours: "s div 3600 \<le> s' div 3600" and minutes: "s div 60 \<le> s' div 60"
    using assms by (simp_all add: zdiv_mono1)
  have e: "x div 60 div 60 = x div 3600" for x :: int using zdiv_zmult2_eq [of 60 x 60] by simp
  have split: "x div 60 = x div 3600 * 60 + x div 60 mod 60" "x = x div 60 * 60 + x mod 60" for x :: int
    using div_mult_mod_eq [of "x div 60" 60] unfolding e by (simp_all only: div_mult_mod_eq)
  show ?thesis
    by (rule clock_text_less [OF clock_order [OF hours minutes assms(2) split(1) split(1) split(2) split(2)]
          clock_fields(1-6) [OF s(1,2)] clock_fields(1-6) [OF s(3,4)]])
qed

lemma instant_days: "t div second div 86400 = t div day_ns"
  by (simp add: day_ns_def zdiv_zmult2_eq mult.commute second_def)

lemma stored_years:
  assumes "days_civil 0 1 1 * day_ns \<le> t" "t < days_civil 10000 1 1 * day_ns"
  shows "0 \<le> year_of (t div second div 86400)" "year_of (t div second div 86400) \<le> 9999"
proof -
  let ?n = "t div second div 86400"
  have lo: "days_civil 0 1 1 \<le> ?n" and hi: "?n < days_civil 10000 1 1"
    unfolding instant_days using assms by (simp_all add: div_lower div_upper)
  have e: "days_civil y 1 1 = year_days y - epoch_days" for y
    by (simp add: days_civil_def month_days_def)
  show "0 \<le> year_of ?n"
  proof (rule ccontr)
    assume "\<not> 0 \<le> year_of ?n"
    then have "year_days (year_of ?n + 1) \<le> year_days 0" by (intro year_days_mono) simp
    then show False using year_of_bounds [of ?n] lo e [of 0] by simp
  qed
  show "year_of ?n \<le> 9999"
  proof (rule ccontr)
    assume "\<not> year_of ?n \<le> 9999"
    then have "year_days 10000 \<le> year_days (year_of ?n)" by (intro year_days_mono) simp
    then show False using year_of_bounds [of ?n] hi e [of 10000] by simp
  qed
qed

text \<open>The text of an earlier second sorts before the text of a later one. Within one second this fails, since
  a full second has no fraction.\<close>

definition stored_instant :: "int \<Rightarrow> bool" where
  "stored_instant t \<longleftrightarrow> days_civil 0 1 1 * day_ns \<le> t \<and> t < days_civil 10000 1 1 * day_ns"

lemma Timestamp_less:
  assumes "stored_instant t" "stored_instant u" "t div second < u div second"
  shows "Timestamp t < Timestamp u"
proof -
  let ?s = "t div second" and ?s' = "u div second"
  have y: "0 \<le> year_of (?s div 86400)" "year_of (?s' div 86400) \<le> 9999"
    using stored_years [of t] stored_years [of u] assms by (simp_all add: stored_instant_def)
  have "?s div 86400 \<le> ?s' div 86400" using assms(3) by (simp add: zdiv_mono1)
  then consider "?s div 86400 < ?s' div 86400" | "?s div 86400 = ?s' div 86400" by linarith
  then show ?thesis
  proof cases
    case 1
    then show ?thesis using y unfolding Timestamp_def Let_def by (intro format_date_less)
  next
    case 2
    then have "?s mod 86400 < ?s' mod 86400"
      using assms(3) div_mult_mod_eq [of ?s 86400] div_mult_mod_eq [of ?s' 86400] by linarith
    then show ?thesis using 2 unfolding Timestamp_def Let_def
      by (simp only: 2) (intro append_less clock_less; simp)
  qed
qed

lemma full_second_sorts_last:
  "Timestamp 1000000000 = ''1970-01-01T00:00:01Z'' \<and> Timestamp 1500000000 = ''1970-01-01T00:00:01.5Z'' \<and>
   Timestamp 1500000000 < Timestamp 1000000000"
  by code_simp

section \<open>Properties\<close>

text \<open>C21. Every instant of the years 0 to 9999 survives storage: parsing its \<open>platform.Timestamp\<close>
  text with the RFC 3339 layout gives the instant back, to the nanosecond.\<close>

theorem parse_Timestamp:
  assumes "days_civil 0 1 1 * day_ns \<le> t" "t < days_civil 10000 1 1 * day_ns"
  shows "parse_rfc3339 (Timestamp t) = Some t"
  using parse_Timestamp_aux stored_years [OF assms] by blast

theorem parse_Timestamp_witness:
  "Timestamp 1709210096500000000 = ''2024-02-29T12:34:56.5Z'' \<and>
   parse_rfc3339 (Timestamp 1709210096500000000) = Some 1709210096500000000"
proof
  show "Timestamp 1709210096500000000 = ''2024-02-29T12:34:56.5Z''" by code_simp
  have "days_civil 0 1 1 * day_ns \<le> 1709210096500000000"
    "1709210096500000000 < days_civil 10000 1 1 * day_ns" by code_simp+
  then show "parse_rfc3339 (Timestamp 1709210096500000000) = Some 1709210096500000000"
    by (rule parse_Timestamp)
qed

end
