(* ===== verification/Domain.thy ===== *)
theory Domain
  imports Timestamps
begin

text \<open>
  The business vocabulary of \<open>internal/domain/domain.go\<close> and the command inputs and results of the
  accounting services that the idempotency store compares and replays. Structs are records,
  pointers to optional fields are options, the string-typed enumerations of Go stay strings and
  keep their spelling, and amounts are integers whose \<open>int64\<close> bounds are checked where the code
  checks them.
\<close>

definition max_int64 :: int where
  "max_int64 = 9223372036854775807"

definition min_int64 :: int where
  "min_int64 = - 9223372036854775808"

definition is_int64 :: "int \<Rightarrow> bool" where
  "is_int64 i \<longleftrightarrow> min_int64 \<le> i \<and> i \<le> max_int64"

section \<open>Enumerations\<close>

definition ReasonMode_Valid :: "string \<Rightarrow> bool" where
  "ReasonMode_Valid mode \<longleftrightarrow> mode = ''OFF'' \<or> mode = ''OPTIONAL'' \<or> mode = ''REQUIRED''"

definition ReasonMode_Enabled :: "string \<Rightarrow> bool" where
  "ReasonMode_Enabled mode \<longleftrightarrow> mode \<noteq> ''OFF''"

definition ReasonMode_Required :: "string \<Rightarrow> bool" where
  "ReasonMode_Required mode \<longleftrightarrow> mode = ''REQUIRED''"

definition AttachmentMode_Valid :: "string \<Rightarrow> bool" where
  "AttachmentMode_Valid mode \<longleftrightarrow> mode = ''OFF'' \<or> mode = ''OPTIONAL'' \<or> mode = ''REQUIRED''"

definition AttachmentMode_Enabled :: "string \<Rightarrow> bool" where
  "AttachmentMode_Enabled mode \<longleftrightarrow> mode \<noteq> ''OFF''"

definition AttachmentMode_Required :: "string \<Rightarrow> bool" where
  "AttachmentMode_Required mode \<longleftrightarrow> mode = ''REQUIRED''"

definition DefaultOpenPeriodLabel :: string where
  "DefaultOpenPeriodLabel = ''Aktueller Zeitraum''"

definition MaxProductPriceMinor :: int where
  "MaxProductPriceMinor = 100000000000"

section \<open>Identities\<close>

record principal =
  UserID :: string

record membership =
  m_ID :: string
  m_GroupID :: string
  m_UserID :: string
  m_DisplayName :: string
  m_AvatarURL :: string

section \<open>Accounting records\<close>

record booking =
  b_ID :: string
  b_GroupID :: string
  b_PeriodID :: string
  b_CategoryID :: string
  b_ProductID :: string
  b_ActorMembershipID :: string
  b_ActorDisplayName :: string
  b_ActorAvatarURL :: string
  b_ActorMembershipStatus :: string
  b_TargetMembershipID :: string
  b_TargetDisplayName :: string
  b_TargetAvatarURL :: string
  b_TargetMembershipStatus :: string
  b_Quantity :: int
  b_UnitPriceMinor :: int
  b_TotalMinor :: int
  b_Currency :: string
  b_ProductName :: string
  b_CategoryName :: string
  b_Reason :: string
  b_CreatedAt :: string
  b_VoidedAt :: "string option"
  b_VoidReason :: string
  b_CanVoid :: bool
  b_VoidReasonRequired :: bool
  b_VoidWithoutReasonUntil :: "string option"

record payment_allocation =
  pa_PeriodID :: string
  pa_AmountMinor :: int

record attachment_summary =
  at_FileName :: string
  at_MediaType :: string
  at_SizeBytes :: int
  at_URL :: string

record payment =
  p_ID :: string
  p_GroupID :: string
  p_MembershipID :: string
  p_MemberName :: string
  p_MemberStatus :: string
  p_MemberAvatarURL :: string
  p_ActorMembershipID :: string
  p_ActorDisplayName :: string
  p_ActorMembershipStatus :: string
  p_ActorAvatarURL :: string
  p_AmountMinor :: int
  p_Currency :: string
  p_ReceivedAt :: string
  p_Method :: string
  p_MethodLabel :: string
  p_Reference :: string
  p_Note :: string
  p_Status :: string
  p_Allocations :: "payment_allocation list"
  p_Attachment :: "attachment_summary option"

record period =
  per_ID :: string
  per_GroupID :: string
  per_Label :: string
  per_Status :: string
  per_StartsAt :: string
  per_ClosedAt :: "string option"
  per_DueAt :: "string option"

record close_result =
  ClosedPeriod :: period
  OpenPeriod :: period
  StatementCount :: int

text \<open>\<open>domain.ExternalAccount\<close> and the versioned collection that configuration commands return.\<close>

record external_account =
  xac_ID :: string
  xac_GroupID :: string
  xac_Name :: string
  xac_Type :: string
  xac_Status :: string
  xac_SortOrder :: int
  xac_PayPalMeHandle :: string
  xac_SEPARecipientName :: string
  xac_SEPAIBAN :: string
  xac_SEPABIC :: string
  xac_BalanceMinor :: int
  xac_Currency :: string
  xac_LinkedPaymentMethodIDs :: "string list"
  xac_HasTransactions :: bool
  xac_CanChangeType :: bool
  xac_CanDelete :: bool
  xac_CanArchive :: bool
  xac_CanReactivate :: bool
  xac_Version :: int
  xac_CreatedAt :: string
  xac_UpdatedAt :: string

record account_collection =
  col_Items :: "external_account list"
  col_Version :: int

text \<open>\<open>domain.ExternalAccountTransaction\<close> and its permission-scoped projection
  \<open>externalaccounts.TransactionView\<close>.\<close>

record external_transaction =
  xt_ID :: string
  xt_GroupID :: string
  xt_Kind :: string
  xt_PrimaryAccountID :: string
  xt_CounterpartyAccountID :: string
  xt_PaymentID :: string
  xt_AmountMinor :: int
  xt_Currency :: string
  xt_BookedAt :: string
  xt_Reason :: string
  xt_Reference :: string
  xt_Note :: string
  xt_ReversalOf :: string
  xt_CorrectionOf :: string
  xt_CreatedByMembershipID :: string
  xt_CreatedAt :: string

record account_reference =
  acr_ID :: string
  acr_Name :: string
  acr_Type :: string

record transaction_actor =
  ta_ID :: string
  ta_DisplayName :: string
  ta_AvatarURL :: string

record transaction_impact =
  im_Account :: account_reference
  im_AmountMinor :: int

record transaction_view =
  tv_Transaction :: external_transaction
  tv_Attachment :: "attachment_summary option"
  tv_Source :: string
  tv_OccurredAt :: string
  tv_SourceAccount :: "account_reference option"
  tv_DestinationAccount :: "account_reference option"
  tv_Actor :: transaction_actor
  tv_Impacts :: "transaction_impact list"
  tv_Status :: string
  tv_ReversalOfID :: string
  tv_ReplacementForID :: string
  tv_ReversedByID :: string
  tv_ReplacementID :: string
  tv_CanReverse :: bool

section \<open>Command inputs\<close>

record create_booking_input =
  ci_ProductID :: string
  ci_ProductVersion :: int
  ci_ExpectedPeriodID :: string
  ci_Quantity :: int
  ci_UnitPriceMinor :: "int option"
  ci_TargetMembershipID :: string
  ci_Reason :: string

record batch_create_input =
  bi_ProductID :: string
  bi_ProductVersion :: int
  bi_ExpectedPeriodID :: string
  bi_Quantity :: int
  bi_UnitPriceMinor :: "int option"
  bi_TargetMembershipIDs :: "string list"
  bi_TemporaryGuestDisplayNames :: "string list"
  bi_Reason :: string

record bulk_create_item =
  it_ProductID :: string
  it_ProductVersion :: int
  it_Quantity :: int
  it_UnitPriceMinor :: "int option"

record bulk_create_input =
  ui_ExpectedPeriodID :: string
  ui_Items :: "bulk_create_item list"
  ui_TargetMembershipIDs :: "string list"
  ui_TemporaryGuestDisplayNames :: "string list"
  ui_Reason :: string

record close_input =
  cl_Label :: string
  cl_DueAt :: string
  cl_NextPeriodLabel :: string

record create_payment_input =
  pi_MembershipID :: string
  pi_AmountMinor :: int
  pi_ReceivedAt :: string
  pi_Method :: string
  pi_Reference :: string
  pi_Note :: string

record account_input =
  acc_Name :: string
  acc_Type :: string
  acc_PayPalMeHandle :: string
  acc_SEPARecipientName :: string
  acc_SEPAIBAN :: string
  acc_SEPABIC :: string

record opening_balance_input =
  ob_AmountMinor :: int
  ob_OccurredAt :: string
  ob_Reason :: string
  ob_Reference :: string
  ob_Note :: string

record create_transaction_input =
  xi_Kind :: string
  xi_SourceAccountID :: string
  xi_DestinationAccountID :: string
  xi_AmountMinor :: int
  xi_OccurredAt :: string
  xi_Reason :: string
  xi_Reference :: string
  xi_Note :: string

record normalized_transaction_input =
  nx_Kind :: string
  nx_PrimaryAccountID :: string
  nx_CounterpartyAccountID :: "string option"
  nx_AmountMinor :: int
  nx_BookedAt :: string
  nx_Reason :: string
  nx_Reference :: string
  nx_Note :: string

section \<open>Idempotent requests and responses\<close>

text \<open>What a service serialises and hashes to recognise a retried command, and what it stores to
  answer the retry.\<close>

datatype request =
    ReqCreateBooking create_booking_input
  | ReqCreateBatch batch_create_input
  | ReqCreateBulk bulk_create_input
  | ReqVoidBooking string string
  | ReqClosePeriod string close_input
  | ReqCreatePayment create_payment_input string
  | ReqReversePayment string string
  | ReqCreateAccount account_input "normalized_transaction_input option"
  | ReqExternalTransaction normalized_transaction_input string
  | ReqReverseExternal string string

datatype response =
    RespBooking booking
  | RespBookings "booking list"
  | RespClose close_result
  | RespPayment payment
  | RespPaymentReversed string
  | RespAccounts account_collection
  | RespTransaction transaction_view

section \<open>The environment\<close>

text \<open>What a run takes from outside the database: the readings of the clock and of the operating
  system's random source, in the order they are taken, and the digest of a request.\<close>

record env =
  env_now :: "nat \<Rightarrow> int"
  env_random :: "nat \<Rightarrow> string"
  env_hash :: "request \<Rightarrow> string"

end
