(* ===== verification/Database.thy ===== *)
theory Database
  imports Domain
begin

text \<open>
  The SQLite database as a record of tables, each a list of rows in insertion order, with the
  insertions the services perform and the constraints of \<open>migrations/\<close> that can reject them:
  primary keys, unique indexes, \<open>CHECK\<close> clauses and the foreign keys of the ledger. On top of it
  \<open>storage.WithTx\<close>, identifiers and clock readings (\<open>internal/platform\<close>), the idempotency store
  (\<open>internal/idempotency\<close>) and the audit trail (\<open>internal/audit\<close>).
\<close>

section \<open>Rows\<close>

record group_row =
  gr_id :: string
  gr_currency :: string
  gr_status :: string

record user_row =
  us_id :: string
  us_email :: "string option"
  us_display_name :: string
  us_password_hash :: "string option"
  us_active :: bool
  us_avatar_key :: "string option"

record membership_row =
  ms_id :: string
  ms_group :: string
  ms_user :: string
  ms_status :: string
  ms_guest_key :: "string option"
  ms_deleted_at :: "string option"

record assignment_row =
  as_group :: string
  as_membership :: string
  as_role :: string

record grant_row =
  gt_group :: string
  gt_role :: string
  gt_permission :: string
  gt_scope :: string
  gt_category :: "string option"
  gt_product :: "string option"

record settings_row =
  st_group :: string
  st_settlements :: bool
  st_own_booking_mode :: string
  st_foreign_booking_mode :: string
  st_own_payment_mode :: string
  st_other_payment_mode :: string
  st_external_enabled :: bool
  st_external_version :: int
  st_planning_enabled :: bool
  st_statistics_enabled :: bool

record period_row =
  pe_id :: string
  pe_group :: string
  pe_label :: string
  pe_status :: string
  pe_starts_at :: string
  pe_closed_at :: "string option"
  pe_due_at :: "string option"
  pe_closed_by :: "string option"

record category_row =
  ca_id :: string
  ca_group :: string
  ca_name :: string
  ca_icon :: string
  ca_sort_order :: int
  ca_active :: bool

record product_row =
  pr_id :: string
  pr_group :: string
  pr_category :: string
  pr_name :: string
  pr_price :: "int option"
  pr_pricing_mode :: string
  pr_active :: bool
  pr_version :: int
  pr_deleted_at :: "string option"

record booking_row =
  bk_id :: string
  bk_group :: string
  bk_period :: string
  bk_category :: string
  bk_product :: string
  bk_actor :: string
  bk_target :: string
  bk_quantity :: int
  bk_unit_price :: int
  bk_total :: int
  bk_product_name :: string
  bk_category_name :: string
  bk_reason :: "string option"
  bk_created_at :: string
  bk_voided_at :: "string option"
  bk_voided_by :: "string option"
  bk_void_reason :: "string option"
  bk_version :: int

record payment_row =
  py_id :: string
  py_group :: string
  py_membership :: string
  py_amount :: int
  py_received_at :: string
  py_method :: string
  py_method_label :: string
  py_reference :: "string option"
  py_note :: "string option"
  py_created_by :: string
  py_created_at :: string
  py_reversed_at :: "string option"
  py_reversed_by :: "string option"
  py_reversal_reason :: "string option"

record payment_allocation_row =
  al_group :: string
  al_payment :: string
  al_period :: string
  al_amount :: int

record adjustment_row =
  aj_group :: string
  aj_membership :: string
  aj_source :: string
  aj_target :: string
  aj_amount :: int

record ledger_row =
  le_id :: string
  le_group :: string
  le_period :: "string option"
  le_membership :: "string option"
  le_category :: "string option"
  le_booking :: "string option"
  le_payment :: "string option"
  le_external_account :: "string option"
  le_external_transaction :: "string option"
  le_reversal_of :: "string option"
  le_account :: string
  le_amount :: int
  le_description :: string
  le_created_at :: string

record statement_row =
  sm_id :: string
  sm_group :: string
  sm_period :: string
  sm_membership :: string
  sm_display_name :: string
  sm_email :: "string option"
  sm_charges :: int
  sm_paid :: int
  sm_applied :: int
  sm_provided :: int
  sm_due :: int
  sm_status :: string
  sm_created_at :: string

record idempotency_row =
  ir_group :: string
  ir_user :: string
  ir_key :: string
  ir_hash :: string
  ir_status_code :: int
  ir_response :: response
  ir_created_at :: string

text \<open>The structured context of a notification (\<open>notifications.EventContext\<close>).\<close>

record event_context =
  ActorName :: string
  ItemName :: string
  Quantity :: int
  AmountMinor :: int
  Currency :: string
  PeriodLabel :: string
  DueAt :: string
  PlanningEventID :: string
  PlanningEventTitle :: string
  PlanningSeriesID :: string
  PlanningSeriesTitle :: string
  PlanningStartsAt :: string
  PlanningStatus :: string

definition no_context :: event_context where
  "no_context = \<lparr>ActorName = [], ItemName = [], Quantity = 0, AmountMinor = 0, Currency = [], PeriodLabel = [],
     DueAt = [], PlanningEventID = [], PlanningEventTitle = [], PlanningSeriesID = [], PlanningSeriesTitle = [],
     PlanningStartsAt = [], PlanningStatus = []\<rparr>"

record notification_row =
  nt_id :: string
  nt_group :: string
  nt_membership :: string
  nt_type :: string
  nt_title :: string
  nt_body :: string
  nt_resource_type :: "string option"
  nt_resource_id :: "string option"
  nt_context :: event_context
  nt_read_at :: "string option"
  nt_created_at :: string

record channel_row =
  nc_group :: string
  nc_membership :: string
  nc_event :: string
  nc_channel :: string

record preference_settings_row =
  ns_group :: string
  ns_membership :: string
  ns_version :: int

record subscription_row =
  sb_id :: string
  sb_user :: string
  sb_key :: string
  sb_revoked_at :: "string option"

record job_row =
  jb_id :: string
  jb_notification :: string
  jb_group :: string
  jb_channel :: string
  jb_membership :: "string option"
  jb_subscription :: "string option"
  jb_status :: string
  jb_next_attempt_at :: "string option"
  jb_expires_at :: "string option"
  jb_created_at :: string

datatype audit_value = AText string | ANumber int | AFlag bool

record audit_row =
  ev_id :: string
  ev_group :: "string option"
  ev_user :: "string option"
  ev_membership :: "string option"
  ev_action :: string
  ev_resource_type :: string
  ev_resource :: "string option"
  ev_metadata :: "(string \<times> audit_value) list"
  ev_occurred_at :: string

record payment_method_row =
  pm_group :: string
  pm_id :: string
  pm_label :: string
  pm_sort_order :: int
  pm_attachment_mode :: string
  pm_external_account :: "string option"

record attachment_row =
  ar_payment :: string
  ar_group :: string
  ar_storage_key :: string
  ar_filename :: string
  ar_media_type :: string
  ar_size :: int
  ar_sha256 :: string
  ar_created_by :: string

record external_account_row =
  xa_id :: string
  xa_group :: string
  xa_name :: string
  xa_type :: string
  xa_status :: string
  xa_sort_order :: int
  xa_paypal :: "string option"
  xa_recipient :: "string option"
  xa_iban :: "string option"
  xa_bic :: "string option"
  xa_version :: int
  xa_deleted_at :: "string option"
  xa_created_at :: string
  xa_updated_at :: string

record external_transaction_row =
  xr_id :: string
  xr_group :: string
  xr_kind :: string
  xr_primary :: string
  xr_counterparty :: "string option"
  xr_payment :: "string option"
  xr_amount :: int
  xr_booked_at :: string
  xr_reason :: "string option"
  xr_reference :: "string option"
  xr_note :: "string option"
  xr_reversal_of :: "string option"
  xr_correction_of :: "string option"
  xr_created_by :: string
  xr_created_at :: string

record transaction_attachment_row =
  xm_transaction :: string
  xm_group :: string
  xm_storage_key :: string
  xm_filename :: string
  xm_media_type :: string
  xm_size :: int
  xm_sha256 :: string
  xm_created_by :: string

section \<open>The database\<close>

record db =
  groups :: "group_row list"
  users :: "user_row list"
  memberships :: "membership_row list"
  assignments :: "assignment_row list"
  grants :: "grant_row list"
  settings :: "settings_row list"
  periods :: "period_row list"
  categories :: "category_row list"
  products :: "product_row list"
  bookings :: "booking_row list"
  payments :: "payment_row list"
  payment_allocations :: "payment_allocation_row list"
  adjustments :: "adjustment_row list"
  ledger :: "ledger_row list"
  statements :: "statement_row list"
  idempotency :: "idempotency_row list"
  notifications :: "notification_row list"
  channels :: "channel_row list"
  preference_settings :: "preference_settings_row list"
  subscriptions :: "subscription_row list"
  jobs :: "job_row list"
  audit :: "audit_row list"
  payment_methods :: "payment_method_row list"
  attachments :: "attachment_row list"
  external_accounts :: "external_account_row list"
  external_transactions :: "external_transaction_row list"
  transaction_attachments :: "transaction_attachment_row list"
  clock_reads :: nat
  random_reads :: nat

definition empty_db :: db where
  "empty_db = \<lparr>groups = [], users = [], memberships = [], assignments = [], grants = [], settings = [],
     periods = [], categories = [], products = [], bookings = [], payments = [],
     payment_allocations = [], adjustments = [], ledger = [], statements = [], idempotency = [],
     notifications = [], channels = [], preference_settings = [], subscriptions = [], jobs = [], audit = [], payment_methods = [], attachments = [], external_accounts = [],
     external_transactions = [], transaction_attachments = [], clock_reads = 0, random_reads = 0\<rparr>"

type_synonym 'a dbtx = "(db, 'a) tx"

section \<open>Transactions\<close>

text \<open>\<open>storage.WithTx\<close>: the body's database is committed when it returns normally and discarded when
  it fails.\<close>

definition WithTx :: "'a dbtx \<Rightarrow> db \<Rightarrow> 'a result \<times> db" where
  "WithTx body s = (case body s of Inl e \<Rightarrow> (Inl e, s) | Inr (x, s') \<Rightarrow> (Inr x, s'))"

lemma WithTx_error: "fst (WithTx body s) = Inl e \<Longrightarrow> snd (WithTx body s) = s"
  by (auto simp: WithTx_def split: sum.splits prod.splits)

lemma WithTx_preserves:
  "preserves P body \<Longrightarrow> P s \<Longrightarrow> P (snd (WithTx body s))"
  by (auto simp: WithTx_def valid_def split: sum.splits prod.splits)

section \<open>Clock, identifiers, audit\<close>

definition Now :: "env \<Rightarrow> int dbtx" where
  "Now env = (\<lambda>s. Inr (env_now env (clock_reads s), s\<lparr>clock_reads := Suc (clock_reads s)\<rparr>))"

lemmas Now_run [code] = fun_cong [OF Now_def]

definition NewID :: "env \<Rightarrow> string \<Rightarrow> string dbtx" where
  "NewID env prefix = (\<lambda>s. Inr (TrimSpace prefix @ ''_'' @ env_random env (random_reads s),
     s\<lparr>random_reads := Suc (random_reads s)\<rparr>))"

lemmas NewID_run [code] = fun_cong [OF NewID_def]

text \<open>\<open>INSERT INTO\<close>: the row is rejected when it violates a \<open>CHECK\<close> or a foreign key (\<open>ok\<close>) or
  collides with a stored row on a unique key.\<close>

definition insert_row ::
  "(db \<Rightarrow> 'r list) \<Rightarrow> (('r list \<Rightarrow> 'r list) \<Rightarrow> db \<Rightarrow> db) \<Rightarrow> string \<Rightarrow> (db \<Rightarrow> 'r \<Rightarrow> bool) \<Rightarrow> ('r \<Rightarrow> 'r \<Rightarrow> bool)
     \<Rightarrow> 'r \<Rightarrow> unit dbtx" where
  "insert_row table upd name ok clash row = (\<lambda>s.
     if \<not> ok s row \<or> (\<exists>r\<in>set (table s). clash r row) then Inl (ErrConstraint name)
     else Inr ((), upd (\<lambda>_. table s @ [row]) s))"

lemmas insert_row_run [code] = fun_cong [OF insert_row_def]

lemma insert_row_Inr:
  "insert_row table upd name ok clash row s = Inr r \<longleftrightarrow>
     ok s row \<and> (\<forall>x\<in>set (table s). \<not> clash x row) \<and> r = ((), upd (\<lambda>_. table s @ [row]) s)"
  by (auto simp: insert_row_def)

lemma preserves_insert_row:
  "(\<And>s. P s \<Longrightarrow> ok s row \<Longrightarrow> (\<forall>x\<in>set (table s). \<not> clash x row) \<Longrightarrow> P (upd (\<lambda>_. table s @ [row]) s))
   \<Longrightarrow> preserves P (insert_row table upd name ok clash row)"
  by (rule validI) (auto simp: insert_row_Inr)

subsection \<open>Tables\<close>

text \<open>A table of the database is a field that can be read and replaced; the laws are those of record
  fields. The lemmas give the effect of a sequence of inserts and when it succeeds.\<close>

locale table =
  fixes get :: "db \<Rightarrow> 'r list" and upd :: "('r list \<Rightarrow> 'r list) \<Rightarrow> db \<Rightarrow> db"
  assumes get_upd: "get (upd f s) = f (get s)"
    and upd_upd: "upd f (upd g s) = upd (\<lambda>x. f (g x)) s"
    and upd_get: "upd (\<lambda>_. get s) s = s"
begin

lemma each_insert_Inr:
  "each_tx (\<lambda>r. insert_row get upd name ok clash (mk r)) rows s = Inr ((), s') \<Longrightarrow>
     s' = upd (\<lambda>_. get s @ map mk rows) s"
proof (induction rows arbitrary: s)
  case (Cons r rows)
  then show ?case
    by (auto simp: bind_eq_Inr insert_row_Inr get_upd upd_upd dest!: Cons.IH)
qed (simp add: upd_get)

lemma each_insert_succeeds:
  assumes "\<And>s r. r \<in> set rows \<Longrightarrow> ok s (mk r)"
    "\<And>r x. r \<in> set rows \<Longrightarrow> x \<in> set (get s) \<Longrightarrow> \<not> clash x (mk r)"
    "sorted_wrt (\<lambda>r r'. \<not> clash (mk r) (mk r')) rows"
  shows "each_tx (\<lambda>r. insert_row get upd name ok clash (mk r)) rows s = Inr ((), upd (\<lambda>_. get s @ map mk rows) s)"
  using assms
proof (induction rows arbitrary: s)
  case (Cons r rows)
  let ?s1 = "upd (\<lambda>_. get s @ [mk r]) s"
  have "insert_row get upd name ok clash (mk r) s = Inr ((), ?s1)"
    using Cons.prems by (auto simp: insert_row_Inr)
  moreover have "each_tx (\<lambda>r. insert_row get upd name ok clash (mk r)) rows ?s1
      = Inr ((), upd (\<lambda>_. get ?s1 @ map mk rows) ?s1)"
    using Cons.prems by (intro Cons.IH) (auto simp: get_upd)
  ultimately show ?case by (simp add: get_upd upd_upd)
qed (simp add: upd_get)

end

interpretation adjustments: table adjustments adjustments_update
  by unfold_locales simp_all

interpretation payment_allocations: table payment_allocations payment_allocations_update
  by unfold_locales simp_all

interpretation ledger: table ledger ledger_update
  by unfold_locales simp_all

definition insert_audit :: "audit_row \<Rightarrow> unit dbtx" where
  "insert_audit = insert_row audit audit_update ''audit_events'' (\<lambda>_ _. True) (\<lambda>x r. ev_id x = ev_id r)"

definition Record ::
  "env \<Rightarrow> string \<Rightarrow> string \<Rightarrow> string \<Rightarrow> string \<Rightarrow> string \<Rightarrow> string \<Rightarrow> (string \<times> audit_value) list \<Rightarrow> unit dbtx" where
  "Record env groupID actorUserID actorMembershipID action resourceType resourceID metadata =
    tx_bind (NewID env ''aud'') (\<lambda>id.
    tx_bind (Now env) (\<lambda>now.
    insert_audit \<lparr>ev_id = id, ev_group = nullable groupID, ev_user = nullable actorUserID,
      ev_membership = nullable actorMembershipID, ev_action = action, ev_resource_type = resourceType,
      ev_resource = nullable resourceID, ev_metadata = metadata, ev_occurred_at = Timestamp now\<rparr>))"

lemmas Record_run [code] = fun_cong [OF Record_def]

section \<open>Idempotency\<close>

definition ValidateKey :: "string \<Rightarrow> unit result" where
  "ValidateKey key =
    (if length key < 8 \<or> length key > 200
     then Inl (ValidationError ''Idempotency-Key'' ''must contain 8 to 200 characters'')
     else Inr ())"

definition Hash :: "env \<Rightarrow> request \<Rightarrow> string" where
  "Hash env value = env_hash env value"

definition Load :: "string \<Rightarrow> string \<Rightarrow> string \<Rightarrow> string \<Rightarrow> response option dbtx" where
  "Load groupID userID key requestHash = (\<lambda>s.
     case first_row (\<lambda>r. ir_group r = groupID \<and> ir_user r = userID \<and> ir_key r = key) (idempotency s) of
       None \<Rightarrow> Inr (None, s)
     | Some r \<Rightarrow> if ir_hash r \<noteq> requestHash then Inl ErrIdempotencyReuse else Inr (Some (ir_response r), s))"

lemmas Load_run [code] = fun_cong [OF Load_def]

definition insert_idempotency :: "idempotency_row \<Rightarrow> unit dbtx" where
  "insert_idempotency = insert_row idempotency idempotency_update ''idempotency_results'' (\<lambda>_ _. True)
     (\<lambda>x r. ir_group x = ir_group r \<and> ir_user x = ir_user r \<and> ir_key x = ir_key r)"

definition Store :: "env \<Rightarrow> string \<Rightarrow> string \<Rightarrow> string \<Rightarrow> string \<Rightarrow> int \<Rightarrow> response \<Rightarrow> unit dbtx" where
  "Store env groupID userID key requestHash statusCode value =
    tx_bind (Now env) (\<lambda>now.
    insert_idempotency \<lparr>ir_group = groupID, ir_user = userID, ir_key = key, ir_hash = requestHash,
      ir_status_code = statusCode, ir_response = value, ir_created_at = Timestamp now\<rparr>)"

lemmas Store_run [code] = fun_cong [OF Store_def]

text \<open>The response that a stored result of another command would fail to decode into.\<close>

definition decode_error :: error where
  "decode_error = ErrInternal ''json: cannot unmarshal stored response''"

subsection \<open>The idempotency contract\<close>

text \<open>What a client of the store relies on: after storing under a free key, loading with the same
  request digest returns the stored response and with another digest is rejected.\<close>

locale idempotent_store =
  fixes load :: "'k \<Rightarrow> 'h \<Rightarrow> ('s, 'v option) tx"
    and store :: "'k \<Rightarrow> 'h \<Rightarrow> 'v \<Rightarrow> ('s, unit) tx"
  assumes load_reads: "load k h s = Inr (found, s') \<Longrightarrow> s' = s"
    and load_stored: "store k h v s1 = Inr (u, s2) \<Longrightarrow> load k h s1 = Inr (None, s1) \<Longrightarrow>
          load k h s2 = Inr (Some v, s2)"
    and load_reuse: "load k h s2 = Inr (Some v, s2) \<Longrightarrow> h' \<noteq> h \<Longrightarrow> load k h' s2 = Inl ErrIdempotencyReuse"
begin

text \<open>The shape of every idempotent command: replay a stored response, otherwise run the body and
  store its result.\<close>

definition command :: "'k \<Rightarrow> 'h \<Rightarrow> ('v \<Rightarrow> ('s, 'v) tx) \<Rightarrow> ('s, 'v) tx \<Rightarrow> ('s, 'v) tx" where
  "command k h replay body =
    tx_bind (load k h) (\<lambda>found. case found of Some v \<Rightarrow> replay v
      | None \<Rightarrow> tx_bind body (\<lambda>v. tx_bind (store k h v) (\<lambda>_. ret v)))"

lemma command_replays:
  assumes "load k h s = Inr (Some v, s)"
  shows "command k h replay body s = replay v s"
  using assms by (simp add: command_def)

lemma command_rejects:
  assumes "load k h s = Inr (Some v, s)" "h' \<noteq> h"
  shows "command k h' replay body s = Inl ErrIdempotencyReuse"
  using load_reuse [OF assms] by (simp add: command_def)

lemma command_twice:
  assumes first: "command k h replay body s = Inr (v, s')" and new: "load k h s = Inr (None, s)"
    and frame: "\<And>v s1. body s = Inr (v, s1) \<Longrightarrow> load k h s1 = Inr (None, s1)"
  shows "command k h replay body' s' = replay v s'"
proof -
  obtain s1 u where "body s = Inr (v, s1)" "store k h v s1 = Inr (u, s')"
    using first new by (auto simp: command_def bind_eq_Inr)
  then have "load k h s' = Inr (Some v, s')" using load_stored frame by blast
  then show ?thesis by (rule command_replays)
qed

end

lemma Load_None:
  "Load g u k h s = Inr (None, s') \<longleftrightarrow>
     (\<forall>r\<in>set (idempotency s). \<not> (ir_group r = g \<and> ir_user r = u \<and> ir_key r = k)) \<and> s' = s"
  unfolding first_row_None [symmetric] by (auto simp: Load_def split: option.splits)

lemma Load_state: "Load g u k h s = Inr (v, s') \<Longrightarrow> s' = s"
  by (auto simp: Load_def split: option.splits if_splits)

text \<open>The model's store, keyed by group, user and client key.\<close>

interpretation idem: idempotent_store
  "\<lambda>(g, u, k). Load g u k" "\<lambda>(g, u, k) h v. Store env g u k h code v" for env code
proof (unfold_locales; clarify)
  fix g u k h s v s'
  show "Load g u k h s = Inr (v, s') \<Longrightarrow> s' = s" by (rule Load_state)
next
  fix g u k h s v s1 r s2
  assume "Store env g u k h code v s1 = Inr (r, s2)" and new: "Load g u k h s1 = Inr (None, s1)"
  then have "first_row (\<lambda>r. ir_group r = g \<and> ir_user r = u \<and> ir_key r = k) (idempotency s1) = None"
    unfolding first_row_None by (simp add: Load_None)
  then show "Load g u k h s2 = Inr (Some v, s2)"
    using \<open>Store env g u k h code v s1 = Inr (r, s2)\<close>
    by (auto simp: Store_def Now_def insert_idempotency_def insert_row_Inr bind_eq_Inr Load_def first_row_append)
next
  fix g u k h s2 v h'
  assume "Load g u k h s2 = Inr (Some v, s2)" "h' \<noteq> h"
  then show "Load g u k h' s2 = Inl ErrIdempotencyReuse"
    by (auto simp: Load_def split: option.splits if_splits)
qed

section \<open>Frame rules\<close>

lemma preserves_Now [pres_intros]: "(\<And>s n. P s \<Longrightarrow> P (s\<lparr>clock_reads := n\<rparr>)) \<Longrightarrow> preserves P (Now env)"
  by (rule validI) (auto simp: Now_def)

lemma preserves_NewID [pres_intros]:
  "(\<And>s n. P s \<Longrightarrow> P (s\<lparr>random_reads := n\<rparr>)) \<Longrightarrow> preserves P (NewID env prefix)"
  by (rule validI) (auto simp: NewID_def)

lemma preserves_Record [pres_intros]:
  "(\<And>s n. P s \<Longrightarrow> P (s\<lparr>clock_reads := n\<rparr>)) \<Longrightarrow> (\<And>s n. P s \<Longrightarrow> P (s\<lparr>random_reads := n\<rparr>)) \<Longrightarrow>
   (\<And>s rs. P s \<Longrightarrow> P (s\<lparr>audit := rs\<rparr>)) \<Longrightarrow> preserves P (Record env g u m a t i md)"
  unfolding Record_def insert_audit_def
  by (intro pres_intros preserves_insert_row) auto

lemma preserves_Load [pres_intros]: "preserves P (Load g u k h)"
  by (rule validI) (auto dest: Load_state)

lemma preserves_Store [pres_intros]:
  "(\<And>s n. P s \<Longrightarrow> P (s\<lparr>clock_reads := n\<rparr>)) \<Longrightarrow> (\<And>s rs. P s \<Longrightarrow> P (s\<lparr>idempotency := rs\<rparr>)) \<Longrightarrow>
   preserves P (Store env g u k h c v)"
  unfolding Store_def insert_idempotency_def
  by (intro pres_intros preserves_insert_row) auto

end
