(* ===== verification/Authorization.thy ===== *)
theory Authorization
  imports Database
begin

text \<open>
  \<open>internal/authorization/policy.go\<close>: the permission catalogue with its implications, the
  expansion of a set of permissions, the effective grants of a membership computed from the role
  tables, and the decision functions \<open>Can\<close> and \<open>Require\<close> that every service calls. The lemmas
  characterise the expansion as the transitive closure of the implications and the decision as
  the existence of a role grant of an active membership in an active group.
\<close>

section \<open>The catalogue\<close>

text \<open>Key and implied permissions of \<open>permissionDefinitions\<close>, in catalogue order (the description
  texts are presentation only).\<close>

definition permissionDefinitions :: "(string \<times> string list) list" where
  "permissionDefinitions =
    [(''GROUP_ADMINISTRATION'', []),
     (''MEMBER_MANAGEMENT'', [''VIEW_MEMBER_DIRECTORY'']),
     (''ROLE_MANAGEMENT'', []),
     (''FINANCE_MANAGEMENT'', [''MANAGE_EXTERNAL_ACCOUNTS'']),
     (''VIEW_EXTERNAL_ACCOUNTS'', []),
     (''MANAGE_EXTERNAL_ACCOUNTS'', [''VIEW_EXTERNAL_ACCOUNTS'']),
     (''CATALOG_MANAGEMENT'', []),
     (''VIEW_MEMBER_DIRECTORY'', []),
     (''VIEW_STATISTICS'', []),
     (''VIEW_ALL_BOOKING_ACTIVITY'', []),
     (''RECORD_OWN_PAYMENT'', []),
     (''CREATE_OWN_BOOKING'', []),
     (''VOID_OWN_BOOKING'', []),
     (''VOID_ANY_BOOKING'', [''VOID_OWN_BOOKING'', ''VIEW_ALL_BOOKING_ACTIVITY'']),
     (''BOOK_FOR_OTHERS'', [''VIEW_MEMBER_DIRECTORY'']),
     (''BOOK_FOR_GUESTS'', []),
     (''USE_PLANNING'', []),
     (''CREATE_PLANNING_EVENTS'', [''USE_PLANNING'']),
     (''VIEW_PLANNING_PARTICIPANTS'', [''USE_PLANNING'']),
     (''MANAGE_PLANNING_EVENTS'', [''USE_PLANNING'', ''CREATE_PLANNING_EVENTS'', ''VIEW_PLANNING_PARTICIPANTS'']),
     (''USE_KIOSK'', [])]"

fun index_of :: "nat \<Rightarrow> 'a \<Rightarrow> 'a list \<Rightarrow> nat option" where
  "index_of i x [] = None"
| "index_of i x (y # ys) = (if x = y then Some i else index_of (Suc i) x ys)"

definition permissionOrder :: "string \<Rightarrow> nat option" where
  "permissionOrder p = index_of 0 p (map fst permissionDefinitions)"

definition implications :: "string \<Rightarrow> string list" where
  "implications p = (case map_of permissionDefinitions p of None \<Rightarrow> [] | Some qs \<Rightarrow> qs)"

definition IsKnownPermission :: "string \<Rightarrow> bool" where
  "IsKnownPermission permission = (permissionOrder permission \<noteq> None)"

section \<open>Expansion\<close>

definition catalogue :: "string set" where
  "catalogue = set (map fst permissionDefinitions)"

lemma implications_known: "q \<in> set (implications p) \<Longrightarrow> q \<in> catalogue"
proof -
  assume q: "q \<in> set (implications p)"
  then obtain qs where m: "map_of permissionDefinitions p = Some qs" and "q \<in> set qs"
    by (cases "map_of permissionDefinitions p") (auto simp: implications_def)
  then have "(p, qs) \<in> set permissionDefinitions" by (simp add: map_of_SomeD)
  moreover have "\<forall>(p, qs)\<in>set permissionDefinitions. \<forall>q\<in>set qs. q \<in> set (map fst permissionDefinitions)"
    by code_simp
  ultimately show ?thesis using \<open>q \<in> set qs\<close> unfolding catalogue_def by blast
qed

text \<open>The work list of \<open>ExpandPermissions\<close>: \<open>effective\<close> holds the keys of the result map.\<close>

function expand_loop :: "string list \<Rightarrow> string list \<Rightarrow> string list" where
  "expand_loop effective [] = effective"
| "expand_loop effective (permission # queue) =
    (if permission \<in> set effective then expand_loop effective queue
     else expand_loop (effective @ [permission]) (queue @ implications permission))"
  by pat_completeness auto

termination
proof (relation "measures [\<lambda>(e, q). card ((set q \<union> catalogue) - set e), \<lambda>(e, q). length q]")
  fix effective queue :: "string list" and permission :: string
  assume "permission \<in> set effective"
  then have "(set (permission # queue) \<union> catalogue) - set effective = (set queue \<union> catalogue) - set effective"
    by auto
  then show "((effective, queue), effective, permission # queue)
      \<in> measures [\<lambda>(e, q). card ((set q \<union> catalogue) - set e), \<lambda>(e, q). length q]"
    by (simp add: measures_less)
next
  fix effective queue :: "string list" and permission :: string
  assume p: "permission \<notin> set effective"
  let ?new = "(set (queue @ implications permission) \<union> catalogue) - set (effective @ [permission])"
  let ?old = "(set (permission # queue) \<union> catalogue) - set effective"
  have "?new \<subseteq> ?old - {permission}" using implications_known by auto
  moreover have "finite ?old" "permission \<in> ?old" using p by (auto simp: catalogue_def)
  ultimately have "card ?new < card ?old"
    by (meson card_Diff1_less card_mono finite_Diff order_le_less_trans)
  then show "((effective @ [permission], queue @ implications permission), effective, permission # queue)
      \<in> measures [\<lambda>(e, q). card ((set q \<union> catalogue) - set e), \<lambda>(e, q). length q]"
    by simp
qed simp

text \<open>The comparison of \<open>sort.Slice\<close>: known keys in catalogue order, then unknown keys by name.\<close>

definition permission_rank :: "string \<Rightarrow> bool \<times> nat \<times> string" where
  "permission_rank p =
    (case permissionOrder p of Some i \<Rightarrow> (False, i, []) | None \<Rightarrow> (True, 0, p))"

definition ExpandPermissions :: "string list \<Rightarrow> string list" where
  "ExpandPermissions permissions = sort_key permission_rank (expand_loop [] permissions)"

subsection \<open>The closure\<close>

definition implies :: "(string \<times> string) set" where
  "implies = {(p, q). q \<in> set (implications p)}"

definition closure :: "string set \<Rightarrow> string set" where
  "closure P = {q. \<exists>p\<in>P. (p, q) \<in> implies\<^sup>*}"

lemma closure_insert: "closure (insert p P) = insert p (closure (P \<union> set (implications p)))"
proof -
  have "(p, q) \<in> implies\<^sup>* \<longleftrightarrow> q = p \<or> (\<exists>r\<in>set (implications p). (r, q) \<in> implies\<^sup>*)" for q
    by (auto simp: implies_def elim: converse_rtranclE intro: converse_rtrancl_into_rtrancl)
  then show ?thesis by (auto simp: closure_def)
qed

lemma expand_loop_set:
  assumes "\<And>p q. p \<in> set e \<Longrightarrow> q \<in> set (implications p) \<Longrightarrow> q \<in> set e \<union> set qs"
  shows "set (expand_loop e qs) = set e \<union> closure (set qs)"
  using assms
proof (induction e qs rule: expand_loop.induct)
  case (1 e)
  then show ?case by (simp add: closure_def)
next
  case (2 e p qs)
  show ?case
  proof (cases "p \<in> set e")
    case True
    have "set (expand_loop e qs) = set e \<union> closure (set qs)"
      using 2(1) [OF True] 2(3) True by auto
    moreover have "closure (set (p # qs)) \<subseteq> set e \<union> closure (set qs)"
    proof
      fix q assume "q \<in> closure (set (p # qs))"
      then obtain r where r: "r \<in> set (p # qs)" "(r, q) \<in> implies\<^sup>*" by (auto simp: closure_def)
      from r(2) have "r \<in> set e \<union> closure (set qs) \<Longrightarrow> q \<in> set e \<union> closure (set qs)"
      proof (induction rule: rtrancl_induct)
        case (step y z)
        then have "y \<in> set e \<or> y \<in> closure (set qs)" by blast
        moreover have "y \<in> closure (set qs) \<Longrightarrow> z \<in> closure (set qs)"
          using step(2) unfolding closure_def by (blast intro: rtrancl_into_rtrancl)
        moreover have "y \<in> set e \<Longrightarrow> z \<in> set e \<or> z \<in> set qs"
          using step(2) 2(3) [of y z] True by (auto simp: implies_def)
        moreover have "z \<in> set qs \<Longrightarrow> z \<in> closure (set qs)" by (auto simp: closure_def)
        ultimately show ?case by blast
      qed simp
      moreover have "r \<in> set e \<union> closure (set qs)" using r(1) True by (auto simp: closure_def)
      ultimately show "q \<in> set e \<union> closure (set qs)" by blast
    qed
    moreover have "closure (set qs) \<subseteq> closure (set (p # qs))" by (auto simp: closure_def)
    ultimately show ?thesis using True by auto
  next
    case False
    have "set (expand_loop (e @ [p]) (qs @ implications p)) = set (e @ [p]) \<union> closure (set (qs @ implications p))"
      using 2(3) by (intro 2(2) [OF False]) auto
    then show ?thesis using False closure_insert [of p "set qs"] by simp
  qed
qed

lemma expand_loop_distinct: "distinct e \<Longrightarrow> distinct (expand_loop e qs)"
  by (induction e qs rule: expand_loop.induct) auto

lemma set_ExpandPermissions: "set (ExpandPermissions ps) = closure (set ps)"
  using expand_loop_set [of "[]" ps] by (simp add: ExpandPermissions_def)

lemma distinct_ExpandPermissions: "distinct (ExpandPermissions ps)"
  by (simp add: ExpandPermissions_def expand_loop_distinct)

lemma index_of_inj: "index_of i x ys = Some k \<Longrightarrow> index_of i y ys = Some k \<Longrightarrow> x = y"
proof (induction ys arbitrary: i)
  case (Cons z ys)
  have "index_of j w ys = Some k \<Longrightarrow> j \<le> k" for j w
    by (induction ys arbitrary: j) (auto split: if_splits dest: Suc_leD)
  then show ?case using Cons by (fastforce split: if_splits)
qed simp

lemma permission_rank_inj: "permission_rank p = permission_rank q \<Longrightarrow> p = q"
  by (auto simp: permission_rank_def permissionOrder_def split: option.splits dest: index_of_inj)

text \<open>Sorting by an injective rank depends only on the set of keys.\<close>

lemma sort_rank_unique:
  assumes "distinct xs" "distinct ys" "set xs = set ys"
  shows "sort_key permission_rank xs = sort_key permission_rank ys"
proof -
  have inj: "inj_on permission_rank A" for A using permission_rank_inj by (auto intro: inj_onI)
  have "map permission_rank (sort_key permission_rank xs) = map permission_rank (sort_key permission_rank ys)"
    using assms inj by (intro sorted_distinct_set_unique) (auto simp: distinct_map)
  then show ?thesis using inj by (rule map_inj_on)
qed

lemma closure_idem: "closure (closure P) = closure P"
  unfolding closure_def by (auto intro: rtrancl_trans)

lemma closure_mono: "P \<subseteq> Q \<Longrightarrow> closure P \<subseteq> closure Q"
  by (auto simp: closure_def)

lemma ExpandPermissions_cong:
  "closure (set ps) = closure (set qs) \<Longrightarrow> ExpandPermissions ps = ExpandPermissions qs"
  using expand_loop_set [of "[]" ps] expand_loop_set [of "[]" qs]
  unfolding ExpandPermissions_def by (intro sort_rank_unique) (simp_all add: expand_loop_distinct)

section \<open>Grants\<close>

record scope =
  sc_Type :: string
  sc_CategoryID :: string
  sc_ProductID :: string

record permission_grant =
  pg_Permission :: string
  pg_Scope :: scope

record resource_context =
  rc_GroupID :: string
  rc_CategoryID :: string
  rc_ProductID :: string

definition GroupResource :: "string \<Rightarrow> resource_context" where
  "GroupResource groupID = \<lparr>rc_GroupID = TrimSpace groupID, rc_CategoryID = [], rc_ProductID = []\<rparr>"

definition ValidateGrant :: "permission_grant \<Rightarrow> unit result" where
  "ValidateGrant grant =
    (if \<not> IsKnownPermission (pg_Permission grant)
     then Inl (ValidationError ''permission'' ''contains an unsupported permission'')
     else if sc_Type (pg_Scope grant) = ''GROUP'' then
       (if TrimSpace (sc_CategoryID (pg_Scope grant)) \<noteq> [] \<or> TrimSpace (sc_ProductID (pg_Scope grant)) \<noteq> []
        then Inl (ValidationError ''scope'' ''group scope cannot identify a category or product'')
        else Inr ())
     else if sc_Type (pg_Scope grant) = ''CATEGORY'' \<or> sc_Type (pg_Scope grant) = ''PRODUCT''
     then Inl (ValidationError ''scope.type'' ''category and product scopes are reserved for a future API version'')
     else Inl (ValidationError ''scope.type'' ''contains an unsupported permission scope''))"

text \<open>The rows of the join in \<open>EffectiveGrants\<close>, in the order of the query.\<close>

definition direct_grants :: "db \<Rightarrow> string \<Rightarrow> string \<Rightarrow> (string \<times> scope) list" where
  "direct_grants s groupID membershipID =
    map (\<lambda>g. (gt_permission g, \<lparr>sc_Type = gt_scope g, sc_CategoryID = coalesce_text (gt_category g),
           sc_ProductID = coalesce_text (gt_product g)\<rparr>))
      (sort_key (\<lambda>g. (gt_permission g, gt_scope g, gt_category g \<noteq> None, coalesce_text (gt_category g),
           gt_product g \<noteq> None, coalesce_text (gt_product g)))
      [g. m \<leftarrow> memberships s, tenant \<leftarrow> groups s, a \<leftarrow> assignments s, g \<leftarrow> grants s,
        gr_id tenant = ms_group m \<and> gr_status tenant = ''ACTIVE'' \<and>
        as_group a = ms_group m \<and> as_membership a = ms_id m \<and>
        gt_group g = as_group a \<and> gt_role g = as_role a \<and>
        ms_group m = groupID \<and> ms_id m = membershipID \<and> ms_status m = ''ACTIVE''])"

text \<open>The comparison that orders effective grants; unknown permissions have order 0.\<close>

definition grant_rank :: "permission_grant \<Rightarrow> bool \<times> nat \<times> string \<times> string \<times> string" where
  "grant_rank g =
    (permissionOrder (pg_Permission g) = None,
     (case permissionOrder (pg_Permission g) of None \<Rightarrow> 0 | Some i \<Rightarrow> i),
     sc_Type (pg_Scope g), sc_CategoryID (pg_Scope g), sc_ProductID (pg_Scope g))"

definition expanded_grants :: "(string \<times> scope) list \<Rightarrow> permission_grant list" where
  "expanded_grants rows =
    concat (map (\<lambda>identity. map (\<lambda>permission. \<lparr>pg_Permission = permission, pg_Scope = identity\<rparr>)
        (ExpandPermissions (map fst (filter (\<lambda>r. snd r = identity) rows))))
      (remdups (map snd rows)))"

definition EffectiveGrants :: "db \<Rightarrow> string \<Rightarrow> string \<Rightarrow> permission_grant list result" where
  "EffectiveGrants s groupID membershipID =
    (let groupID = TrimSpace groupID; membershipID = TrimSpace membershipID in
     if groupID = [] then Inl (ValidationError ''groupId'' ''is required'')
     else if membershipID = [] then Inl (ValidationError ''membershipId'' ''is required'')
     else Inr (sort_key grant_rank (expanded_grants (direct_grants s groupID membershipID))))"

definition grant_covers :: "resource_context \<Rightarrow> permission_grant \<Rightarrow> bool" where
  "grant_covers resource g =
    (let scope = pg_Scope g in
     if sc_Type scope = ''GROUP'' then True
     else if sc_Type scope = ''CATEGORY''
     then sc_CategoryID scope \<noteq> [] \<and> sc_CategoryID scope = rc_CategoryID resource
     else if sc_Type scope = ''PRODUCT''
     then sc_ProductID scope \<noteq> [] \<and> sc_ProductID scope = rc_ProductID resource
     else False)"

definition Can :: "db \<Rightarrow> string \<Rightarrow> string \<Rightarrow> string \<Rightarrow> resource_context \<Rightarrow> bool result" where
  "Can s groupID membershipID permission resource =
    (let groupID = TrimSpace groupID; resourceGroup = TrimSpace (rc_GroupID resource) in
     if \<not> IsKnownPermission permission
     then Inl (ValidationError ''permission'' ''contains an unsupported permission'')
     else if resourceGroup = [] then Inl (ValidationError ''resource.groupId'' ''is required'')
     else if resourceGroup \<noteq> groupID then Inr False
     else (case EffectiveGrants s groupID membershipID of
             Inl e \<Rightarrow> Inl e
           | Inr gs \<Rightarrow> Inr (list_ex (\<lambda>g. pg_Permission g = permission \<and> grant_covers resource g) gs)))"

definition Require :: "string \<Rightarrow> string \<Rightarrow> string \<Rightarrow> resource_context \<Rightarrow> unit dbtx" where
  "Require groupID membershipID permission resource = (\<lambda>s.
     case Can s groupID membershipID permission resource of
       Inl e \<Rightarrow> Inl e
     | Inr allowed \<Rightarrow> if \<not> allowed then Inl ErrForbidden else Inr ((), s))"

lemmas Require_run [code] = fun_cong [OF Require_def]

text \<open>The \<open>requirePermission\<close> helper that the accounting services repeat: the permission on the
  membership's own group.\<close>

definition requirePermission :: "membership \<Rightarrow> string \<Rightarrow> unit dbtx" where
  "requirePermission m permission = (\<lambda>s.
     case Can s (m_GroupID m) (m_ID m) permission
            \<lparr>rc_GroupID = m_GroupID m, rc_CategoryID = [], rc_ProductID = []\<rparr> of
       Inl e \<Rightarrow> Inl e
     | Inr allowed \<Rightarrow> if \<not> allowed then Inl ErrForbidden else Inr ((), s))"

lemmas requirePermission_run [code] = fun_cong [OF requirePermission_def]

definition canPermission :: "membership \<Rightarrow> string \<Rightarrow> bool dbtx" where
  "canPermission m permission = (\<lambda>s.
     case Can s (m_GroupID m) (m_ID m) permission
            \<lparr>rc_GroupID = m_GroupID m, rc_CategoryID = [], rc_ProductID = []\<rparr> of
       Inl e \<Rightarrow> Inl e
     | Inr allowed \<Rightarrow> Inr (allowed, s))"

lemmas canPermission_run [code] = fun_cong [OF canPermission_def]

definition LegacyRoles :: "bool \<Rightarrow> permission_grant list \<Rightarrow> string list" where
  "LegacyRoles hasReservedAdministrator gs =
    (let permissions = map pg_Permission (filter (\<lambda>g. sc_Type (pg_Scope g) = ''GROUP'') gs) in
     (if hasReservedAdministrator then [''ADMIN''] else []) @
     (if ''CATALOG_MANAGEMENT'' \<in> set permissions then [''CATALOG_MANAGER''] else []) @
     (if ''FINANCE_MANAGEMENT'' \<in> set permissions then [''FINANCE_MANAGER''] else []))"

definition TemplateRoleID :: "string \<Rightarrow> string \<Rightarrow> string" where
  "TemplateRoleID groupID template = ''role:'' @ template @ '':'' @ TrimSpace groupID"

definition PresetRoleID :: "string \<Rightarrow> string \<Rightarrow> string" where
  "PresetRoleID groupID preset = ''role:'' @ preset @ '':'' @ TrimSpace groupID"

definition GuestRoleID :: "string \<Rightarrow> string" where
  "GuestRoleID groupID = TemplateRoleID groupID ''GUEST''"

section \<open>Decisions\<close>

text \<open>The membership holds, through one of its roles in its own group, a grant of \<open>q\<close>.\<close>

definition holds_grant :: "db \<Rightarrow> string \<Rightarrow> string \<Rightarrow> string \<Rightarrow> scope \<Rightarrow> bool" where
  "holds_grant s g m q sc \<longleftrightarrow>
    (\<exists>mr\<in>set (memberships s). ms_group mr = g \<and> ms_id mr = m \<and> ms_status mr = ''ACTIVE'') \<and>
    (\<exists>gr\<in>set (groups s). gr_id gr = g \<and> gr_status gr = ''ACTIVE'') \<and>
    (\<exists>a\<in>set (assignments s). as_group a = g \<and> as_membership a = m \<and>
      (\<exists>gt\<in>set (grants s). gt_group gt = g \<and> gt_role gt = as_role a \<and> gt_permission gt = q \<and>
         sc = \<lparr>sc_Type = gt_scope gt, sc_CategoryID = coalesce_text (gt_category gt),
                 sc_ProductID = coalesce_text (gt_product gt)\<rparr>))"

lemma direct_grants_iff: "(q, sc) \<in> set (direct_grants s g m) \<longleftrightarrow> holds_grant s g m q sc"
proof
  show "(q, sc) \<in> set (direct_grants s g m) \<Longrightarrow> holds_grant s g m q sc"
    unfolding direct_grants_def holds_grant_def by auto metis
  assume "holds_grant s g m q sc"
  then obtain mr gr a gt where "mr \<in> set (memberships s)" "ms_group mr = g" "ms_id mr = m" "ms_status mr = ''ACTIVE''"
    "gr \<in> set (groups s)" "gr_id gr = g" "gr_status gr = ''ACTIVE''" "a \<in> set (assignments s)"
    "as_group a = g" "as_membership a = m" "gt \<in> set (grants s)" "gt_group gt = g" "gt_role gt = as_role a"
    "gt_permission gt = q" "sc = \<lparr>sc_Type = gt_scope gt, sc_CategoryID = coalesce_text (gt_category gt),
                 sc_ProductID = coalesce_text (gt_product gt)\<rparr>"
    unfolding holds_grant_def by blast
  then show "(q, sc) \<in> set (direct_grants s g m)"
    unfolding direct_grants_def set_map set_sort by (intro image_eqI [of _ _ gt])
      (auto intro!: bexI [of _ mr] bexI [of _ gr] bexI [of _ a])
qed

lemma expanded_grants_iff:
  "\<lparr>pg_Permission = p, pg_Scope = sc\<rparr> \<in> set (expanded_grants rows) \<longleftrightarrow>
     (\<exists>q. (q, sc) \<in> set rows \<and> (q, p) \<in> implies\<^sup>*)"
  by (force simp: expanded_grants_def set_ExpandPermissions closure_def image_iff)

lemma Can_iff:
  "Can s g m p r = Inr True \<longleftrightarrow>
     IsKnownPermission p \<and> TrimSpace g \<noteq> [] \<and> TrimSpace (rc_GroupID r) = TrimSpace g \<and> TrimSpace m \<noteq> [] \<and>
     (\<exists>q sc. holds_grant s (TrimSpace g) (TrimSpace m) q sc \<and> (q, p) \<in> implies\<^sup>* \<and>
        grant_covers r \<lparr>pg_Permission = p, pg_Scope = sc\<rparr>)"
proof -
  let ?gs = "expanded_grants (direct_grants s (TrimSpace g) (TrimSpace m))"
  have "list_ex (\<lambda>x. pg_Permission x = p \<and> grant_covers r x) (sort_key grant_rank ?gs)
      \<longleftrightarrow> (\<exists>sc. \<lparr>pg_Permission = p, pg_Scope = sc\<rparr> \<in> set ?gs \<and> grant_covers r \<lparr>pg_Permission = p, pg_Scope = sc\<rparr>)"
    unfolding list_ex_iff set_sort
    by (metis permission_grant.select_convs permission_grant.surjective old.unit.exhaust)
  then show ?thesis
    by (auto simp: Can_def EffectiveGrants_def Let_def expanded_grants_iff direct_grants_iff)
qed

lemma preserves_requirePermission [pres_intros]: "preserves P (requirePermission m p)"
  by (rule validI) (auto simp: requirePermission_def split: sum.splits if_splits)

lemma preserves_canPermission [pres_intros]: "preserves P (canPermission m p)"
  by (rule validI) (auto simp: canPermission_def split: sum.splits if_splits)

lemma requirePermission_Inr:
  "requirePermission m p s = Inr r \<longleftrightarrow> r = ((), s) \<and>
     Can s (m_GroupID m) (m_ID m) p \<lparr>rc_GroupID = m_GroupID m, rc_CategoryID = [], rc_ProductID = []\<rparr> = Inr True"
  by (auto simp: requirePermission_def split: sum.splits if_splits)

lemma canPermission_state: "canPermission m p s = Inr (b, s') \<Longrightarrow> s' = s"
  by (auto simp: canPermission_def split: sum.splits)

section \<open>Properties\<close>

text \<open>C10. \<open>ExpandPermissions\<close> terminates on every input and returns, without repetition and in an
  order that depends only on the set of permissions, exactly the given permissions and everything
  they transitively imply; expanding again adds nothing.\<close>

theorem ExpandPermissions_closure:
  "set (ExpandPermissions ps) = {q. \<exists>p\<in>set ps. (p, q) \<in> implies\<^sup>*} \<and> distinct (ExpandPermissions ps) \<and>
   sorted (map permission_rank (ExpandPermissions ps)) \<and>
   ExpandPermissions (ExpandPermissions ps) = ExpandPermissions ps"
proof -
  have "closure (set (ExpandPermissions ps)) = closure (set ps)"
    by (simp add: set_ExpandPermissions closure_idem)
  then have "ExpandPermissions (ExpandPermissions ps) = ExpandPermissions ps"
    by (rule ExpandPermissions_cong)
  then show ?thesis
    using set_ExpandPermissions [of ps] distinct_ExpandPermissions [of ps]
    by (simp add: closure_def ExpandPermissions_def)
qed

text \<open>C9. Tenant isolation: a decision is positive exactly when the requested permission is known,
  the resource lies in the caller's own group, and an active membership of that active group holds,
  through a role of the same group, a grant that implies the permission and covers the
  resource.\<close>

theorem Can_sound_complete:
  "Can s g m p r = Inr True \<longleftrightarrow>
     IsKnownPermission p \<and> TrimSpace g \<noteq> [] \<and> TrimSpace (rc_GroupID r) = TrimSpace g \<and> TrimSpace m \<noteq> [] \<and>
     (\<exists>q sc. holds_grant s (TrimSpace g) (TrimSpace m) q sc \<and> (q, p) \<in> implies\<^sup>* \<and>
        grant_covers r \<lparr>pg_Permission = p, pg_Scope = sc\<rparr>)"
  by (rule Can_iff)

end
