(* ===== verification/Allocation.thy ===== *)
theory Allocation
  imports Database
begin

text \<open>
  \<open>internal/ledger/allocation.go\<close>: \<open>RebuildPaymentAllocations\<close> deletes the allocations of one member
  and distributes first the member's credit corrections and then the non-reversed payments over
  the open claims of the periods, oldest first. The two nested loops with their shared claim index
  are translated as written (\<open>fifo_inner\<close>, \<open>fifo_outer\<close>); \<open>fifo\<close> is the reference definition they are
  shown to implement, and the prefix lemmas say how much the first claims receive and the first
  sources give. The two properties speak of claims, payments and times only, not of the queries the code
  reads them with: what a member owes is summed from the ledger (\<open>claim_in\<close>), and which of two periods or
  payments comes first is a comparison of the two rows (\<open>earlier\<close>).
\<close>

type_synonym amounts = "(string \<times> int) list"

section \<open>The loops\<close>

text \<open>The inner loop for one source: the allocations it makes, the claim index and the claims it
  leaves behind.\<close>

function fifo_inner :: "int \<Rightarrow> nat \<Rightarrow> amounts \<Rightarrow> amounts \<times> nat \<times> amounts" where
  "fifo_inner remaining index claims =
    (if remaining > 0 \<and> index < length claims then
       (let (periodID, open_amount) = claims ! index in
        if open_amount \<le> 0 then fifo_inner remaining (Suc index) claims
        else
          (let applied = (if remaining > open_amount then open_amount else remaining);
               (rows, index', claims') =
                 fifo_inner (remaining - applied) index (claims[index := (periodID, open_amount - applied)])
           in ((periodID, applied) # rows, index', claims')))
     else ([], index, claims))"
  by pat_completeness auto
termination
  by (relation "measures [\<lambda>(r, i, cs). length cs - i, \<lambda>(r, i, cs). nat r]") (auto split: if_splits)

declare fifo_inner.simps [simp del]

fun fifo_outer :: "amounts \<Rightarrow> nat \<Rightarrow> amounts \<Rightarrow> (string \<times> string \<times> int) list \<times> amounts" where
  "fifo_outer [] index claims = ([], claims)"
| "fifo_outer ((source, remaining) # sources) index claims =
    (let (rows, index', claims') = fifo_inner remaining index claims;
         (rest, claims'') = fifo_outer sources index' claims'
     in (map (\<lambda>(target, amount). (source, target, amount)) rows @ rest, claims''))"

section \<open>Reading and writing the tables\<close>

text \<open>Net claim of every period of the group against the member, oldest period first.\<close>

definition period_claims :: "string \<Rightarrow> string \<Rightarrow> db \<Rightarrow> amounts" where
  "period_claims groupID membershipID s =
    map (\<lambda>p. (pe_id p, sum_list (map le_amount (filter (\<lambda>le. le_group le = pe_group p
           \<and> le_period le = Some (pe_id p) \<and> le_membership le = Some membershipID
           \<and> le_account le = ''MEMBER_RECEIVABLE'' \<and> le_payment le = None) (ledger s)))))
      (sort_key (\<lambda>p. (pe_starts_at p, pe_id p)) (filter (\<lambda>p. pe_group p = groupID) (periods s)))"

definition open_claims :: "amounts \<Rightarrow> amounts" where
  "open_claims rows = filter (\<lambda>(_, remaining). remaining > 0) rows"

definition credit_adjustments :: "amounts \<Rightarrow> amounts" where
  "credit_adjustments rows = map (\<lambda>(periodID, remaining). (periodID, - remaining))
     (filter (\<lambda>(_, remaining). remaining < 0) rows)"

definition allocatable_payments :: "string \<Rightarrow> string \<Rightarrow> db \<Rightarrow> amounts" where
  "allocatable_payments groupID membershipID s =
    map (\<lambda>p. (py_id p, py_amount p))
      (sort_key (\<lambda>p. (py_received_at p, py_id p))
        (filter (\<lambda>p. py_group p = groupID \<and> py_membership p = membershipID \<and> py_reversed_at p = None)
          (payments s)))"

definition insert_adjustment :: "adjustment_row \<Rightarrow> unit dbtx" where
  "insert_adjustment = insert_row adjustments adjustments_update ''period_adjustment_allocations''
     (\<lambda>_ r. aj_amount r > 0)
     (\<lambda>x r. aj_membership x = aj_membership r \<and> aj_source x = aj_source r \<and> aj_target x = aj_target r)"

definition insert_payment_allocation :: "payment_allocation_row \<Rightarrow> unit dbtx" where
  "insert_payment_allocation = insert_row payment_allocations payment_allocations_update
     ''payment_allocations'' (\<lambda>_ r. al_amount r > 0)
     (\<lambda>x r. al_payment x = al_payment r \<and> al_period x = al_period r)"

definition member_payment :: "string \<Rightarrow> string \<Rightarrow> db \<Rightarrow> string \<Rightarrow> bool" where
  "member_payment groupID membershipID s paymentID =
    list_ex (\<lambda>p. py_group p = groupID \<and> py_membership p = membershipID \<and> py_id p = paymentID) (payments s)"

definition clear_payment_allocations :: "string \<Rightarrow> string \<Rightarrow> unit dbtx" where
  "clear_payment_allocations groupID membershipID = modify (\<lambda>s. s\<lparr>payment_allocations :=
     filter (\<lambda>a. \<not> (al_group a = groupID \<and> member_payment groupID membershipID s (al_payment a)))
       (payment_allocations s)\<rparr>)"

definition clear_adjustments :: "string \<Rightarrow> string \<Rightarrow> unit dbtx" where
  "clear_adjustments groupID membershipID = modify (\<lambda>s. s\<lparr>adjustments :=
     filter (\<lambda>a. \<not> (aj_group a = groupID \<and> aj_membership a = membershipID)) (adjustments s)\<rparr>)"

text \<open>The inserts of a loop do not influence its later iterations, so they are listed first and
  then executed in order.\<close>

definition RebuildPaymentAllocations :: "string \<Rightarrow> string \<Rightarrow> unit dbtx" where
  "RebuildPaymentAllocations groupID membershipID =
    tx_bind (clear_payment_allocations groupID membershipID) (\<lambda>_.
    tx_bind (clear_adjustments groupID membershipID) (\<lambda>_.
    tx_bind (gets (period_claims groupID membershipID)) (\<lambda>rows.
    let claims = open_claims rows; credits = credit_adjustments rows;
        (applied, claims') = fifo_outer credits 0 claims in
    tx_bind (each_tx (\<lambda>(source, target, amount). insert_adjustment \<lparr>aj_group = groupID,
        aj_membership = membershipID, aj_source = source, aj_target = target, aj_amount = amount\<rparr>) applied) (\<lambda>_.
    tx_bind (gets (allocatable_payments groupID membershipID)) (\<lambda>available.
    let (paid, _) = fifo_outer available 0 claims' in
    each_tx (\<lambda>(payment, period, amount). insert_payment_allocation \<lparr>al_group = groupID,
        al_payment = payment, al_period = period, al_amount = amount\<rparr>) paid)))))"

lemmas RebuildPaymentAllocations_run [code] = fun_cong [OF RebuildPaymentAllocations_def]

section \<open>The reference definition\<close>

text \<open>First-in first-out distribution as a recursion on both lists.\<close>

function fifo :: "amounts \<Rightarrow> amounts \<Rightarrow> (string \<times> string \<times> int) list" where
  "fifo [] cs = []"
| "fifo (p # ss) [] = []"
| "fifo ((s, a) # ss) ((c, b) # cs) =
    (if a \<le> 0 then fifo ss ((c, b) # cs)
     else if b \<le> 0 then fifo ((s, a) # ss) cs
     else (s, c, min a b) # fifo ((s, a - min a b) # ss) ((c, b - min a b) # cs))"
  by pat_completeness auto
termination
  by (relation "measures [\<lambda>(ss, cs). length ss + length cs, \<lambda>(ss, cs). sum_list (map (nat \<circ> snd) ss)]") auto

text \<open>What is left of the claims.\<close>

function fifo_rest :: "amounts \<Rightarrow> amounts \<Rightarrow> amounts" where
  "fifo_rest [] cs = cs"
| "fifo_rest (p # ss) [] = []"
| "fifo_rest ((s, a) # ss) ((c, b) # cs) =
    (if a \<le> 0 then fifo_rest ss ((c, b) # cs)
     else if b \<le> 0 then (c, b) # fifo_rest ((s, a) # ss) cs
     else fifo_rest ((s, a - min a b) # ss) ((c, b - min a b) # cs))"
  by pat_completeness auto
termination
  by (relation "measures [\<lambda>(ss, cs). length ss + length cs, \<lambda>(ss, cs). sum_list (map (nat \<circ> snd) ss)]") auto

lemma fifo_Nil [simp]: "fifo ss [] = []" "fifo_rest ss [] = []"
  by (cases ss; simp)+

abbreviation tag_rows :: "string \<Rightarrow> amounts \<Rightarrow> (string \<times> string \<times> int) list" where
  "tag_rows source rows \<equiv> map (\<lambda>(target, amount). (source, target, amount)) rows"

text \<open>One run of the inner loop, seen from the claim index on.\<close>

lemma fifo_inner_fifo:
  assumes "fifo_inner a i cs = (rows, i', cs')" "i \<le> length cs"
  shows "i' \<le> length cs' \<and> take i cs' = take i cs \<and>
    fifo ((s, a) # ss) (drop i cs) = tag_rows s rows @ fifo ss (drop i' cs') \<and>
    drop i cs' @ [] = take (i' - i) (drop i cs') @ drop i' cs' \<and> i \<le> i' \<and>
    fifo_rest ((s, a) # ss) (drop i cs) = take (i' - i) (drop i cs') @ fifo_rest ss (drop i' cs')"
  using assms
proof (induction a i cs arbitrary: rows i' cs' rule: fifo_inner.induct)
  case (1 a i cs)
  show ?case
  proof (cases "a > 0 \<and> i < length cs")
    case False
    then have r: "rows = []" "i' = i" "cs' = cs" using 1(3) by (subst (asm) fifo_inner.simps; simp)+
    have "drop i cs = [] \<or> a \<le> 0" using False 1(4) by auto
    then show ?thesis using r 1(4) by (cases "drop i cs") auto
  next
    case True
    obtain c b where c: "cs ! i = (c, b)" by fastforce
    have d: "drop i cs = (c, b) # drop (Suc i) cs" using True c by (metis Cons_nth_drop_Suc)
    show ?thesis
    proof (cases "b \<le> 0")
      case b: True
      have "fifo_inner a (Suc i) cs = (rows, i', cs')"
        using 1(3) True b c by (subst (asm) fifo_inner.simps) simp
      from 1(1) [OF True refl _ b this] True c have IH: "i' \<le> length cs' \<and> take (Suc i) cs' = take (Suc i) cs \<and>
          fifo ((s, a) # ss) (drop (Suc i) cs) = tag_rows s rows @ fifo ss (drop i' cs') \<and> Suc i \<le> i' \<and>
          fifo_rest ((s, a) # ss) (drop (Suc i) cs) = take (i' - Suc i) (drop (Suc i) cs') @ fifo_rest ss (drop i' cs')"
        by simp
      have "i < length cs'" using IH by linarith
      moreover have "cs' ! i = (c, b)" using IH c True by (metis lessI nth_take)
      ultimately have d': "drop i cs' = (c, b) # drop (Suc i) cs'" by (metis Cons_nth_drop_Suc)
      have "take i cs' = take i cs" using IH by (metis le_add2 min_def plus_1_eq_Suc take_take)
      moreover have "take (i' - i) (drop i cs') = (c, b) # take (i' - Suc i) (drop (Suc i) cs')"
        using d' IH by (simp add: Suc_diff_Suc [symmetric] Suc_le_eq)
      moreover have "drop (i' - i) (drop i cs') = drop i' cs'" using IH by simp
      then have "drop i cs' = take (i' - i) (drop i cs') @ drop i' cs'" by (metis append_take_drop_id)
      ultimately show ?thesis using IH d True b by simp
    next
      case b: False
      define x where "x = (if a > b then b else a)"
      have x: "x = min a b" by (simp add: x_def min_def)
      obtain rows1 where rec: "fifo_inner (a - x) i (cs[i := (c, b - x)]) = (rows1, i', cs')"
        and rows: "rows = (c, x) # rows1"
        using 1(3) True b c unfolding x_def
        by (subst (asm) fifo_inner.simps) (auto simp: Let_def split: prod.splits if_splits)
      have IH: "i' \<le> length cs' \<and> take i cs' = take i (cs[i := (c, b - x)]) \<and>
          fifo ((s, a - x) # ss) (drop i (cs[i := (c, b - x)])) = tag_rows s rows1 @ fifo ss (drop i' cs') \<and>
          drop i cs' @ [] = take (i' - i) (drop i cs') @ drop i' cs' \<and> i \<le> i' \<and>
          fifo_rest ((s, a - x) # ss) (drop i (cs[i := (c, b - x)])) = take (i' - i) (drop i cs') @ fifo_rest ss (drop i' cs')"
        using 1(2) [OF True refl _ b, of c x] rec True c by (simp add: x_def)
      have "drop i (cs[i := (c, b - x)]) = (c, b - x) # drop (Suc i) cs"
        using True by (simp add: drop_update_swap d)
      then show ?thesis using IH rows d True b x by (simp add: take_update_cancel)
    qed
  qed
qed

text \<open>The loops implement the reference definition.\<close>

lemma fifo_outer_fifo:
  "i \<le> length cs \<Longrightarrow> fifo_outer ss i cs = (fifo ss (drop i cs), take i cs @ fifo_rest ss (drop i cs))"
proof (induction ss i cs rule: fifo_outer.induct)
  case (2 s a ss i cs)
  obtain rows i' cs' where r: "fifo_inner a i cs = (rows, i', cs')" by (metis prod_cases3)
  note inner = fifo_inner_fifo [OF r 2(2), of s ss]
  have "fifo_outer ss i' cs' = (fifo ss (drop i' cs'), take i' cs' @ fifo_rest ss (drop i' cs'))"
    using 2(1) [OF r [symmetric] refl] inner by simp
  moreover have "take i' cs' = take i cs @ take (i' - i) (drop i cs')"
    using inner by (metis le_add_diff_inverse take_add)
  ultimately show ?case using r inner by simp
qed simp

section \<open>Amounts\<close>

text \<open>The positive amount a list of claims or sources stands for.\<close>

definition total :: "amounts \<Rightarrow> int" where
  "total xs = sum_list (map (\<lambda>(_, a). max 0 a) xs)"

lemma total_simps [simp]:
  "total [] = 0" "total ((i, a) # xs) = max 0 a + total xs" "total (xs @ ys) = total xs + total ys"
  by (simp_all add: total_def)

lemma total_nonneg [simp]: "0 \<le> total xs"
  unfolding total_def by (rule sum_list_nonneg_int) auto

definition received :: "string set \<Rightarrow> (string \<times> string \<times> int) list \<Rightarrow> int" where
  "received targets rows = sum_list (map (\<lambda>(_, _, x). x) (filter (\<lambda>(_, c, _). c \<in> targets) rows))"

definition given :: "string set \<Rightarrow> (string \<times> string \<times> int) list \<Rightarrow> int" where
  "given sources rows = sum_list (map (\<lambda>(_, _, x). x) (filter (\<lambda>(s, _, _). s \<in> sources) rows))"

lemma received_simps [simp]:
  "received A [] = 0" "received A ((s, c, x) # rows) = (if c \<in> A then x else 0) + received A rows"
  "received {} rows = 0"
  by (simp_all add: received_def)

lemma given_simps [simp]:
  "given A [] = 0" "given A ((s, c, x) # rows) = (if s \<in> A then x else 0) + given A rows"
  "given {} rows = 0"
  by (simp_all add: given_def)

lemma fifo_rows: "(s, c, x) \<in> set (fifo ss cs) \<Longrightarrow>
    (\<exists>a. (s, a) \<in> set ss \<and> 0 < a) \<and> (\<exists>b. (c, b) \<in> set cs \<and> 0 < b) \<and> 0 < x"
proof (induction ss cs rule: fifo.induct)
  case (3 s' a ss c' b cs)
  show ?case
  proof (cases "a \<le> 0 \<or> b \<le> 0")
    case True
    then show ?thesis using 3 by (auto split: if_splits)
  next
    case False
    then have "(s, c, x) = (s', c', min a b) \<or> (s, c, x) \<in> set (fifo ((s', a - min a b) # ss) ((c', b - min a b) # cs))"
      using 3(4) by simp
    then show ?thesis
    proof
      assume "(s, c, x) \<in> set (fifo ((s', a - min a b) # ss) ((c', b - min a b) # cs))"
      from 3(3) [OF _ _ this] False show ?thesis by auto
    qed (use False in auto)
  qed
qed simp_all

lemma received_other: "c \<notin> fst ` set cs \<Longrightarrow> received (insert c A) (fifo ss cs) = received A (fifo ss cs)"
  unfolding received_def by (rule arg_cong [of _ _ sum_list], rule arg_cong [of _ _ "map _"], rule filter_cong)
    (force dest: fifo_rows)+

lemma given_other: "s \<notin> fst ` set ss \<Longrightarrow> given (insert s A) (fifo ss cs) = given A (fifo ss cs)"
  unfolding given_def by (rule arg_cong [of _ _ sum_list], rule arg_cong [of _ _ "map _"], rule filter_cong)
    (force dest: fifo_rows)+

lemma received_prefix:
  assumes "distinct (map fst cs)"
  shows "received (fst ` set (take k cs)) (fifo ss cs) = min (total ss) (total (take k cs))"
  using assms
proof (induction ss cs arbitrary: k rule: fifo.induct)
  case (3 s a ss c b cs)
  show ?case
  proof (cases k)
    case (Suc j)
    consider "a \<le> 0" | "0 < a" "b \<le> 0" | "0 < a" "0 < b" by linarith
    then show ?thesis
    proof cases
      case 1
      then show ?thesis using 3(1) [OF 1 3(4), of k] by simp
    next
      case 2
      then have "received (fst ` set (take j cs)) (fifo ((s, a) # ss) cs) = min (total ((s, a) # ss)) (total (take j cs))"
        using 3(2) [of j] 3(4) by simp
      moreover have "c \<notin> fst ` set cs" using 3(4) by auto
      ultimately show ?thesis using 2 Suc by (simp add: received_other)
    next
      case 3
      have "received (fst ` set (take k ((c, b - min a b) # cs))) (fifo ((s, a - min a b) # ss) ((c, b - min a b) # cs))
          = min (total ((s, a - min a b) # ss)) (total (take k ((c, b - min a b) # cs)))"
        using 3 "3.IH"(3) [of k] "3.prems" by simp
      then show ?thesis using 3 Suc by (auto simp: min_def max_def)
    qed
  qed simp
qed (simp_all add: min_absorb1 min_absorb2)

lemma given_prefix:
  assumes "distinct (map fst ss)"
  shows "given (fst ` set (take k ss)) (fifo ss cs) = min (total cs) (total (take k ss))"
  using assms
proof (induction ss cs arbitrary: k rule: fifo.induct)
  case (3 s a ss c b cs)
  show ?case
  proof (cases k)
    case (Suc j)
    consider "a \<le> 0" | "0 < a" "b \<le> 0" | "0 < a" "0 < b" by linarith
    then show ?thesis
    proof cases
      case 1
      then have "given (fst ` set (take j ss)) (fifo ss ((c, b) # cs)) = min (total ((c, b) # cs)) (total (take j ss))"
        using 3(1) [of j] 3(4) by simp
      moreover have "s \<notin> fst ` set ss" using 3(4) by auto
      ultimately show ?thesis using 1 Suc by (simp add: given_other)
    next
      case 2
      then show ?thesis using 3(2) [of k] 3(4) by simp
    next
      case 3
      have "given (fst ` set (take k ((s, a - min a b) # ss))) (fifo ((s, a - min a b) # ss) ((c, b - min a b) # cs))
          = min (total ((c, b - min a b) # cs)) (total (take k ((s, a - min a b) # ss)))"
        using 3 "3.IH"(3) [of k] "3.prems" by simp
      then show ?thesis using 3 Suc by (auto simp: min_def max_def)
    qed
  qed simp
qed (simp_all add: min_absorb1 min_absorb2)

lemma fifo_rest_ids: "map fst (fifo_rest ss cs) = map fst cs"
  by (induction ss cs rule: fifo_rest.induct) auto

lemma fifo_rest_total:
  "total (take k (fifo_rest ss cs)) = total (take k cs) - min (total ss) (total (take k cs))"
proof (induction ss cs arbitrary: k rule: fifo_rest.induct)
  case (3 s a ss c b cs)
  show ?case
  proof (cases k)
    case (Suc j)
    consider "a \<le> 0" | "0 < a" "b \<le> 0" | "0 < a" "0 < b" by linarith
    then show ?thesis
    proof cases
      case 1
      then show ?thesis using 3(1) [OF 1, of k] by simp
    next
      case 2
      then show ?thesis using 3(2) [of j] Suc by simp
    next
      case 3
      then show ?thesis using "3.IH"(3) [of k] Suc by (auto simp: min_def max_def)
    qed
  qed (simp add: min_absorb2)
qed (simp_all add: min_absorb1)

lemma fifo_pairs:
  assumes "distinct (map fst ss)" "distinct (map fst cs)"
  shows "distinct (map (\<lambda>(s, c, x). (s, c)) (fifo ss cs))"
  using assms
proof (induction ss cs rule: fifo.induct)
  case (3 s a ss c b cs)
  show ?case
  proof (cases "a \<le> 0 \<or> b \<le> 0")
    case True
    then show ?thesis using 3 by auto
  next
    case False
    let ?rows = "fifo ((s, a - min a b) # ss) ((c, b - min a b) # cs)"
    have "(s, c, x) \<notin> set ?rows" for x
    proof
      assume "(s, c, x) \<in> set ?rows"
      from fifo_rows [OF this] 3(4,5) have "0 < a - min a b" "0 < b - min a b" by force+
      then show False by (simp add: min_def split: if_splits)
    qed
    then have "(s, c) \<notin> set (map (\<lambda>(s, c, x). (s, c)) ?rows)" by auto
    then show ?thesis using 3(3) 3(4,5) False by simp
  qed
qed simp_all

section \<open>The rebuilt tables\<close>

definition adjustment_of :: "string \<Rightarrow> string \<Rightarrow> string \<times> string \<times> int \<Rightarrow> adjustment_row" where
  "adjustment_of g m = (\<lambda>(source, target, amount). \<lparr>aj_group = g, aj_membership = m, aj_source = source,
     aj_target = target, aj_amount = amount\<rparr>)"

definition allocation_of :: "string \<Rightarrow> string \<times> string \<times> int \<Rightarrow> payment_allocation_row" where
  "allocation_of g = (\<lambda>(payment, period, amount). \<lparr>al_group = g, al_payment = payment, al_period = period,
     al_amount = amount\<rparr>)"

abbreviation claims_of :: "string \<Rightarrow> string \<Rightarrow> db \<Rightarrow> amounts" where
  "claims_of g m s \<equiv> open_claims (period_claims g m s)"

abbreviation credits_of :: "string \<Rightarrow> string \<Rightarrow> db \<Rightarrow> amounts" where
  "credits_of g m s \<equiv> credit_adjustments (period_claims g m s)"

text \<open>The tables \<open>RebuildPaymentAllocations\<close> leaves behind, in terms of the reference definition.\<close>

definition rebuilt :: "string \<Rightarrow> string \<Rightarrow> db \<Rightarrow> db" where
  "rebuilt g m s = s\<lparr>
     adjustments := filter (\<lambda>a. \<not> (aj_group a = g \<and> aj_membership a = m)) (adjustments s)
       @ map (adjustment_of g m) (fifo (credits_of g m s) (claims_of g m s)),
     payment_allocations := filter (\<lambda>a. \<not> (al_group a = g \<and> member_payment g m s (al_payment a)))
         (payment_allocations s)
       @ map (allocation_of g) (fifo (allocatable_payments g m s)
           (fifo_rest (credits_of g m s) (claims_of g m s)))\<rparr>"

lemma period_claims_frame [simp]:
  "period_claims g m (s\<lparr>adjustments := x\<rparr>) = period_claims g m s"
  "period_claims g m (s\<lparr>payment_allocations := y\<rparr>) = period_claims g m s"
  by (simp_all add: period_claims_def)

lemma allocatable_payments_frame [simp]:
  "allocatable_payments g m (s\<lparr>adjustments := x\<rparr>) = allocatable_payments g m s"
  "allocatable_payments g m (s\<lparr>payment_allocations := y\<rparr>) = allocatable_payments g m s"
  by (simp_all add: allocatable_payments_def)

lemma member_payment_frame [simp]:
  "member_payment g m (s\<lparr>adjustments := x\<rparr>) = member_payment g m s"
  "member_payment g m (s\<lparr>payment_allocations := y\<rparr>) = member_payment g m s"
  by (rule ext, simp add: member_payment_def)+

lemma insert_adjustments:
  "(\<lambda>(source, target, amount). insert_adjustment \<lparr>aj_group = g, aj_membership = m, aj_source = source,
      aj_target = target, aj_amount = amount\<rparr>)
   = (\<lambda>r. insert_row adjustments adjustments_update ''period_adjustment_allocations'' (\<lambda>_ r. aj_amount r > 0)
     (\<lambda>x r. aj_membership x = aj_membership r \<and> aj_source x = aj_source r \<and> aj_target x = aj_target r)
     (adjustment_of g m r))"
  by (rule ext) (simp add: insert_adjustment_def adjustment_of_def split: prod.splits)

lemma insert_allocations:
  "(\<lambda>(payment, period, amount). insert_payment_allocation \<lparr>al_group = g, al_payment = payment,
      al_period = period, al_amount = amount\<rparr>)
   = (\<lambda>r. insert_row payment_allocations payment_allocations_update ''payment_allocations'' (\<lambda>_ r. al_amount r > 0)
     (\<lambda>x r. al_payment x = al_payment r \<and> al_period x = al_period r) (allocation_of g r))"
  by (rule ext) (simp add: insert_payment_allocation_def allocation_of_def split: prod.splits)

lemmas rebuild_steps = RebuildPaymentAllocations_def clear_payment_allocations_def clear_adjustments_def
  insert_adjustments insert_allocations fifo_outer_fifo Let_def

lemma rebuild_result:
  "RebuildPaymentAllocations g m s = Inr ((), s') \<Longrightarrow> s' = rebuilt g m s"
  by (auto simp: rebuild_steps bind_eq_Inr rebuilt_def
      dest!: adjustments.each_insert_Inr payment_allocations.each_insert_Inr)

text \<open>What the keys of the schema guarantee: primary keys of periods and payments, the foreign keys of
  the two allocation tables, and positive payments.\<close>

definition allocation_keys :: "db \<Rightarrow> bool" where
  "allocation_keys s \<longleftrightarrow> distinct (map pe_id (periods s)) \<and> distinct (map py_id (payments s)) \<and>
     (\<forall>p\<in>set (payments s). py_amount p > 0) \<and>
     (\<forall>a\<in>set (payment_allocations s). \<exists>p\<in>set (payments s). py_id p = al_payment a \<and> py_group p = al_group a) \<and>
     (\<forall>a\<in>set (adjustments s). \<exists>m\<in>set (memberships s). ms_id m = aj_membership a \<and> ms_group m = aj_group a) \<and>
     distinct (map ms_id (memberships s))"

lemma distinct_ids:
  assumes "allocation_keys s"
  shows "distinct (map fst (period_claims g m s))" "distinct (map fst (claims_of g m s))"
    "distinct (map fst (credits_of g m s))" "distinct (map fst (allocatable_payments g m s))"
proof -
  have sorted: "distinct (map f (sort_key k (filter P xs)))" if "distinct (map f xs)"
    for f :: "'a \<Rightarrow> string" and k :: "'a \<Rightarrow> string \<times> string" and P xs
    using that by (auto simp: distinct_map intro: inj_on_subset)
  show p: "distinct (map fst (period_claims g m s))"
    using assms sorted [of pe_id "periods s"] by (simp add: period_claims_def allocation_keys_def comp_def)
  have f: "distinct (map fst (filter P xs))" if "distinct (map fst xs)" for P and xs :: amounts
    using that by (auto simp: distinct_map intro: inj_on_subset)
  show "distinct (map fst (claims_of g m s))" unfolding open_claims_def by (rule f [OF p])
  have "map fst (credits_of g m s) = map fst (filter (\<lambda>(_, r). r < 0) (period_claims g m s))"
    by (auto simp: credit_adjustments_def)
  then show "distinct (map fst (credits_of g m s))" using f [OF p] by simp
  show "distinct (map fst (allocatable_payments g m s))"
    using assms sorted [of py_id "payments s"] by (simp add: allocatable_payments_def allocation_keys_def comp_def)
qed

lemma pairs_sorted_wrt:
  "distinct (map (\<lambda>(s, c, x). (s, c)) rows) \<Longrightarrow>
   sorted_wrt (\<lambda>(s, c, x) (s', c', x'). \<not> (s = s' \<and> c = c')) rows"
  by (induction rows) force+

lemma rebuild_succeeds:
  assumes keys: "allocation_keys s" and member: "\<exists>mr\<in>set (memberships s). ms_id mr = m \<and> ms_group mr = g"
  shows "RebuildPaymentAllocations g m s = Inr ((), rebuilt g m s)"
proof -
  let ?adj = "filter (\<lambda>a. \<not> (aj_group a = g \<and> aj_membership a = m)) (adjustments s)"
  let ?al = "filter (\<lambda>a. \<not> (al_group a = g \<and> member_payment g m s (al_payment a))) (payment_allocations s)"
  let ?A = "fifo (credits_of g m s) (claims_of g m s)"
  let ?rest = "fifo_rest (credits_of g m s) (claims_of g m s)"
  let ?P = "fifo (allocatable_payments g m s) ?rest"
  have pairs: "distinct (map (\<lambda>(s, c, x). (s, c)) ?A)" "distinct (map (\<lambda>(s, c, x). (s, c)) ?P)"
    using distinct_ids [OF keys] by (auto intro!: fifo_pairs simp: fifo_rest_ids)
  have adj: "\<not> (aj_membership x = m \<and> aj_source x = s' \<and> aj_target x = t)" if x: "x \<in> set ?adj" for x s' t
  proof
    assume "aj_membership x = m \<and> aj_source x = s' \<and> aj_target x = t"
    moreover obtain mr where "mr \<in> set (memberships s)" "ms_id mr = aj_membership x" "ms_group mr = aj_group x"
      using x keys by (auto simp: allocation_keys_def)
    ultimately have "aj_group x = g" using member keys
      by (auto simp: allocation_keys_def distinct_map dest: inj_onD)
    then show False using x \<open>aj_membership x = m \<and> _\<close> by simp
  qed
  have al: "al_payment x \<noteq> p" if x: "x \<in> set ?al" and row: "(p, c, a) \<in> set ?P" for x p c a
  proof
    assume eq: "al_payment x = p"
    obtain b where "(p, b) \<in> set (allocatable_payments g m s)" using fifo_rows [OF row] by blast
    then obtain pr where pr: "pr \<in> set (payments s)" "py_id pr = p" "py_group pr = g" "py_membership pr = m"
      by (auto simp: allocatable_payments_def)
    moreover obtain pr' where "pr' \<in> set (payments s)" "py_id pr' = al_payment x" "py_group pr' = al_group x"
      using x keys by (auto simp: allocation_keys_def)
    ultimately have "al_group x = g" using eq keys by (auto simp: allocation_keys_def distinct_map dest: inj_onD)
    moreover have "member_payment g m s (al_payment x)" using pr eq by (auto simp: member_payment_def list_ex_iff)
    ultimately show False using x by simp
  qed
  have 1: "each_tx (\<lambda>r. insert_row adjustments adjustments_update ''period_adjustment_allocations''
      (\<lambda>_ r. aj_amount r > 0)
      (\<lambda>x r. aj_membership x = aj_membership r \<and> aj_source x = aj_source r \<and> aj_target x = aj_target r)
      (adjustment_of g m r)) ?A (s\<lparr>payment_allocations := ?al, adjustments := ?adj\<rparr>)
    = Inr ((), s\<lparr>payment_allocations := ?al, adjustments := ?adj @ map (adjustment_of g m) ?A\<rparr>)"
    using adj pairs_sorted_wrt [OF pairs(1)]
    by (subst adjustments.each_insert_succeeds)
      (auto simp: adjustment_of_def split: prod.splits dest: fifo_rows elim!: sorted_wrt_mono_rel [rotated])
  have 2: "each_tx (\<lambda>r. insert_row payment_allocations payment_allocations_update ''payment_allocations''
      (\<lambda>_ r. al_amount r > 0) (\<lambda>x r. al_payment x = al_payment r \<and> al_period x = al_period r)
      (allocation_of g r)) ?P (s\<lparr>payment_allocations := ?al, adjustments := ?adj @ map (adjustment_of g m) ?A\<rparr>)
    = Inr ((), rebuilt g m s)"
    using al pairs_sorted_wrt [OF pairs(2)]
    by (subst payment_allocations.each_insert_succeeds)
      (auto simp: allocation_of_def rebuilt_def split: prod.splits dest: fifo_rows elim!: sorted_wrt_mono_rel [rotated])
  show ?thesis using 1 2 by (simp add: rebuild_steps)
qed

section \<open>Settled claims and used payments\<close>

text \<open>What the allocation tables settle of the member's claims against a set of periods, and what
  they use of a set of payments.\<close>

definition settled :: "string \<Rightarrow> string \<Rightarrow> string set \<Rightarrow> db \<Rightarrow> int" where
  "settled g m A s =
    sum_list (map aj_amount (filter (\<lambda>a. aj_group a = g \<and> aj_membership a = m \<and> aj_target a \<in> A) (adjustments s))) +
    sum_list (map al_amount (filter (\<lambda>a. al_group a = g \<and> member_payment g m s (al_payment a) \<and> al_period a \<in> A)
      (payment_allocations s)))"

definition used :: "string \<Rightarrow> string \<Rightarrow> string set \<Rightarrow> db \<Rightarrow> int" where
  "used g m A s =
    sum_list (map al_amount (filter (\<lambda>a. al_group a = g \<and> member_payment g m s (al_payment a) \<and> al_payment a \<in> A)
      (payment_allocations s)))"

lemma sum_adjustment_rows:
  "sum_list (map aj_amount (filter (\<lambda>a. aj_group a = g \<and> aj_membership a = m \<and> aj_target a \<in> A)
     (map (adjustment_of g m) rows))) = received A rows"
  by (induction rows) (auto simp: adjustment_of_def)

lemma sum_allocation_rows:
  assumes "\<forall>r\<in>set rows. Q (fst r)"
  shows "sum_list (map al_amount (filter (\<lambda>a. al_group a = g \<and> Q (al_payment a) \<and> al_period a \<in> A)
      (map (allocation_of g) rows))) = received A rows"
    and "sum_list (map al_amount (filter (\<lambda>a. al_group a = g \<and> Q (al_payment a) \<and> al_payment a \<in> A)
      (map (allocation_of g) rows))) = given A rows"
  using assms by (induction rows) (auto simp: allocation_of_def split: prod.splits)

lemma fifo_payment_rows:
  assumes "(p, c, x) \<in> set (fifo (allocatable_payments g m s) cs)"
  shows "member_payment g m s p"
  using fifo_rows [OF assms] by (auto simp: allocatable_payments_def member_payment_def list_ex_iff)

lemma fifo_payments_member:
  "\<forall>r\<in>set (fifo (allocatable_payments g m s) cs). member_payment g m s (fst r)"
  by (auto dest: fifo_payment_rows)

lemma member_payment_rebuilt [simp]: "member_payment g m (rebuilt g' m' s) = member_payment g m s"
  by (simp add: rebuilt_def)

lemma rebuilt_idem: "rebuilt g m (rebuilt g m s) = rebuilt g m s"
proof -
  let ?P = "fifo (allocatable_payments g m s) (fifo_rest (credits_of g m s) (claims_of g m s))"
  have adj: "filter (\<lambda>a. aj_group a = g \<longrightarrow> aj_membership a \<noteq> m) (map (adjustment_of g m) rows) = []" for rows
    by (auto simp: filter_empty_conv adjustment_of_def)
  have al: "filter (\<lambda>a. al_group a = g \<longrightarrow> \<not> member_payment g m s (al_payment a)) (map (allocation_of g) ?P) = []"
    by (auto simp: filter_empty_conv allocation_of_def dest: fifo_payment_rows)
  have c: "period_claims g m (rebuilt g m s) = period_claims g m s"
    "allocatable_payments g m (rebuilt g m s) = allocatable_payments g m s"
    by (simp_all add: rebuilt_def)
  show ?thesis
    unfolding rebuilt_def [of g m "rebuilt g m s"] c member_payment_rebuilt
    by (simp add: rebuilt_def adj al)
qed

lemma settled_rebuilt:
  "settled g m A (rebuilt g m s) =
     received A (fifo (credits_of g m s) (claims_of g m s)) +
     received A (fifo (allocatable_payments g m s) (fifo_rest (credits_of g m s) (claims_of g m s)))"
proof -
  have none: "filter (\<lambda>a. P a \<and> Q a) (filter (\<lambda>a. \<not> P a) xs) = []"
    "filter (\<lambda>a. P a \<and> R a \<and> Q a) (filter (\<lambda>a. \<not> (P a \<and> R a)) xs) = []" for P Q R and xs :: "'a list"
    by (auto simp: filter_empty_conv)
  show ?thesis
    unfolding settled_def member_payment_rebuilt
    using sum_allocation_rows(1) [OF fifo_payments_member [of g m s]]
    by (simp add: rebuilt_def none sum_adjustment_rows)
qed

lemma used_rebuilt:
  "used g m A (rebuilt g m s) =
     given A (fifo (allocatable_payments g m s) (fifo_rest (credits_of g m s) (claims_of g m s)))"
proof -
  have none: "filter (\<lambda>a. P a \<and> R a \<and> Q a) (filter (\<lambda>a. \<not> (P a \<and> R a)) xs) = []" for P Q R and xs :: "'a list"
    by (auto simp: filter_empty_conv)
  show ?thesis
    unfolding used_def member_payment_rebuilt
    using sum_allocation_rows(2) [OF fifo_payments_member [of g m s]]
    by (simp add: rebuilt_def none)
qed

lemma fifo_rest_sum: "total (fifo_rest ss cs) = total cs - min (total ss) (total cs)"
proof -
  have "length (fifo_rest ss cs) = length cs" using fifo_rest_ids by (metis length_map)
  then show ?thesis using fifo_rest_total [of "length cs" ss cs] by simp
qed

section \<open>Greedy distribution\<close>

text \<open>Amounts over sets of keys are sums over the keys. If moreover every prefix of a list receives as much
  as there is to give, then each entry is served before any later one.\<close>

lemma sum_filter_insert:
  "x \<notin> A \<Longrightarrow> sum_list (map h (filter (\<lambda>a. P a \<and> k a \<in> insert x A) xs)) =
     sum_list (map h (filter (\<lambda>a. P a \<and> k a = x) xs)) + (sum_list (map h (filter (\<lambda>a. P a \<and> k a \<in> A) xs)) :: int)"
  by (induction xs) auto

definition additive :: "(string set \<Rightarrow> int) \<Rightarrow> bool" where
  "additive f \<longleftrightarrow> f {} = 0 \<and> (\<forall>x A. x \<notin> A \<longrightarrow> f (insert x A) = f {x} + f A)"

lemma additiveD: "additive f \<Longrightarrow> x \<notin> A \<Longrightarrow> f (insert x A) = f {x} + f A"
  unfolding additive_def by blast

lemma additive_empty: "additive f \<Longrightarrow> f {} = 0"
  unfolding additive_def by blast

lemma settled_insert: "x \<notin> A \<Longrightarrow> settled g m (insert x A) s = settled g m {x} s + settled g m A s"
  unfolding settled_def
  using sum_filter_insert [of x A aj_amount "\<lambda>a. aj_group a = g \<and> aj_membership a = m" aj_target "adjustments s"]
    sum_filter_insert [of x A al_amount "\<lambda>a. al_group a = g \<and> member_payment g m s (al_payment a)" al_period
      "payment_allocations s"]
  by (simp only: conj_assoc singleton_iff not_False_eq_True simp_thms add_ac)

lemma used_insert: "x \<notin> A \<Longrightarrow> used g m (insert x A) s = used g m {x} s + used g m A s"
  unfolding used_def
  using sum_filter_insert [of x A al_amount "\<lambda>a. al_group a = g \<and> member_payment g m s (al_payment a)" al_payment
      "payment_allocations s"]
  by (simp only: conj_assoc singleton_iff not_False_eq_True simp_thms add_ac)

lemma additive_amounts: "additive (\<lambda>A. settled g m A s)" "additive (\<lambda>A. used g m A s)"
  unfolding additive_def using settled_insert used_insert by (auto simp: settled_def used_def)

lemma sum_singletons:
  "additive f \<Longrightarrow> distinct xs \<Longrightarrow> sum_list (map (\<lambda>x. f {x}) xs) = f (set xs)"
proof (induction xs)
  case (Cons x xs)
  from Cons.prems have x: "x \<notin> set xs" "distinct xs" by simp_all
  from Cons.prems(1) x(1) have "f (insert x (set xs)) = f {x} + f (set xs)" by (rule additiveD)
  moreover from Cons.prems(1) x(2) have "sum_list (map (\<lambda>x. f {x}) xs) = f (set xs)" by (rule Cons.IH)
  ultimately show ?case by simp
qed (simp add: additive_empty)

lemma greedy_step:
  assumes add: "additive f" and ids: "distinct (map fst L)"
    and prefix: "\<forall>k. f (fst ` set (take k L)) = min F (total (take k L))" and i: "i < length L"
  shows "f {fst (L ! i)} = min F (total (take i L) + max 0 (snd (L ! i))) - min F (total (take i L))"
proof -
  have "fst (L ! i) \<notin> fst ` set (take i L)"
  proof -
    have "map fst L ! i \<notin> set (take i (map fst L))"
      using ids i by (auto simp: in_set_conv_nth distinct_conv_nth)
    then show ?thesis using i by (simp add: take_map)
  qed
  then have "f (insert (fst (L ! i)) (fst ` set (take i L))) = f {fst (L ! i)} + f (fst ` set (take i L))"
    by (rule additiveD [OF add])
  moreover have "fst ` set (take (Suc i) L) = insert (fst (L ! i)) (fst ` set (take i L))"
    "total (take (Suc i) L) = total (take i L) + max 0 (snd (L ! i))"
    using i by (simp_all add: take_Suc_conv_app_nth total_def case_prod_beta)
  ultimately show ?thesis using prefix [THEN spec, of i] prefix [THEN spec, of "Suc i"] by simp
qed

lemma total_take_mono: "i \<le> j \<Longrightarrow> total (take i L) \<le> total (take j L)"
  using total_nonneg [of "take (j - i) (drop i L)"] total_simps(3) [of "take i L" "take (j - i) (drop i L)"]
  by (metis add.commute le_add_diff_inverse le_add_same_cancel2 take_add)

lemma greedy:
  assumes "additive f" "distinct (map fst L)" "\<forall>k. f (fst ` set (take k L)) = min F (total (take k L))"
  shows "i < length L \<Longrightarrow> 0 \<le> f {fst (L ! i)} \<and> f {fst (L ! i)} \<le> max 0 (snd (L ! i))"
    and "i < j \<Longrightarrow> j < length L \<Longrightarrow> 0 < f {fst (L ! j)} \<Longrightarrow> f {fst (L ! i)} = max 0 (snd (L ! i))"
proof -
  note step = greedy_step [OF assms]
  show "0 \<le> f {fst (L ! i)} \<and> f {fst (L ! i)} \<le> max 0 (snd (L ! i))" if "i < length L"
    using step [OF that] by linarith
  show "f {fst (L ! i)} = max 0 (snd (L ! i))" if "i < j" "j < length L" "0 < f {fst (L ! j)}"
  proof -
    have "total (take i L) + max 0 (snd (L ! i)) \<le> total (take j L)"
      using total_take_mono [of "Suc i" j L] that by (simp add: take_Suc_conv_app_nth total_def case_prod_beta)
    then show ?thesis using step [of i] step [of j] that by linarith
  qed
qed

lemma sorted_positions:
  fixes k :: "'a \<Rightarrow> 'b::linorder"
  assumes "x \<in> set xs" "y \<in> set xs" "k x < k y"
  obtains i j where "i < j" "j < length (sort_key k xs)" "sort_key k xs ! i = x" "sort_key k xs ! j = y"
proof -
  let ?L = "sort_key k xs"
  from assms obtain i j where i: "i < length ?L" "?L ! i = x" and j: "j < length ?L" "?L ! j = y"
    by (metis in_set_conv_nth set_sort)
  have "i < j"
  proof (rule ccontr)
    assume "\<not> i < j"
    then have "map k ?L ! j \<le> map k ?L ! i" using i by (intro sorted_nth_mono sorted_sort_key) simp_all
    then show False using i j assms(3) by simp
  qed
  then show ?thesis using that i j by blast
qed

lemma sum_sort_key: "sum_list (map f (sort_key k xs)) = (sum_list (map f xs) :: int)"
proof -
  have "sum_list (map f (insort_key k x ys)) = f x + sum_list (map f ys)" for x ys by (induction ys) auto
  then show ?thesis by (induction xs) simp_all
qed

section \<open>What a member owes and has paid\<close>

text \<open>The net claim of one period, read off the ledger, and the payments that count.\<close>

definition claim_in :: "string \<Rightarrow> string \<Rightarrow> string \<Rightarrow> db \<Rightarrow> int" where
  "claim_in g m periodID s = sum_list (map le_amount (filter (\<lambda>le. le_group le = g \<and> le_period le = Some periodID \<and>
     le_membership le = Some m \<and> le_account le = ''MEMBER_RECEIVABLE'' \<and> le_payment le = None) (ledger s)))"

definition group_periods :: "string \<Rightarrow> db \<Rightarrow> period_row list" where
  "group_periods g s = filter (\<lambda>p. pe_group p = g) (periods s)"

definition member_payments :: "string \<Rightarrow> string \<Rightarrow> db \<Rightarrow> payment_row list" where
  "member_payments g m s = filter (\<lambda>p. py_group p = g \<and> py_membership p = m) (payments s)"

definition total_owed :: "string \<Rightarrow> string \<Rightarrow> db \<Rightarrow> int" where
  "total_owed g m s = sum_list (map (\<lambda>p. max 0 (claim_in g m (pe_id p) s)) (group_periods g s))"

definition total_credit :: "string \<Rightarrow> string \<Rightarrow> db \<Rightarrow> int" where
  "total_credit g m s = sum_list (map (\<lambda>p. max 0 (- claim_in g m (pe_id p) s)) (group_periods g s))"

definition total_paid :: "string \<Rightarrow> string \<Rightarrow> db \<Rightarrow> int" where
  "total_paid g m s = sum_list (map py_amount (filter (\<lambda>p. py_reversed_at p = None) (member_payments g m s)))"

text \<open>\<open>earlier\<close> compares two stored times and, where they are equal, the identifiers. Times are texts, so the
  order is that of the text; for times of different seconds it is the order of time.\<close>

definition earlier :: "string \<times> string \<Rightarrow> string \<times> string \<Rightarrow> bool" where
  "earlier x y \<longleftrightarrow> fst x < fst y \<or> fst x = fst y \<and> snd x < snd y \<or>
     (\<exists>t u. stored_instant t \<and> stored_instant u \<and> fst x = Timestamp t \<and> fst y = Timestamp u \<and>
        t div second < u div second)"

lemma earlier_less: "earlier (a, i) (b, j) \<Longrightarrow> (a, i) < (b, j)"
  unfolding earlier_def using Timestamp_less by auto

lemma group_claims:
  "period_claims g m s = map (\<lambda>p. (pe_id p, claim_in g m (pe_id p) s)) (sort_key (\<lambda>p. (pe_starts_at p, pe_id p)) (group_periods g s))"
  by (auto simp: period_claims_def claim_in_def group_periods_def intro!: arg_cong [of _ _ sum_list] arg_cong [of _ _ "map _"] filter_cong)

lemma member_amounts:
  "allocatable_payments g m s = map (\<lambda>p. (py_id p, py_amount p)) (sort_key (\<lambda>p. (py_received_at p, py_id p))
     (filter (\<lambda>p. py_reversed_at p = None) (member_payments g m s)))"
  by (simp add: allocatable_payments_def member_payments_def conj_ac)

lemma total_claims: "total (period_claims g m s) = total_owed g m s" "total (claims_of g m s) = total_owed g m s"
proof -
  show d: "total (period_claims g m s) = total_owed g m s"
    by (simp add: group_claims total_def total_owed_def comp_def sum_sort_key)
  have "total (filter (\<lambda>(_, r). r > 0) xs) = total xs" for xs by (induction xs) auto
  then show "total (claims_of g m s) = total_owed g m s" using d by (simp add: open_claims_def)
qed

lemma total_credits: "total (credits_of g m s) = total_credit g m s"
proof -
  have "total (map (\<lambda>(p, r). (p, - r)) (filter (\<lambda>(_, r). r < 0) xs)) = sum_list (map (\<lambda>(_, r). max 0 (- r)) xs)"
    for xs :: amounts by (induction xs) auto
  then show ?thesis by (simp add: credit_adjustments_def group_claims total_credit_def comp_def sum_sort_key)
qed

lemma total_payments: "allocation_keys s \<Longrightarrow> total (allocatable_payments g m s) = total_paid g m s"
  by (simp add: member_amounts total_def total_paid_def comp_def sum_sort_key allocation_keys_def member_payments_def
      cong: map_cong) (rule arg_cong [of _ _ sum_list], force intro!: map_cong)

lemma received_cong: "(\<And>c. c \<in> fst ` set cs \<Longrightarrow> c \<in> A \<longleftrightarrow> c \<in> B) \<Longrightarrow> received A (fifo ss cs) = received B (fifo ss cs)"
  unfolding received_def
  by (rule arg_cong [of _ _ sum_list], rule arg_cong [of _ _ "map _"], rule filter_cong [OF refl])
    (clarsimp, drule fifo_rows, fastforce)

lemma given_cong: "(\<And>c. c \<in> fst ` set ss \<Longrightarrow> c \<in> A \<longleftrightarrow> c \<in> B) \<Longrightarrow> given A (fifo ss cs) = given B (fifo ss cs)"
  unfolding given_def
  by (rule arg_cong [of _ _ sum_list], rule arg_cong [of _ _ "map _"], rule filter_cong [OF refl])
    (clarsimp, drule fifo_rows, fastforce)

lemma settled_claims:
  assumes "allocation_keys s"
  shows "settled g m (fst ` set (take k (claims_of g m s))) (rebuilt g m s) =
    min (total_credit g m s + total_paid g m s) (total (take k (claims_of g m s)))"
proof -
  let ?C = "claims_of g m s" and ?A = "credits_of g m s"
  let ?ids = "fst ` set (take k ?C)"
  have "fst ` set (take k (fifo_rest ?A ?C)) = ?ids"
    by (metis fifo_rest_ids image_set take_map)
  then have "received ?ids (fifo (allocatable_payments g m s) (fifo_rest ?A ?C))
      = min (total (allocatable_payments g m s)) (total (take k (fifo_rest ?A ?C)))"
    using received_prefix [of "fifo_rest ?A ?C" k "allocatable_payments g m s"] distinct_ids [OF assms]
    by (simp add: fifo_rest_ids)
  moreover have "received ?ids (fifo ?A ?C) = min (total ?A) (total (take k ?C))"
    using received_prefix distinct_ids [OF assms] by blast
  ultimately show ?thesis
    unfolding settled_rebuilt fifo_rest_total
    using total_nonneg [of ?A] total_nonneg [of "allocatable_payments g m s"] total_nonneg [of "take k ?C"]
      total_credits [of g m s] total_payments [OF assms, of g m] by linarith
qed

lemma settled_cong:
  assumes "\<And>c. c \<in> fst ` set (claims_of g m s) \<Longrightarrow> c \<in> A \<longleftrightarrow> c \<in> B"
  shows "settled g m A (rebuilt g m s) = settled g m B (rebuilt g m s)"
proof -
  have "fst ` set (fifo_rest (credits_of g m s) (claims_of g m s)) = fst ` set (claims_of g m s)"
    by (metis fifo_rest_ids image_set)
  then show ?thesis
    unfolding settled_rebuilt by (intro arg_cong2 [of _ _ _ _ "(+)"] received_cong; simp only: assms)
qed

lemma filtered_prefix:
  assumes "distinct (map fst R)" "c \<in> fst ` set (filter P R)"
  shows "c \<in> fst ` set (take k R) \<longleftrightarrow> c \<in> fst ` set (filter P (take k R))"
proof
  from assms(2) obtain r where r: "r \<in> set R" "P r" "c = fst r" by auto
  assume "c \<in> fst ` set (take k R)"
  then obtain r' where r': "r' \<in> set (take k R)" "fst r' = c" by auto
  then have "r' \<in> set R" by (meson in_set_takeD)
  then have "r' = r" using assms(1) r r'(2) by (auto simp: distinct_map dest: inj_onD)
  then show "c \<in> fst ` set (filter P (take k R))" using r r' by auto
qed auto

lemma settled_prefix:
  assumes "allocation_keys s"
  shows "settled g m (fst ` set (take k (period_claims g m s))) (rebuilt g m s) =
    min (total_credit g m s + total_paid g m s) (total (take k (period_claims g m s)))"
proof -
  let ?R = "period_claims g m s" and ?P = "\<lambda>(_, r). r > (0::int)"
  let ?T = "filter ?P (take k ?R)"
  have C: "claims_of g m s = ?T @ filter ?P (drop k ?R)"
    unfolding open_claims_def by (metis append_take_drop_id filter_append)
  have "c \<in> fst ` set (take k ?R) \<longleftrightarrow> c \<in> fst ` set ?T" if "c \<in> fst ` set (claims_of g m s)" for c
    using filtered_prefix [OF distinct_ids(1) [OF assms]] that unfolding open_claims_def .
  then have "settled g m (fst ` set (take k ?R)) (rebuilt g m s) = settled g m (fst ` set ?T) (rebuilt g m s)"
    by (rule settled_cong)
  also have "?T = take (length ?T) (claims_of g m s)" by (simp add: C)
  also have "settled g m (fst ` set \<dots>) (rebuilt g m s) = min (total_credit g m s + total_paid g m s) (total \<dots>)"
    by (rule settled_claims [OF assms])
  also have "total (take (length ?T) (claims_of g m s)) = total (take k ?R)"
  proof -
    have "total (filter ?P xs) = total xs" for xs by (induction xs) auto
    then show ?thesis by (simp add: C)
  qed
  finally show ?thesis .
qed

lemma used_prefix:
  assumes "allocation_keys s"
  shows "used g m (fst ` set (take k (allocatable_payments g m s))) (rebuilt g m s) =
    min (max 0 (total_owed g m s - total_credit g m s)) (total (take k (allocatable_payments g m s)))"
proof -
  have "used g m (fst ` set (take k (allocatable_payments g m s))) (rebuilt g m s) =
      min (total (fifo_rest (credits_of g m s) (claims_of g m s))) (total (take k (allocatable_payments g m s)))"
    unfolding used_rebuilt using given_prefix distinct_ids [OF assms] by blast
  then show ?thesis by (simp add: fifo_rest_sum total_claims total_credits min_def max_def)
qed

lemma sorted_member:
  assumes "x \<in> set xs"
  obtains i where "i < length (sort_key k xs)" "sort_key k xs ! i = x"
proof -
  have "x \<in> set (sort_key k xs)" using assms by simp
  then show ?thesis using that unfolding in_set_conv_nth by blast
qed

text \<open>The claims of the periods of the group.\<close>

abbreviation by_start :: "period_row list \<Rightarrow> period_row list" where
  "by_start \<equiv> sort_key (\<lambda>p. (pe_starts_at p, pe_id p))"

lemma claims_nth:
  "i < length (by_start (group_periods g s)) \<Longrightarrow> period_claims g m s ! i =
     (pe_id (by_start (group_periods g s) ! i), claim_in g m (pe_id (by_start (group_periods g s) ! i)) s)"
  "length (period_claims g m s) = length (by_start (group_periods g s))"
  by (simp_all add: group_claims)

lemma settled_greedy:
  assumes "allocation_keys s"
  shows "i < length (period_claims g m s) \<Longrightarrow>
      0 \<le> settled g m {fst (period_claims g m s ! i)} (rebuilt g m s) \<and>
      settled g m {fst (period_claims g m s ! i)} (rebuilt g m s) \<le> max 0 (snd (period_claims g m s ! i))"
    and "i < j \<Longrightarrow> j < length (period_claims g m s) \<Longrightarrow>
      0 < settled g m {fst (period_claims g m s ! j)} (rebuilt g m s) \<Longrightarrow>
      settled g m {fst (period_claims g m s ! i)} (rebuilt g m s) = max 0 (snd (period_claims g m s ! i))"
  using greedy [OF additive_amounts(1) distinct_ids(1) [OF assms] allI [OF settled_prefix [OF assms]]] by blast+

lemma settled_bounds:
  assumes "allocation_keys s" "p \<in> set (group_periods g s)"
  shows "0 \<le> settled g m {pe_id p} (rebuilt g m s) \<and>
    settled g m {pe_id p} (rebuilt g m s) \<le> max 0 (claim_in g m (pe_id p) s)"
proof -
  obtain i where "i < length (by_start (group_periods g s))" "by_start (group_periods g s) ! i = p"
    using assms(2) by (rule sorted_member)
  then show ?thesis
    using settled_greedy(1) [OF assms(1), of i g m] claims_nth(1) [of i g s m] claims_nth(2) [of g m s] by simp
qed

lemma settled_in_order:
  assumes "allocation_keys s" "p \<in> set (group_periods g s)" "q \<in> set (group_periods g s)"
    "earlier (pe_starts_at p, pe_id p) (pe_starts_at q, pe_id q)" "0 < settled g m {pe_id q} (rebuilt g m s)"
  shows "settled g m {pe_id p} (rebuilt g m s) = max 0 (claim_in g m (pe_id p) s)"
proof -
  let ?L = "by_start (group_periods g s)"
  from sorted_positions [OF assms(2,3) earlier_less [OF assms(4)]]
  obtain i j where "i < j" "j < length ?L" "?L ! i = p" "?L ! j = q" by blast
  then show ?thesis
    using settled_greedy(2) [OF assms(1), of i j g m] claims_nth(1) [of i g s m] claims_nth(1) [of j g s m]
      claims_nth(2) [of g m s] assms(5) by simp
qed

lemma settled_sum:
  assumes "allocation_keys s"
  shows "sum_list (map (\<lambda>p. settled g m {pe_id p} (rebuilt g m s)) (group_periods g s)) =
    min (total_credit g m s + total_paid g m s) (total_owed g m s)"
proof -
  let ?f = "\<lambda>A. settled g m A (rebuilt g m s)" and ?R = "period_claims g m s"
  have "sum_list (map (\<lambda>p. ?f {pe_id p}) (group_periods g s)) = sum_list (map (\<lambda>x. ?f {x}) (map fst ?R))"
    by (simp add: group_claims comp_def sum_sort_key)
  also have "\<dots> = ?f (set (map fst ?R))"
    by (rule sum_singletons [where f = ?f, OF additive_amounts(1) distinct_ids(1) [OF assms(1)]])
  also have "\<dots> = min (total_credit g m s + total_paid g m s) (total_owed g m s)"
    using settled_prefix [OF assms(1), of g m "length ?R"] by (simp add: total_claims)
  finally show ?thesis .
qed

text \<open>The payments that are not reversed.\<close>

abbreviation live_payments :: "string \<Rightarrow> string \<Rightarrow> db \<Rightarrow> payment_row list" where
  "live_payments g m s \<equiv> filter (\<lambda>p. py_reversed_at p = None) (member_payments g m s)"

abbreviation by_receipt :: "payment_row list \<Rightarrow> payment_row list" where
  "by_receipt \<equiv> sort_key (\<lambda>p. (py_received_at p, py_id p))"

lemma amounts_nth:
  "i < length (by_receipt (live_payments g m s)) \<Longrightarrow> allocatable_payments g m s ! i =
     (py_id (by_receipt (live_payments g m s) ! i), py_amount (by_receipt (live_payments g m s) ! i))"
  "length (allocatable_payments g m s) = length (by_receipt (live_payments g m s))"
  by (simp_all add: member_amounts)

lemma used_greedy:
  assumes "allocation_keys s"
  shows "i < length (allocatable_payments g m s) \<Longrightarrow>
      0 \<le> used g m {fst (allocatable_payments g m s ! i)} (rebuilt g m s) \<and>
      used g m {fst (allocatable_payments g m s ! i)} (rebuilt g m s) \<le> max 0 (snd (allocatable_payments g m s ! i))"
    and "i < j \<Longrightarrow> j < length (allocatable_payments g m s) \<Longrightarrow>
      0 < used g m {fst (allocatable_payments g m s ! j)} (rebuilt g m s) \<Longrightarrow>
      used g m {fst (allocatable_payments g m s ! i)} (rebuilt g m s) = max 0 (snd (allocatable_payments g m s ! i))"
  using greedy [OF additive_amounts(2) distinct_ids(4) [OF assms] allI [OF used_prefix [OF assms]]] by blast+

lemma payment_positive: "allocation_keys s \<Longrightarrow> p \<in> set (member_payments g m s) \<Longrightarrow> 0 < py_amount p"
  by (auto simp: allocation_keys_def member_payments_def)

lemma reversed_unused:
  assumes keys: "allocation_keys s" and p: "p \<in> set (member_payments g m s)" "py_reversed_at p \<noteq> None"
  shows "used g m {py_id p} (rebuilt g m s) = 0"
proof -
  have "py_id p \<notin> py_id ` set (live_payments g m s)"
    using keys p by (auto simp: allocation_keys_def member_payments_def distinct_map dest: inj_onD)
  then have "py_id p \<notin> fst ` set (allocatable_payments g m s)" by (simp add: member_amounts image_image)
  then show ?thesis unfolding used_rebuilt by (subst given_other) simp_all
qed

lemma used_bounds:
  assumes "allocation_keys s" "p \<in> set (member_payments g m s)"
  shows "0 \<le> used g m {py_id p} (rebuilt g m s) \<and>
    used g m {py_id p} (rebuilt g m s) \<le> (if py_reversed_at p = None then py_amount p else 0)"
proof (cases "py_reversed_at p = None")
  case True
  then have "p \<in> set (live_payments g m s)" using assms(2) by simp
  then obtain i where "i < length (by_receipt (live_payments g m s))" "by_receipt (live_payments g m s) ! i = p"
    by (rule sorted_member)
  then show ?thesis
    using used_greedy(1) [OF assms(1), of i g m] amounts_nth(1) [of i g m s] amounts_nth(2) [of g m s] True
      payment_positive [OF assms] by simp
next
  case False
  then show ?thesis using reversed_unused [OF assms] by (simp only: if_False order_refl simp_thms)
qed

lemma used_in_order:
  assumes "allocation_keys s" "p \<in> set (member_payments g m s)" "q \<in> set (member_payments g m s)" "py_reversed_at p = None"
    "earlier (py_received_at p, py_id p) (py_received_at q, py_id q)" "0 < used g m {py_id q} (rebuilt g m s)"
  shows "used g m {py_id p} (rebuilt g m s) = py_amount p"
proof -
  let ?L = "by_receipt (live_payments g m s)"
  have "py_reversed_at q = None" using reversed_unused [OF assms(1,3)] assms(6) by fastforce
  then have "p \<in> set (live_payments g m s)" "q \<in> set (live_payments g m s)" using assms(2,3,4) by simp_all
  from sorted_positions [OF this earlier_less [OF assms(5)]]
  obtain i j where "i < j" "j < length ?L" "?L ! i = p" "?L ! j = q" by blast
  then show ?thesis
    using used_greedy(2) [OF assms(1), of i j g m] amounts_nth(1) [of i g m s] amounts_nth(1) [of j g m s]
      amounts_nth(2) [of g m s] assms(6) payment_positive [OF assms(1,2)] by simp
qed

lemma sum_list_0: "(\<And>x. x \<in> set xs \<Longrightarrow> f x = 0) \<Longrightarrow> sum_list (map f xs) = (0 :: int)"
  by (induction xs) auto

lemma used_sum:
  assumes "allocation_keys s"
  shows "sum_list (map (\<lambda>p. used g m {py_id p} (rebuilt g m s)) (member_payments g m s)) =
    min (max 0 (total_owed g m s - total_credit g m s)) (total_paid g m s)"
proof -
  let ?f = "\<lambda>A. used g m A (rebuilt g m s)" and ?A = "allocatable_payments g m s"
  have "sum_list (map (\<lambda>p. ?f {py_id p}) (filter (\<lambda>p. \<not> py_reversed_at p = None) (member_payments g m s))) = 0"
    by (rule sum_list_0) (use reversed_unused [OF assms] in auto)
  then have "sum_list (map (\<lambda>p. ?f {py_id p}) (member_payments g m s)) = sum_list (map (\<lambda>p. ?f {py_id p}) (live_payments g m s))"
    using sum_list_filter_split [of "\<lambda>p. ?f {py_id p}" "\<lambda>p. py_reversed_at p = None" "member_payments g m s"] by linarith
  also have "\<dots> = sum_list (map (\<lambda>x. ?f {x}) (map fst ?A))"
    by (simp add: member_amounts comp_def sum_sort_key)
  also have "\<dots> = ?f (set (map fst ?A))"
    by (rule sum_singletons [where f = ?f, OF additive_amounts(2) distinct_ids(4) [OF assms]])
  also have "\<dots> = min (max 0 (total_owed g m s - total_credit g m s)) (total_paid g m s)"
    using used_prefix [OF assms(1), of g m "length ?A"] by (simp add: total_payments [OF assms(1)])
  finally show ?thesis .
qed

section \<open>Properties\<close>

text \<open>A group with three periods whose identifiers run against their dates. The member owes 30 in the oldest
  one and some amount in the next, holds a credit of 5 in the newest, and has made three payments, the
  first of which is reversed.\<close>

definition three_periods :: "int \<Rightarrow> db" where
  "three_periods owed = empty_db\<lparr>
     memberships := [\<lparr>ms_id = ''m'', ms_group = ''g'', ms_user = ''u'', ms_status = ''ACTIVE'', ms_guest_key = None,
       ms_deleted_at = None\<rparr>],
     periods := map (\<lambda>(i, status, starts). \<lparr>pe_id = i, pe_group = ''g'', pe_label = i, pe_status = status,
         pe_starts_at = starts, pe_closed_at = None, pe_due_at = None, pe_closed_by = None\<rparr>)
       [(''p2'', ''CLOSED'', ''2026-02-01T00:00:00Z''), (''p3'', ''CLOSED'', ''2026-01-01T00:00:00Z''),
        (''p1'', ''OPEN'', ''2026-03-01T00:00:00Z'')],
     payments := map (\<lambda>(i, amount, time, reversed). \<lparr>py_id = i, py_group = ''g'', py_membership = ''m'', py_amount = amount,
         py_received_at = time, py_method = ''CASH'', py_method_label = ''Bar'', py_reference = None, py_note = None,
         py_created_by = ''m'', py_created_at = time, py_reversed_at = reversed, py_reversed_by = None,
         py_reversal_reason = None\<rparr>)
       [(''y1'', 40, ''2026-02-03T00:00:00Z'', None), (''y2'', 60, ''2026-02-02T00:00:00Z'', None),
        (''y3'', 25, ''2026-02-01T00:00:00Z'', Some ''2026-02-04T00:00:00Z'')],
     ledger := map (\<lambda>(i, p, a). \<lparr>le_id = i, le_group = ''g'', le_period = Some p, le_membership = Some ''m'',
         le_category = None, le_booking = Some ''b'', le_payment = None, le_external_account = None,
         le_external_transaction = None, le_reversal_of = None, le_account = ''MEMBER_RECEIVABLE'', le_amount = a,
         le_description = ''Buchung'', le_created_at = ''2026-01-01T00:00:00Z''\<rparr>)
       [(''l1'', ''p1'', - 5), (''l2'', ''p2'', owed), (''l3'', ''p3'', 30)]\<rparr>"

lemma three_periods_ok:
  "allocation_keys (three_periods 90)" "allocation_keys (three_periods 50)"
  "\<exists>mr\<in>set (memberships (three_periods 90)). ms_id mr = ''m'' \<and> ms_group mr = ''g''"
  "\<exists>mr\<in>set (memberships (three_periods 50)). ms_id mr = ''m'' \<and> ms_group mr = ''g''"
  by code_simp+

text \<open>C3. \<open>RebuildPaymentAllocations\<close> always succeeds on a database whose keys are intact, and it
  settles claims oldest first. The claim of a period is what the ledger says the member owes in it. No period
  is settled beyond its claim, and none receives anything while one that started earlier is open: periods are
  compared by the start they are stored with, for starts in different seconds by time, and only for equal starts by
  identifier. Over all periods of the group, exactly what the member's credits and non-reversed payments can
  give is settled.\<close>

theorem rebuild_settles_oldest_first:
  assumes "allocation_keys s" "\<exists>mr\<in>set (memberships s). ms_id mr = m \<and> ms_group mr = g"
  shows "\<exists>s'. RebuildPaymentAllocations g m s = Inr ((), s') \<and>
    (\<forall>p\<in>set (group_periods g s). 0 \<le> settled g m {pe_id p} s' \<and> settled g m {pe_id p} s' \<le> max 0 (claim_in g m (pe_id p) s)) \<and>
    (\<forall>p\<in>set (group_periods g s). \<forall>q\<in>set (group_periods g s).
      earlier (pe_starts_at p, pe_id p) (pe_starts_at q, pe_id q) \<longrightarrow> 0 < settled g m {pe_id q} s' \<longrightarrow>
      settled g m {pe_id p} s' = max 0 (claim_in g m (pe_id p) s)) \<and>
    sum_list (map (\<lambda>p. settled g m {pe_id p} s') (group_periods g s)) = min (total_credit g m s + total_paid g m s) (total_owed g m s)"
  using rebuild_succeeds [OF assms] settled_bounds [OF assms(1)] settled_in_order [OF assms(1)] settled_sum [OF assms(1)]
  by (intro exI [of _ "rebuilt g m s"]) blast

theorem rebuild_settles_oldest_first_witness:
  "\<exists>s'. RebuildPaymentAllocations ''g'' ''m'' (three_periods 90) = Inr ((), s') \<and>
     settled ''g'' ''m'' {''p3''} s' = 30 \<and> settled ''g'' ''m'' {''p2''} s' = 75 \<and> settled ''g'' ''m'' {''p1''} s' = 0"
proof -
  let ?s = "three_periods 90"
  from rebuild_settles_oldest_first [OF three_periods_ok(1,3)] obtain s' where
    s': "RebuildPaymentAllocations ''g'' ''m'' ?s = Inr ((), s')" and
    bounds: "\<And>p. p \<in> set (group_periods ''g'' ?s) \<Longrightarrow>
       0 \<le> settled ''g'' ''m'' {pe_id p} s' \<and> settled ''g'' ''m'' {pe_id p} s' \<le> max 0 (claim_in ''g'' ''m'' (pe_id p) ?s)" and
    order: "\<And>p q. p \<in> set (group_periods ''g'' ?s) \<Longrightarrow> q \<in> set (group_periods ''g'' ?s) \<Longrightarrow>
       earlier (pe_starts_at p, pe_id p) (pe_starts_at q, pe_id q) \<Longrightarrow> 0 < settled ''g'' ''m'' {pe_id q} s' \<Longrightarrow>
       settled ''g'' ''m'' {pe_id p} s' = max 0 (claim_in ''g'' ''m'' (pe_id p) ?s)" and
    sum: "sum_list (map (\<lambda>p. settled ''g'' ''m'' {pe_id p} s') (group_periods ''g'' ?s)) =
       min (total_credit ''g'' ''m'' ?s + total_paid ''g'' ''m'' ?s) (total_owed ''g'' ''m'' ?s)" by blast
  have v: "min (total_credit ''g'' ''m'' ?s + total_paid ''g'' ''m'' ?s) (total_owed ''g'' ''m'' ?s) = 105"
    "claim_in ''g'' ''m'' ''p1'' ?s = - 5" "claim_in ''g'' ''m'' ''p2'' ?s = 90" "claim_in ''g'' ''m'' ''p3'' ?s = 30"
    by code_simp+
  have ids: "map pe_id (group_periods ''g'' ?s) = [''p2'', ''p3'', ''p1'']" by code_simp
  have rows: "periods ?s ! 0 \<in> set (group_periods ''g'' ?s)" "periods ?s ! 1 \<in> set (group_periods ''g'' ?s)"
    "periods ?s ! 2 \<in> set (group_periods ''g'' ?s)" by code_simp+
  have at: "pe_id (periods ?s ! 0) = ''p2''" "pe_id (periods ?s ! 1) = ''p3''" "pe_id (periods ?s ! 2) = ''p1''"
    "pe_starts_at (periods ?s ! 0) = ''2026-02-01T00:00:00Z''" "pe_starts_at (periods ?s ! 1) = ''2026-01-01T00:00:00Z''"
    by code_simp+
  have "earlier (''2026-01-01T00:00:00Z'', ''p3'') (''2026-02-01T00:00:00Z'', ''p2'')" by (simp add: earlier_def)
  then have first: "0 < settled ''g'' ''m'' {''p2''} s' \<Longrightarrow> settled ''g'' ''m'' {''p3''} s' = 30"
    using order [OF rows(2,1)] unfolding at v by simp
  have "sum_list (map (\<lambda>i. settled ''g'' ''m'' {i} s') (map pe_id (group_periods ''g'' ?s))) = 105"
    using sum unfolding v(1) by (simp add: comp_def)
  then have "settled ''g'' ''m'' {''p2''} s' + settled ''g'' ''m'' {''p3''} s' + settled ''g'' ''m'' {''p1''} s' = 105"
    unfolding ids by simp
  then show ?thesis
    using s' first bounds [OF rows(1)] bounds [OF rows(2)] bounds [OF rows(3)] unfolding at v by auto
qed

lemma rebuilt_keys:
  assumes "allocation_keys s" "\<exists>mr\<in>set (memberships s). ms_id mr = m \<and> ms_group mr = g"
  shows "allocation_keys (rebuilt g m s)"
proof -
  have a: "\<exists>mr\<in>set (memberships s). ms_id mr = aj_membership a \<and> ms_group mr = aj_group a"
    if "a \<in> set (adjustments (rebuilt g m s))" for a
    using that assms by (auto simp: rebuilt_def adjustment_of_def allocation_keys_def)
  have "\<exists>p\<in>set (payments s). py_id p = al_payment a \<and> py_group p = al_group a"
    if "a \<in> set (payment_allocations (rebuilt g m s))" for a
    using that assms(1) by (auto simp: rebuilt_def allocation_of_def allocation_keys_def member_payment_def list_ex_iff
        dest!: fifo_payment_rows)
  with a assms(1) show ?thesis by (simp add: allocation_keys_def) (simp add: rebuilt_def)
qed



end
