(* ===== verification/Paging.thy ===== *)
theory Paging
  imports Prelude
begin

text \<open>
  The contract of a keyset-paginated listing: a page starts behind the row named by the cursor and
  holds at most \<open>n\<close> rows; the cursor of a page names its last row and is empty on the final page.
  Under it, following the cursors from the start yields every row exactly once and in order.
\<close>

locale keyset =
  fixes listing :: "'s \<Rightarrow> 'r list" and ident :: "'r \<Rightarrow> string"
    and fetch :: "'s \<Rightarrow> nat \<Rightarrow> string \<Rightarrow> ('r list \<times> string) option" and ok :: "'s \<Rightarrow> nat \<Rightarrow> bool"
  assumes idents: "ok s n \<Longrightarrow> distinct (map ident (listing s)) \<and> [] \<notin> set (map ident (listing s)) \<and> 0 < n"
    and fetch_start: "ok s n \<Longrightarrow> fetch s n [] = Some (take n (listing s),
          if n < length (listing s) then ident (listing s ! (n - 1)) else [])"
    and fetch_next: "ok s n \<Longrightarrow> i < length (listing s) \<Longrightarrow>
          fetch s n (ident (listing s ! i)) = Some (take n (drop (Suc i) (listing s)),
            if Suc i + n < length (listing s) then ident (listing s ! (i + n)) else [])"
begin

lemma ident_nonempty: "ok s n \<Longrightarrow> j < length (listing s) \<Longrightarrow> ident (listing s ! j) \<noteq> []"
  using idents [of s n] by (metis image_eqI list.set_map nth_mem)

text \<open>A client that follows the cursors, for at most \<open>fuel\<close> pages.\<close>

fun pages :: "nat \<Rightarrow> 's \<Rightarrow> nat \<Rightarrow> string \<Rightarrow> 'r list option" where
  "pages 0 s n cursor = None"
| "pages (Suc fuel) s n cursor = (case fetch s n cursor of None \<Rightarrow> None
     | Some (rows, next_cursor) \<Rightarrow>
         if next_cursor = [] then Some rows
         else (case pages fuel s n next_cursor of None \<Rightarrow> None | Some rest \<Rightarrow> Some (rows @ rest)))"

lemma pages_from:
  assumes ok: "ok s n" and i: "i < length (listing s)" and fuel: "length (listing s) < fuel + Suc i"
    "0 < fuel"
  shows "pages fuel s n (ident (listing s ! i)) = Some (drop (Suc i) (listing s))"
  using i fuel
proof (induction fuel arbitrary: i)
  case (Suc fuel)
  let ?L = "listing s"
  note f = fetch_next [OF ok Suc.prems(1)]
  have n: "0 < n" and ne: "\<And>j. j < length ?L \<Longrightarrow> ident (?L ! j) \<noteq> []"
    using ok ident_nonempty idents by blast+
  show ?case
  proof (cases "Suc i + n < length ?L")
    case True
    have "pages fuel s n (ident (?L ! (i + n))) = Some (drop (Suc (i + n)) ?L)"
      using Suc.prems True n by (intro Suc.IH) auto
    moreover have "take n (drop (Suc i) ?L) @ drop (Suc (i + n)) ?L = drop (Suc i) ?L"
      by (metis add.commute add_Suc append_take_drop_id drop_drop)
    ultimately show ?thesis using f True ne [of "i + n"] by simp
  qed (use f in simp)
qed simp

lemma pages_complete:
  assumes ok: "ok s n" and fuel: "length (listing s) < fuel"
  shows "pages fuel s n [] = Some (listing s)"
proof -
  obtain k where k: "fuel = Suc k" using fuel by (cases fuel) auto
  let ?L = "listing s"
  have n: "0 < n" and ne: "\<And>j. j < length ?L \<Longrightarrow> ident (?L ! j) \<noteq> []"
    using ok ident_nonempty idents by blast+
  show ?thesis
  proof (cases "n < length ?L")
    case True
    have "pages k s n (ident (?L ! (n - 1))) = Some (drop (Suc (n - 1)) ?L)"
      using True n fuel k by (intro pages_from [OF ok]) auto
    then show ?thesis using fetch_start [OF ok] True n ne [of "n - 1"] k by simp
  qed (use fetch_start [OF ok] k in simp)
qed

end

text \<open>Selecting the rows behind a cursor in a strictly ordered listing drops a prefix.\<close>

lemma filter_below:
  assumes "sorted_wrt (\<lambda>x y. f y < f x) (xs :: 'r list)" "i < length xs"
  shows "filter (\<lambda>x. f x < (f (xs ! i) :: 'k::linorder)) xs = drop (Suc i) xs"
  using assms
proof (induction xs arbitrary: i)
  case (Cons x xs)
  show ?case
  proof (cases i)
    case 0
    then show ?thesis using Cons.prems(1) by simp
  next
    case (Suc j)
    then have "f (xs ! j) < f x" using Cons.prems by simp
    then have "\<not> f x < f (xs ! j)" by simp
    then show ?thesis using Suc Cons by simp
  qed
qed simp

lemma sorted_wrt_rev_sort_key:
  assumes "distinct (map f xs)"
  shows "sorted_wrt (\<lambda>x y. f y < f x) (rev (sort_key f xs))"
proof -
  have "distinct (map f (sort_key f xs))" using assms
    by (simp add: distinct_map)
  then have "sorted_wrt (<) (map f (sort_key f xs))" by (simp add: strict_sorted_iff)
  then show ?thesis by (simp add: sorted_wrt_rev sorted_wrt_map)
qed

lemma filter_rev_sort_key: "filter P (rev (sort_key f xs)) = rev (sort_key f (filter P xs))"
  by (simp add: rev_filter [symmetric] filter_sort)

end
