(* ===== verification/Notifications.thy ===== *)
theory Notifications
  imports Database Paging
begin

text \<open>
  \<open>internal/notifications\<close>: the event catalog (\<open>catalog.go\<close>), the creation of a notification with its
  email and push delivery jobs, the delivery policy, the paged inbox and its read marks
  (\<open>service.go\<close>), and the per-event channel preferences of a member (\<open>preferences.go\<close>). The German
  display copy of the catalog is not modelled. The resolver of the instance-wide channel gates is
  a parameter of the service, as in the code.
\<close>

section \<open>The catalog\<close>

record event_definition =
  ed_Type :: string
  ed_Category :: string
  ed_PushTTLSeconds :: int
  ed_PushUrgency :: string
  ed_Reminder :: bool

definition eventCatalog :: "event_definition list" where
  "eventCatalog = map (\<lambda>(t, c, ttl, u, r). \<lparr>ed_Type = t, ed_Category = c, ed_PushTTLSeconds = ttl,
       ed_PushUrgency = u, ed_Reminder = r\<rparr>)
    [(''BOOKING_ASSIGNED'', ''BOOKINGS'', 21600, ''normal'', False),
     (''BOOKING_REVERSED'', ''BOOKINGS'', 21600, ''normal'', False),
     (''PAYMENT_RECORDED'', ''PAYMENTS'', 21600, ''normal'', False),
     (''PAYMENT_REVERSED'', ''PAYMENTS'', 21600, ''normal'', False),
     (''SETTLEMENT_CREATED'', ''SETTLEMENTS'', 86400, ''normal'', False),
     (''SETTLEMENT_DUE_SOON'', ''SETTLEMENTS'', 86400, ''normal'', True),
     (''SETTLEMENT_OVERDUE'', ''SETTLEMENTS'', 86400, ''high'', True),
     (''PLANNING_EVENT_PUBLISHED'', ''PLANNING'', 86400, ''normal'', False),
     (''PLANNING_EVENT_UPDATED'', ''PLANNING'', 86400, ''normal'', False),
     (''PLANNING_EVENT_CANCELLED'', ''PLANNING'', 86400, ''high'', False),
     (''PLANNING_WAITLIST_PROMOTED'', ''PLANNING'', 86400, ''high'', False),
     (''PLANNING_SERIES_PUBLISHED'', ''PLANNING'', 86400, ''normal'', False),
     (''PLANNING_SERIES_UPDATED'', ''PLANNING'', 86400, ''normal'', False),
     (''PLANNING_SERIES_CANCELLED'', ''PLANNING'', 86400, ''high'', False)]"

definition IsPlanningEvent :: "string \<Rightarrow> bool" where
  "IsPlanningEvent eventType \<longleftrightarrow> eventType \<in> set [''PLANNING_EVENT_PUBLISHED'', ''PLANNING_EVENT_UPDATED'',
     ''PLANNING_EVENT_CANCELLED'', ''PLANNING_WAITLIST_PROMOTED'', ''PLANNING_SERIES_PUBLISHED'',
     ''PLANNING_SERIES_UPDATED'', ''PLANNING_SERIES_CANCELLED'']"

definition Definition :: "string \<Rightarrow> event_definition option" where
  "Definition eventType = first_row (\<lambda>d. ed_Type d = eventType) eventCatalog"

definition Catalog :: "event_definition list" where
  "Catalog = sort_key (\<lambda>d. (ed_Category d, ed_Type d)) eventCatalog"

section \<open>Creating a notification\<close>

record channel_availability =
  EmailAvailable :: bool
  PushAvailable :: bool
  PushKeyID :: string

record notification_service =
  EmailDeliveryAvailable :: bool
  PushDeliveryAvailable :: bool
  ResolveChannelAvailability :: "(db \<Rightarrow> channel_availability result) option"

record notification_input =
  ni_GroupID :: string
  ni_MembershipID :: string
  ni_Type :: string
  ni_Title :: string
  ni_Body :: string
  ni_ResourceType :: string
  ni_ResourceID :: string
  ni_Context :: event_context
  ni_CreatedAt :: string

definition channelAvailability :: "notification_service \<Rightarrow> channel_availability dbtx" where
  "channelAvailability svc = (\<lambda>s. case ResolveChannelAvailability svc of
       Some resolve \<Rightarrow> lift_result (resolve s) s
     | None \<Rightarrow> Inr (\<lparr>EmailAvailable = EmailDeliveryAvailable svc, PushAvailable = PushDeliveryAvailable svc,
         PushKeyID = []\<rparr>, s))"

lemmas channelAvailability_run [code] = fun_cong [OF channelAvailability_def]

text \<open>The recipient conditions of the two \<open>INSERT ... SELECT\<close> statements: an active membership of an
  active user that opted into the channel for this event.\<close>

definition opted_in :: "db \<Rightarrow> string \<Rightarrow> string \<Rightarrow> string \<Rightarrow> string \<Rightarrow> bool" where
  "opted_in s groupID membershipID eventType channel =
    list_ex (\<lambda>c. nc_group c = groupID \<and> nc_membership c = membershipID \<and> nc_event c = eventType
      \<and> nc_channel c = channel) (channels s)"

definition recipient_user :: "db \<Rightarrow> string \<Rightarrow> string \<Rightarrow> user_row option" where
  "recipient_user s groupID membershipID =
    (case first_row (\<lambda>m. ms_group m = groupID \<and> ms_id m = membershipID \<and> ms_status m = ''ACTIVE''
        \<and> ms_deleted_at m = None) (memberships s) of
       None \<Rightarrow> None
     | Some m \<Rightarrow> first_row (\<lambda>u. us_id u = ms_user m \<and> us_active u) (users s))"

definition email_jobs :: "db \<Rightarrow> notification_input \<Rightarrow> string \<Rightarrow> job_row list" where
  "email_jobs s input notificationID =
    (case recipient_user s (ni_GroupID input) (ni_MembershipID input) of
       None \<Rightarrow> []
     | Some u \<Rightarrow>
         if us_email u \<noteq> None \<and> opted_in s (ni_GroupID input) (ni_MembershipID input) (ni_Type input) ''EMAIL''
         then [\<lparr>jb_id = notificationID @ ''_email'', jb_notification = notificationID, jb_group = ni_GroupID input,
           jb_channel = ''EMAIL'', jb_membership = Some (ni_MembershipID input), jb_subscription = None,
           jb_status = ''PENDING'', jb_next_attempt_at = Some (ni_CreatedAt input), jb_expires_at = None,
           jb_created_at = ni_CreatedAt input\<rparr>]
         else [])"

definition push_jobs :: "db \<Rightarrow> notification_input \<Rightarrow> string \<Rightarrow> string \<Rightarrow> string \<Rightarrow> job_row list" where
  "push_jobs s input notificationID expiresAt keyID =
    (case recipient_user s (ni_GroupID input) (ni_MembershipID input) of
       None \<Rightarrow> []
     | Some u \<Rightarrow>
         if opted_in s (ni_GroupID input) (ni_MembershipID input) (ni_Type input) ''PUSH''
         then map (\<lambda>sb. \<lparr>jb_id = notificationID @ ''_push_'' @ sb_id sb, jb_notification = notificationID,
             jb_group = ni_GroupID input, jb_channel = ''PUSH'', jb_membership = None,
             jb_subscription = Some (sb_id sb), jb_status = ''PENDING'',
             jb_next_attempt_at = Some (ni_CreatedAt input), jb_expires_at = Some expiresAt,
             jb_created_at = ni_CreatedAt input\<rparr>)
           (filter (\<lambda>sb. sb_user sb = us_id u \<and> sb_revoked_at sb = None \<and> sb_key sb = keyID) (subscriptions s))
         else [])"

definition insert_notification :: "notification_row \<Rightarrow> unit dbtx" where
  "insert_notification = insert_row notifications notifications_update ''notifications''
     (\<lambda>s r. \<exists>m\<in>set (memberships s). ms_group m = nt_group r \<and> ms_id m = nt_membership r)
     (\<lambda>x r. nt_id x = nt_id r)"

lemmas insert_notification_run [code] = fun_cong [OF insert_notification_def]

definition insert_job :: "job_row \<Rightarrow> unit dbtx" where
  "insert_job = insert_row jobs jobs_update ''notification_delivery_jobs'' (\<lambda>_ _. True)
     (\<lambda>x r. jb_id x = jb_id r \<or> jb_notification x = jb_notification r \<and> jb_channel x = jb_channel r \<and>
        (jb_membership r \<noteq> None \<and> jb_membership x = jb_membership r \<or>
         jb_subscription r \<noteq> None \<and> jb_subscription x = jb_subscription r))"

lemmas insert_job_run [code] = fun_cong [OF insert_job_def]

definition trimmed_input :: "notification_input \<Rightarrow> notification_input" where
  "trimmed_input input = input\<lparr>ni_GroupID := TrimSpace (ni_GroupID input),
     ni_MembershipID := TrimSpace (ni_MembershipID input), ni_Type := TrimSpace (ni_Type input),
     ni_Title := TrimSpace (ni_Title input), ni_Body := TrimSpace (ni_Body input),
     ni_ResourceType := TrimSpace (ni_ResourceType input), ni_ResourceID := TrimSpace (ni_ResourceID input)\<rparr>"

definition planning_enabled :: "string \<Rightarrow> db \<Rightarrow> bool option" where
  "planning_enabled groupID s =
     map_option st_planning_enabled (first_row (\<lambda>r. st_group r = groupID) (settings s))"

text \<open>The two channel inserts, guarded by the instance-wide gates.\<close>

definition queue_jobs ::
  "notification_service \<Rightarrow> notification_input \<Rightarrow> event_definition \<Rightarrow> int \<Rightarrow> string \<Rightarrow> unit dbtx" where
  "queue_jobs svc input definition createdAt notificationID =
    tx_bind (channelAvailability svc) (\<lambda>availability.
    tx_bind (gets (\<lambda>s. if EmailAvailable availability then email_jobs s input notificationID else [])) (\<lambda>emails.
    tx_bind (each_tx insert_job emails) (\<lambda>_.
    tx_bind (gets (\<lambda>s. if PushAvailable availability \<and> TrimSpace (PushKeyID availability) \<noteq> []
        then push_jobs s input notificationID
          (Timestamp (createdAt + ed_PushTTLSeconds definition * second)) (PushKeyID availability)
        else [])) (\<lambda>pushes.
    each_tx insert_job pushes))))"

lemmas queue_jobs_run [code] = fun_cong [OF queue_jobs_def]

definition notification_of :: "notification_input \<Rightarrow> string \<Rightarrow> notification_row" where
  "notification_of input notificationID = \<lparr>nt_id = notificationID, nt_group = ni_GroupID input,
     nt_membership = ni_MembershipID input, nt_type = ni_Type input, nt_title = ni_Title input,
     nt_body = ni_Body input, nt_resource_type = nullable (ni_ResourceType input),
     nt_resource_id = nullable (ni_ResourceID input), nt_context = ni_Context input, nt_read_at = None,
     nt_created_at = ni_CreatedAt input\<rparr>"

text \<open>\<open>None\<close> stands for the zero \<open>Notification\<close> the code returns when the planning module is off.\<close>

definition CreateTx :: "env \<Rightarrow> notification_service \<Rightarrow> notification_input \<Rightarrow> notification_row option dbtx" where
  "CreateTx env svc input0 =
    (let input = trimmed_input input0 in
     tx_bind (reject_if (ni_GroupID input = [] \<or> ni_MembershipID input = [] \<or> ni_Type input = [] \<or>
         ni_Title input = [] \<or> ni_Body input = [] \<or> ni_CreatedAt input = [])
       (ErrInternal ''create notification: group, membership, type, copy, and timestamp are required'')) (\<lambda>_.
     tx_bind (the_row (Definition (ni_Type input))
       (ValidationError ''type'' ''contains an unsupported notification event'')) (\<lambda>definition.
     tx_bind (the_row (parse_rfc3339 (ni_CreatedAt input))
       (ValidationError ''createdAt'' ''must be an RFC 3339 timestamp'')) (\<lambda>createdAt.
     tx_bind (if IsPlanningEvent (ni_Type input)
              then tx_bind (gets (planning_enabled (ni_GroupID input))) (\<lambda>r. the_row r ErrNoRows)
              else ret True) (\<lambda>enabled.
     if \<not> enabled then ret None else
     tx_bind (NewID env ''ntf'') (\<lambda>notificationID.
     tx_bind (insert_notification (notification_of input notificationID)) (\<lambda>_.
     tx_bind (queue_jobs svc input definition createdAt notificationID) (\<lambda>_.
     ret (Some (notification_of input notificationID))))))))))"

lemmas CreateTx_run [code] = fun_cong [OF CreateTx_def]

section \<open>Delivery policy\<close>

definition CheckDeliveryPolicy :: "string \<Rightarrow> string \<Rightarrow> string dbtx" where
  "CheckDeliveryPolicy jobID channel = (\<lambda>s.
    if TrimSpace jobID = [] then
      Inl (ErrInternal ''check notification delivery policy: database and job identifier are required'')
    else if channel \<noteq> ''EMAIL'' \<and> channel \<noteq> ''PUSH'' then Inl (ValidationError ''channel'' ''must be EMAIL or PUSH'')
    else case first_row (\<lambda>j. jb_id j = jobID \<and> jb_channel j = channel) (jobs s) of
      None \<Rightarrow> Inr (''recipient_unavailable'', s)
    | Some job \<Rightarrow>
      (case first_row (\<lambda>n. nt_id n = jb_notification job \<and> nt_group n = jb_group job) (notifications s) of
        None \<Rightarrow> Inr (''recipient_unavailable'', s)
      | Some n \<Rightarrow>
        (case (first_row (\<lambda>m. ms_id m = nt_membership n \<and> ms_group m = jb_group job) (memberships s),
               first_row (\<lambda>g. gr_id g = jb_group job) (groups s)) of
          (Some m, Some g) \<Rightarrow>
            (case first_row (\<lambda>u. us_id u = ms_user m) (users s) of
              None \<Rightarrow> Inr (''recipient_unavailable'', s)
            | Some u \<Rightarrow>
              if \<not> (ms_status m = ''ACTIVE'' \<and> ms_deleted_at m = None \<and> us_active u
                    \<and> (channel \<noteq> ''EMAIL'' \<or> us_email u \<noteq> None)) \<or> gr_status g \<noteq> ''ACTIVE''
              then Inr (''recipient_unavailable'', s)
              else if \<not> opted_in s (jb_group job) (nt_membership n) (nt_type n) channel
              then Inr (''preference_disabled'', s)
              else if IsPlanningEvent (nt_type n) \<and> planning_enabled (jb_group job) s \<noteq> Some True
              then Inr (''planning_disabled'', s)
              else Inr ([], s))
        | _ \<Rightarrow> Inr (''recipient_unavailable'', s))))"

section \<open>The inbox\<close>

definition inbox :: "membership \<Rightarrow> db \<Rightarrow> notification_row list" where
  "inbox membership s = rev (sort_key (\<lambda>r. (nt_created_at r, nt_id r))
     (filter (\<lambda>r. nt_group r = m_GroupID membership \<and> nt_membership r = m_ID membership) (notifications s)))"

record notification_page =
  Items :: "notification_row list"
  NextCursor :: string

text \<open>The query of \<open>ListPage\<close>: the rows below the cursor, newest first, one more than the limit.\<close>

definition inbox_rows :: "membership \<Rightarrow> (string \<times> string) option \<Rightarrow> int \<Rightarrow> db \<Rightarrow> notification_row list" where
  "inbox_rows membership bound limit s = take (nat (limit + 1))
     (rev (sort_key (\<lambda>r. (nt_created_at r, nt_id r))
       (filter (\<lambda>r. nt_group r = m_GroupID membership \<and> nt_membership r = m_ID membership \<and>
          (case bound of None \<Rightarrow> True
           | Some (createdAt, cursor) \<Rightarrow> nt_created_at r < createdAt \<or> nt_created_at r = createdAt \<and> nt_id r < cursor))
         (notifications s))))"

definition ListPage :: "membership \<Rightarrow> int \<Rightarrow> string \<Rightarrow> notification_page dbtx" where
  "ListPage membership limit0 cursor0 =
    (let limit = (if limit0 < 1 \<or> limit0 > 200 then 100 else limit0); cursor = TrimSpace cursor0 in
     tx_bind (if cursor \<noteq> [] then
         tx_bind (gets (\<lambda>s. first_row (\<lambda>r. nt_id r = cursor \<and> nt_group r = m_GroupID membership
             \<and> nt_membership r = m_ID membership) (notifications s))) (\<lambda>row.
         tx_bind (the_row row ErrNotFound) (\<lambda>r. ret (Some (nt_created_at r, cursor))))
       else ret None) (\<lambda>bound.
     tx_bind (gets (inbox_rows membership bound limit)) (\<lambda>result.
     ret (if int (length result) > limit
          then \<lparr>Items = take (nat limit) result, NextCursor = nt_id (last (take (nat limit) result))\<rparr>
          else \<lparr>Items = result, NextCursor = []\<rparr>))))"

definition UnreadCount :: "membership \<Rightarrow> int dbtx" where
  "UnreadCount membership = gets (\<lambda>s. int (length (filter (\<lambda>r. nt_group r = m_GroupID membership
     \<and> nt_membership r = m_ID membership \<and> nt_read_at r = None) (notifications s))))"

record read_result =
  UnreadCountAfter :: int
  ReadAt :: string

fun read_ids :: "string list \<Rightarrow> string list \<Rightarrow> string list result" where
  "read_ids seen [] = Inr []"
| "read_ids seen (rawID # rest) =
    (let id = TrimSpace rawID in
     if id = [] then Inl (ValidationError ''notificationIds'' ''must contain non-empty identifiers'')
     else if id \<in> set seen then Inl (ValidationError ''notificationIds'' ''must contain unique identifiers'')
     else (case read_ids (id # seen) rest of Inl e \<Rightarrow> Inl e | Inr ids \<Rightarrow> Inr (id # ids)))"

definition MarkReadMany :: "env \<Rightarrow> membership \<Rightarrow> string list \<Rightarrow> read_result dbtx" where
  "MarkReadMany env membership notificationIDs =
    tx_bind (reject_if (length notificationIDs < 1 \<or> length notificationIDs > 100)
      (ValidationError ''notificationIds'' ''must contain 1 to 100 identifiers'')) (\<lambda>_.
    tx_bind (Now env) (\<lambda>now.
    tx_bind (lift_result (read_ids [] notificationIDs)) (\<lambda>ids.
    tx_bind (modify (notifications_update (update_rows (\<lambda>r. nt_group r = m_GroupID membership
        \<and> nt_membership r = m_ID membership \<and> nt_read_at r = None \<and> nt_id r \<in> set ids)
      (\<lambda>r. r\<lparr>nt_read_at := Some (Timestamp now)\<rparr>)))) (\<lambda>_.
    tx_bind (UnreadCount membership) (\<lambda>unread.
    ret \<lparr>UnreadCountAfter = unread, ReadAt = Timestamp now\<rparr>)))))"

definition MarkRead :: "env \<Rightarrow> membership \<Rightarrow> string \<Rightarrow> bool \<Rightarrow> notification_row dbtx" where
  "MarkRead env membership notificationID read =
    tx_bind (if read then tx_bind (Now env) (\<lambda>now. ret (Some (Timestamp now))) else ret None) (\<lambda>readAt.
    let mine = (\<lambda>r. nt_id r = notificationID \<and> nt_group r = m_GroupID membership \<and> nt_membership r = m_ID membership) in
    tx_bind (gets (\<lambda>s. length (filter mine (notifications s)))) (\<lambda>changed.
    tx_bind (modify (notifications_update (update_rows mine (\<lambda>r. r\<lparr>nt_read_at := readAt\<rparr>)))) (\<lambda>_.
    tx_bind (reject_if (changed = 0) ErrNotFound) (\<lambda>_.
    tx_bind (gets (\<lambda>s. first_row (\<lambda>r. nt_id r = notificationID) (notifications s))) (\<lambda>row. the_row row ErrNotFound)))))"

definition DestinationForUser :: "string \<Rightarrow> string \<Rightarrow> string dbtx" where
  "DestinationForUser userID0 notificationID0 = (\<lambda>s.
    let userID = TrimSpace userID0; notificationID = TrimSpace notificationID0 in
    if userID = [] \<or> notificationID = [] then Inl ErrNotFound
    else case first_row (\<lambda>n. nt_id n = notificationID) (notifications s) of
      None \<Rightarrow> Inl ErrNotFound
    | Some n \<Rightarrow>
      if list_ex (\<lambda>m. ms_id m = nt_membership n \<and> ms_group m = nt_group n \<and> ms_user m = userID
             \<and> ms_status m = ''ACTIVE'' \<and> ms_deleted_at m = None) (memberships s)
         \<and> list_ex (\<lambda>u. us_id u = userID \<and> us_active u) (users s)
         \<and> list_ex (\<lambda>g. gr_id g = nt_group n \<and> gr_status g = ''ACTIVE'') (groups s)
      then Inr (nt_group n, s) else Inl ErrNotFound)"

section \<open>Preferences\<close>

record event_preference =
  ep_Type :: string
  ep_Email :: bool
  ep_Push :: bool
  ep_EmailAvailable :: bool
  ep_PushAvailable :: bool

record preferences =
  Version :: int
  AvailableChannels :: "string list"
  Events :: "event_preference list"

record preference_update =
  pu_Type :: string
  pu_Email :: "bool option"
  pu_Push :: "bool option"

record module_availability =
  planningEnabled :: bool
  settlementsEnabled :: bool

definition readNotificationModuleAvailability :: "string \<Rightarrow> module_availability dbtx" where
  "readNotificationModuleAvailability groupID =
    tx_bind (gets (\<lambda>s. first_row (\<lambda>r. st_group r = groupID) (settings s))) (\<lambda>row.
    tx_bind (the_row row ErrNoRows) (\<lambda>r.
    ret \<lparr>planningEnabled = st_planning_enabled r, settlementsEnabled = st_settlements r\<rparr>))"

definition allows :: "module_availability \<Rightarrow> string \<Rightarrow> bool" where
  "allows availability eventType =
    (if IsPlanningEvent eventType then planningEnabled availability
     else if eventType \<in> set [''SETTLEMENT_CREATED'', ''SETTLEMENT_DUE_SOON'', ''SETTLEMENT_OVERDUE'']
     then settlementsEnabled availability else True)"

definition availableChannels :: "channel_availability \<Rightarrow> string list" where
  "availableChannels availability =
    (if EmailAvailable availability then [''EMAIL''] else []) @
    (if PushAvailable availability then [''PUSH''] else [])"

definition requireActiveMembership :: "membership \<Rightarrow> unit dbtx" where
  "requireActiveMembership membership =
    tx_bind (gets (\<lambda>s. list_ex (\<lambda>m. ms_id m = m_ID membership \<and> ms_group m = m_GroupID membership
      \<and> ms_status m = ''ACTIVE'' \<and> ms_deleted_at m = None) (memberships s))) (\<lambda>active.
    reject_if (\<not> active) ErrNotFound)"

definition setPreference :: "membership \<Rightarrow> string \<Rightarrow> string \<Rightarrow> bool \<Rightarrow> bool dbtx" where
  "setPreference membership eventType channel enabled =
    (let row = \<lparr>nc_group = m_GroupID membership, nc_membership = m_ID membership, nc_event = eventType,
           nc_channel = channel\<rparr> in
     if \<not> enabled then
       tx_bind (gets (\<lambda>s. row \<in> set (channels s))) (\<lambda>affected.
       tx_bind (modify (channels_update (filter (\<lambda>c. c \<noteq> row)))) (\<lambda>_. ret affected))
     else
       tx_bind (gets (\<lambda>s. list_ex (\<lambda>c. nc_membership c = m_ID membership \<and> nc_event c = eventType
           \<and> nc_channel c = channel) (channels s))) (\<lambda>conflict.
       if conflict then ret False
       else tx_bind (modify (channels_update (\<lambda>cs. cs @ [row]))) (\<lambda>_. ret True)))"

definition preference_version :: "membership \<Rightarrow> int dbtx" where
  "preference_version membership =
    tx_bind (gets (\<lambda>s. first_row (\<lambda>r. ns_group r = m_GroupID membership \<and> ns_membership r = m_ID membership)
      (preference_settings s))) (\<lambda>row.
    tx_bind (the_row row ErrNoRows) (\<lambda>r. ret (ns_version r)))"

definition GetPreferences :: "notification_service \<Rightarrow> membership \<Rightarrow> preferences dbtx" where
  "GetPreferences svc membership =
    tx_bind (requireActiveMembership membership) (\<lambda>_.
    tx_bind (channelAvailability svc) (\<lambda>availability.
    tx_bind (preference_version membership) (\<lambda>version.
    tx_bind (readNotificationModuleAvailability (m_GroupID membership)) (\<lambda>modules.
    tx_bind (gets (\<lambda>s. map (\<lambda>t. \<lparr>ep_Type = t,
        ep_Email = opted_in s (m_GroupID membership) (m_ID membership) t ''EMAIL'',
        ep_Push = opted_in s (m_GroupID membership) (m_ID membership) t ''PUSH'',
        ep_EmailAvailable = EmailAvailable availability, ep_PushAvailable = PushAvailable availability\<rparr>)
      (filter (allows modules) (sort (map ed_Type eventCatalog))))) (\<lambda>events.
    ret \<lparr>Version = version, AvailableChannels = availableChannels availability, Events = events\<rparr>)))))"

fun check_updates :: "string list \<Rightarrow> preference_update list \<Rightarrow> unit result" where
  "check_updates seen [] = Inr ()"
| "check_updates seen (u # us) =
    (if Definition (pu_Type u) = None then
       Inl (ValidationError ''events.type'' ''contains an unsupported notification event'')
     else if pu_Type u \<in> set seen then Inl (ValidationError ''events'' ''must contain unique event types'')
     else if pu_Email u = None \<and> pu_Push u = None then
       Inl (ValidationError ''events'' ''each event must change at least one channel'')
     else check_updates (pu_Type u # seen) us)"

definition update_channel ::
  "membership \<Rightarrow> string \<Rightarrow> string \<Rightarrow> bool \<Rightarrow> error \<Rightarrow> bool option \<Rightarrow> bool dbtx" where
  "update_channel membership eventType channel available e choice =
    (case choice of None \<Rightarrow> ret False
     | Some enabled \<Rightarrow> tx_bind (reject_if (\<not> available) e) (\<lambda>_. setPreference membership eventType channel enabled))"

fun apply_updates ::
  "channel_availability \<Rightarrow> module_availability \<Rightarrow> membership \<Rightarrow> preference_update list \<Rightarrow> bool dbtx" where
  "apply_updates availability modules membership [] = ret False"
| "apply_updates availability modules membership (u # us) =
    tx_bind (reject_if (\<not> allows modules (pu_Type u))
      (ValidationError ''events.type'' ''can only change events exposed by an enabled module'')) (\<lambda>_.
    tx_bind (update_channel membership (pu_Type u) ''EMAIL'' (EmailAvailable availability)
      (ValidationError ''events.email'' ''cannot be changed while email delivery is unavailable'') (pu_Email u)) (\<lambda>c1.
    tx_bind (update_channel membership (pu_Type u) ''PUSH'' (PushAvailable availability)
      (ValidationError ''events.push'' ''cannot be changed while push delivery is unavailable'') (pu_Push u)) (\<lambda>c2.
    tx_bind (apply_updates availability modules membership us) (\<lambda>c3. ret (c1 \<or> c2 \<or> c3)))))"

definition update_preferences_tx ::
  "env \<Rightarrow> notification_service \<Rightarrow> membership \<Rightarrow> preference_update list \<Rightarrow> int \<Rightarrow> unit dbtx" where
  "update_preferences_tx env svc membership events expectedVersion =
    tx_bind (requireActiveMembership membership) (\<lambda>_.
    tx_bind (channelAvailability svc) (\<lambda>availability.
    tx_bind (preference_version membership) (\<lambda>currentVersion.
    tx_bind (reject_if (currentVersion \<noteq> expectedVersion) ErrPrecondition) (\<lambda>_.
    tx_bind (readNotificationModuleAvailability (m_GroupID membership)) (\<lambda>modules.
    tx_bind (Now env) (\<lambda>now.
    tx_bind (apply_updates availability modules membership events) (\<lambda>changed.
    if changed then
      (let current = (\<lambda>r. ns_group r = m_GroupID membership \<and> ns_membership r = m_ID membership
             \<and> ns_version r = expectedVersion) in
       tx_bind (gets (\<lambda>s. length (filter current (preference_settings s)))) (\<lambda>affected.
       tx_bind (reject_if (affected \<noteq> 1) ErrPrecondition) (\<lambda>_.
       modify (preference_settings_update (update_rows current (\<lambda>r. r\<lparr>ns_version := ns_version r + 1\<rparr>))))))
    else ret ())))))))"

text \<open>The updated matrix is read in a second transaction, after the first one has been committed.\<close>

definition UpdatePreferences ::
  "env \<Rightarrow> notification_service \<Rightarrow> membership \<Rightarrow> preference_update list \<Rightarrow> int \<Rightarrow> db \<Rightarrow> preferences result \<times> db" where
  "UpdatePreferences env svc membership events expectedVersion s =
    (if expectedVersion < 1 then (Inl ErrPrecondition, s)
     else if events = [] \<or> length events > length eventCatalog then
       (Inl (ValidationError ''events'' ''must contain 1 to 14 event updates''), s)
     else case check_updates [] events of Inl e \<Rightarrow> (Inl e, s)
     | Inr _ \<Rightarrow>
       (case WithTx (update_preferences_tx env svc membership events expectedVersion) s of
          (Inl e, s') \<Rightarrow> (Inl e, s')
        | (Inr _, s') \<Rightarrow> WithTx (GetPreferences svc membership) s'))"

section \<open>Effects\<close>

interpretation jobs: table jobs jobs_update
  by unfold_locales simp_all

lemma each_insert_job: "each_tx insert_job js s = Inr ((), s') \<Longrightarrow> s' = s\<lparr>jobs := jobs s @ js\<rparr>"
  unfolding insert_job_def by (drule jobs.each_insert_Inr [where mk = "\<lambda>r. r", simplified]) simp

lemma channelAvailability_state: "channelAvailability svc s = Inr (a, s') \<Longrightarrow> s' = s"
  by (auto simp: channelAvailability_def split: option.splits)

lemma first_row_in: "x \<in> set xs \<Longrightarrow> P x \<Longrightarrow> first_row P xs \<noteq> None"
  by (auto simp: first_row_None)

text \<open>What a successful \<open>CreateTx\<close> leaves behind.\<close>

definition queued_jobs ::
  "db \<Rightarrow> channel_availability \<Rightarrow> notification_input \<Rightarrow> string \<Rightarrow> string \<Rightarrow> job_row list" where
  "queued_jobs s availability input notificationID expiresAt =
     (if EmailAvailable availability then email_jobs s input notificationID else []) @
     (if PushAvailable availability \<and> TrimSpace (PushKeyID availability) \<noteq> []
      then push_jobs s input notificationID expiresAt (PushKeyID availability) else [])"

lemma recipient_frame [simp]:
  "recipient_user (s\<lparr>notifications := a\<rparr>) g m = recipient_user s g m"
  "recipient_user (s\<lparr>random_reads := b\<rparr>) g m = recipient_user s g m"
  "recipient_user (s\<lparr>jobs := c\<rparr>) g m = recipient_user s g m"
  "opted_in (s\<lparr>notifications := a\<rparr>) g m e = opted_in s g m e"
  "opted_in (s\<lparr>random_reads := b\<rparr>) g m e = opted_in s g m e"
  "opted_in (s\<lparr>jobs := c\<rparr>) g m e = opted_in s g m e"
  by (simp_all add: recipient_user_def opted_in_def fun_eq_iff split: option.split)

lemma jobs_of_frame [simp]:
  "email_jobs (s\<lparr>notifications := a\<rparr>) i n = email_jobs s i n" "email_jobs (s\<lparr>random_reads := b\<rparr>) i n = email_jobs s i n"
  "push_jobs (s\<lparr>notifications := a\<rparr>) i n x k = push_jobs s i n x k"
  "push_jobs (s\<lparr>random_reads := b\<rparr>) i n x k = push_jobs s i n x k"
  "push_jobs (s\<lparr>jobs := c\<rparr>) i n x k = push_jobs s i n x k"
  by (simp_all add: email_jobs_def push_jobs_def split: option.split)

lemma queue_jobs_effect:
  assumes "queue_jobs svc input definition createdAt n s = Inr (u, s')"
  shows "\<exists>availability. channelAvailability svc s = Inr (availability, s) \<and>
    s' = s\<lparr>jobs := jobs s @ queued_jobs s availability input n
      (Timestamp (createdAt + ed_PushTTLSeconds definition * second))\<rparr>"
proof -
  obtain availability s1 where a: "channelAvailability svc s = Inr (availability, s1)"
    using assms by (auto simp: queue_jobs_def bind_eq_Inr)
  have [simp]: "s1 = s" using channelAvailability_state [OF a] .
  have "s' = s\<lparr>jobs := jobs s @ queued_jobs s availability input n
      (Timestamp (createdAt + ed_PushTTLSeconds definition * second))\<rparr>"
    using assms a unfolding queue_jobs_def queued_jobs_def
    by (auto simp: bind_eq_Inr dest!: each_insert_job)
  then show ?thesis using a by auto
qed

lemma CreateTx_None:
  assumes "CreateTx env svc input s = Inr (None, s')"
  shows "s' = s \<and> IsPlanningEvent (TrimSpace (ni_Type input)) \<and>
    planning_enabled (TrimSpace (ni_GroupID input)) s = Some False"
  using assms
  by (auto simp: CreateTx_def trimmed_input_def Let_def bind_eq_Inr split: if_splits)

text \<open>What a successful \<open>CreateTx\<close> leaves behind.\<close>

lemma CreateTx_Some:
  assumes "CreateTx env svc input s = Inr (Some row, s')"
  shows "\<exists>s1 availability expiresAt. s1 = s\<lparr>random_reads := Suc (random_reads s), notifications := notifications s @ [row]\<rparr> \<and>
    s' = s1\<lparr>jobs := jobs s @ queued_jobs s availability (trimmed_input input) (nt_id row) expiresAt\<rparr> \<and>
    channelAvailability svc s1 = Inr (availability, s1) \<and>
    (\<exists>notificationID. row = notification_of (trimmed_input input) notificationID) \<and>
    (\<forall>x\<in>set (notifications s). nt_id x \<noteq> nt_id row) \<and>
    (\<exists>m\<in>set (memberships s). ms_group m = nt_group row \<and> ms_id m = nt_membership row) \<and>
    Definition (nt_type row) \<noteq> None \<and>
    (IsPlanningEvent (nt_type row) \<longrightarrow> planning_enabled (nt_group row) s = Some True)"
proof -
  let ?i = "trimmed_input input"
  obtain d c n where type: "Definition (ni_Type ?i) = Some d"
    and planning: "IsPlanningEvent (ni_Type ?i) \<longrightarrow> planning_enabled (ni_GroupID ?i) s = Some True"
    and row: "row = notification_of ?i n"
    and step: "tx_bind (insert_notification row) (\<lambda>_. queue_jobs svc ?i d c n) (s\<lparr>random_reads := Suc (random_reads s)\<rparr>)
      = Inr ((), s')"
    using assms
    by (auto simp: CreateTx_def Let_def bind_eq_Inr NewID_def split: if_split_asm)
  let ?s1 = "s\<lparr>random_reads := Suc (random_reads s), notifications := notifications s @ [row]\<rparr>"
  have ins: "\<forall>x\<in>set (notifications s). nt_id x \<noteq> nt_id row"
    "\<exists>m\<in>set (memberships s). ms_group m = nt_group row \<and> ms_id m = nt_membership row"
    and queue: "queue_jobs svc ?i d c n ?s1 = Inr ((), s')"
    using step by (auto simp: bind_eq_Inr insert_notification_def insert_row_Inr)
  obtain av where av: "channelAvailability svc ?s1 = Inr (av, ?s1)"
    "s' = ?s1\<lparr>jobs := jobs s @ queued_jobs ?s1 av ?i n (Timestamp (c + ed_PushTTLSeconds d * second))\<rparr>"
    using queue_jobs_effect [OF queue] by auto
  have "queued_jobs ?s1 av ?i n x = queued_jobs s av ?i n x" for x
    by (simp add: queued_jobs_def)
  then show ?thesis using av ins row type planning
    by (intro exI [of _ ?s1] exI [of _ av] exI [of _ "Timestamp (c + ed_PushTTLSeconds d * second)"])
      (auto simp: notification_of_def)
qed

lemma preserves_CreateTx [pres_intros]:
  assumes "\<And>s ns n js. P s \<Longrightarrow> P (s\<lparr>random_reads := n, notifications := ns, jobs := js\<rparr>)"
  shows "preserves P (CreateTx env svc input)"
proof (rule validI)
  fix s r s'
  assume "P s" "CreateTx env svc input s = Inr (r, s')"
  then show "P s'" using assms CreateTx_None CreateTx_Some by (cases r) (blast, metis)
qed

section \<open>An example\<close>

text \<open>A group with one member that wants emails about bookings.\<close>

definition one_reader :: db where
  "one_reader = empty_db\<lparr>
     groups := [\<lparr>gr_id = ''g'', gr_currency = ''EUR'', gr_status = ''ACTIVE''\<rparr>],
     users := [\<lparr>us_id = ''u'', us_email = Some ''u@example.org'', us_display_name = ''U'', us_password_hash = Some ''x'',
       us_active = True, us_avatar_key = None\<rparr>],
     memberships := [\<lparr>ms_id = ''m'', ms_group = ''g'', ms_user = ''u'', ms_status = ''ACTIVE'', ms_guest_key = None,
       ms_deleted_at = None\<rparr>],
     settings := [\<lparr>st_group = ''g'', st_settlements = True, st_own_booking_mode = ''OFF'',
       st_foreign_booking_mode = ''OFF'', st_own_payment_mode = ''OFF'', st_other_payment_mode = ''OFF'',
       st_external_enabled = False, st_external_version = 1, st_planning_enabled = False, st_statistics_enabled = False\<rparr>],
     channels := [\<lparr>nc_group = ''g'', nc_membership = ''m'', nc_event = ''BOOKING_ASSIGNED'', nc_channel = ''EMAIL''\<rparr>],
     preference_settings := [\<lparr>ns_group = ''g'', ns_membership = ''m'', ns_version = 1\<rparr>]\<rparr>"

definition mail_only :: notification_service where
  "mail_only = \<lparr>EmailDeliveryAvailable = True, PushDeliveryAvailable = False, ResolveChannelAvailability = None\<rparr>"

definition reader :: membership where
  "reader = \<lparr>m_ID = ''m'', m_GroupID = ''g'', m_UserID = ''u'', m_DisplayName = ''U'', m_AvatarURL = []\<rparr>"

definition fixed_env :: env where
  "fixed_env = \<lparr>env_now = (\<lambda>n. 1767225600000000000 + int n), env_random = (\<lambda>n. replicate (Suc n) (CHR ''a'')),
     env_hash = (\<lambda>_. ''digest'')\<rparr>"

definition booking_notice :: notification_input where
  "booking_notice = \<lparr>ni_GroupID = ''g'', ni_MembershipID = ''m'', ni_Type = ''BOOKING_ASSIGNED'',
     ni_Title = ''Neue Buchung'', ni_Body = ''Kaffee'', ni_ResourceType = ''booking'', ni_ResourceID = ''b'',
     ni_Context = no_context, ni_CreatedAt = ''2026-01-01T00:00:00Z''\<rparr>"

section \<open>Properties\<close>

subsection \<open>Queued deliveries\<close>

lemma preserves_job_ids: "preserves (\<lambda>s. distinct (map jb_id (jobs s))) (each_tx insert_job js)"
  unfolding insert_job_def by (intro pres_intros preserves_insert_row) auto

lemma CreateTx_job_ids:
  assumes "CreateTx env svc input s = Inr (r, s')" "distinct (map jb_id (jobs s))"
  shows "distinct (map jb_id (jobs s'))"
proof -
  have "preserves (\<lambda>s. distinct (map jb_id (jobs s))) (CreateTx env svc input)"
    unfolding CreateTx_def queue_jobs_def insert_notification_def Let_def
    by (intro pres_intros preserves_insert_row preserves_job_ids)
      (auto simp: valid_def dest: channelAvailability_state)
  then show ?thesis using assms by (auto simp: valid_def)
qed

lemma queued_jobs_eligible:
  assumes "j \<in> set (queued_jobs s availability input n x)"
  shows "jb_notification j = n \<and> jb_group j = ni_GroupID input \<and> (\<exists>k. jb_id j = n @ CHR ''_'' # k) \<and>
    (jb_channel j = ''EMAIL'' \<or> jb_channel j = ''PUSH'') \<and>
    opted_in s (ni_GroupID input) (ni_MembershipID input) (ni_Type input) (jb_channel j) \<and>
    (\<exists>u. recipient_user s (ni_GroupID input) (ni_MembershipID input) = Some u \<and>
      (jb_channel j = ''EMAIL'' \<longrightarrow> us_email u \<noteq> None))"
  using assms
  by (auto simp: queued_jobs_def email_jobs_def push_jobs_def dest: sym split: if_splits option.splits)

text \<open>C11. Every delivery job that \<open>CreateTx\<close> queues belongs to the new notification and passes
  \<open>CheckDeliveryPolicy\<close>: nothing is queued for a member that is inactive, has no address or did not
  opt into the channel, and nothing is queued only to be discarded later. The inbox row itself is
  always written.\<close>

theorem CreateTx_jobs_deliverable:
  assumes run: "CreateTx env svc input s = Inr (Some row, s')"
    and keys: "distinct (map ms_id (memberships s))" "distinct (map us_id (users s))"
      "distinct (map gr_id (groups s))" "distinct (map jb_id (jobs s))" "distinct (map nt_id (notifications s))"
    and group: "\<exists>g\<in>set (groups s). gr_id g = nt_group row \<and> gr_status g = ''ACTIVE''"
  shows "notifications s' = notifications s @ [row] \<and>
    (\<exists>new. jobs s' = jobs s @ new \<and> (\<forall>j\<in>set new. jb_notification j = nt_id row \<and>
       CheckDeliveryPolicy (jb_id j) (jb_channel j) s' = Inr ([], s')))"
proof -
  let ?i = "trimmed_input input"
  obtain availability x where
    s': "s' = s\<lparr>random_reads := Suc (random_reads s), notifications := notifications s @ [row],
      jobs := jobs s @ queued_jobs s availability ?i (nt_id row) x\<rparr>"
    and row: "nt_group row = ni_GroupID ?i" "nt_membership row = ni_MembershipID ?i" "nt_type row = ni_Type ?i"
    and fresh: "\<forall>x\<in>set (notifications s). nt_id x \<noteq> nt_id row"
    and planning: "IsPlanningEvent (nt_type row) \<longrightarrow> planning_enabled (nt_group row) s = Some True"
  proof -
    obtain s1 av x n where "s1 = s\<lparr>random_reads := Suc (random_reads s), notifications := notifications s @ [row]\<rparr>"
      "s' = s1\<lparr>jobs := jobs s @ queued_jobs s av ?i (nt_id row) x\<rparr>" "row = notification_of ?i n"
      "\<forall>x\<in>set (notifications s). nt_id x \<noteq> nt_id row"
      "IsPlanningEvent (nt_type row) \<longrightarrow> planning_enabled (nt_group row) s = Some True"
      using CreateTx_Some [OF run] by blast
    then show ?thesis by (intro that [of av x]) (simp_all add: notification_of_def)
  qed
  have ntf: "\<exists>k. nt_id row = ''ntf_'' @ k"
  proof -
    have "TrimSpace ''ntf'' = ''ntf''" by code_simp
    then show ?thesis using run
      by (auto simp: CreateTx_def Let_def bind_eq_Inr NewID_def notification_of_def split: if_split_asm)
  qed
  have policy: "CheckDeliveryPolicy (jb_id j) (jb_channel j) s' = Inr ([], s')"
    if j: "j \<in> set (queued_jobs s availability ?i (nt_id row) x)" for j
  proof -
    note e = queued_jobs_eligible [OF j]
    have "\<exists>r. jb_id j = CHR ''n'' # r" using e ntf by auto
    then have "TrimSpace (jb_id j) \<noteq> []" using TrimSpace_starts [of "CHR ''n''"] by (auto simp: IsSpace_def)
    moreover have "first_row (\<lambda>j'. jb_id j' = jb_id j \<and> jb_channel j' = jb_channel j) (jobs s') = Some j"
      using CreateTx_job_ids [OF run keys(4)] j by (intro first_row_unique [where f = jb_id]) (auto simp: s')
    moreover have "first_row (\<lambda>n. nt_id n = jb_notification j \<and> nt_group n = jb_group j) (notifications s') = Some row"
      using e row fresh keys(5) by (intro first_row_unique [where f = nt_id]) (auto simp: s')
    moreover obtain m u where m: "m \<in> set (memberships s)" "ms_group m = ni_GroupID ?i" "ms_id m = ni_MembershipID ?i"
        "ms_status m = ''ACTIVE''" "ms_deleted_at m = None"
      and u: "u \<in> set (users s)" "us_id u = ms_user m" "us_active u" "jb_channel j = ''EMAIL'' \<longrightarrow> us_email u \<noteq> None"
      using e by (auto simp: recipient_user_def split: option.splits dest!: first_row_Some)
    moreover have "first_row (\<lambda>m'. ms_id m' = nt_membership row \<and> ms_group m' = jb_group j) (memberships s') = Some m"
      using keys(1) m row e by (intro first_row_unique [where f = ms_id]) (auto simp: s')
    moreover have "first_row (\<lambda>u'. us_id u' = ms_user m) (users s') = Some u"
      using keys(2) u by (intro first_row_unique [where f = us_id]) (auto simp: s')
    moreover obtain g where "g \<in> set (groups s)" "gr_id g = jb_group j" "gr_status g = ''ACTIVE''"
      using group row e by auto
    moreover from this have "first_row (\<lambda>g'. gr_id g' = jb_group j) (groups s') = Some g"
      using keys(3) by (intro first_row_unique [where f = gr_id]) (auto simp: s')
    ultimately show ?thesis using e row planning
      by (auto simp: CheckDeliveryPolicy_def s' planning_enabled_def)
  qed
  show ?thesis using policy queued_jobs_eligible by (auto simp: s')
qed

definition noticed :: "(notification_row option \<times> db) result" where
  "noticed = CreateTx fixed_env mail_only booking_notice one_reader"

theorem CreateTx_jobs_deliverable_witness:
  "\<exists>row s' j. noticed = Inr (Some row, s') \<and> jobs s' = [j] \<and> CheckDeliveryPolicy (jb_id j) (jb_channel j) s' = Inr ([], s')"
proof -
  have "\<not> isl noticed \<and> fst (projr noticed) \<noteq> None \<and> length (jobs (snd (projr noticed))) = 1 \<and>
      nt_group (the (fst (projr noticed))) = ''g''"
    by code_simp
  then obtain row s' where run: "noticed = Inr (Some row, s')" and n: "length (jobs s') = 1" and g: "nt_group row = ''g''"
    using run_Inr [of noticed] by (metis option.collapse)
  obtain new where new: "jobs s' = jobs one_reader @ new"
    and policy: "\<forall>j\<in>set new. jb_notification j = nt_id row \<and>
      CheckDeliveryPolicy (jb_id j) (jb_channel j) s' = Inr ([], s')"
    using CreateTx_jobs_deliverable [OF run [unfolded noticed_def]] g by (auto simp: one_reader_def empty_db_def)
  have "jobs one_reader = []" by code_simp
  with n new obtain j where "new = [j]" by (cases new) auto
  then show ?thesis using run new policy \<open>jobs one_reader = []\<close> by auto
qed

subsection \<open>The paged inbox\<close>

definition page_of :: "membership \<times> db \<Rightarrow> nat \<Rightarrow> string \<Rightarrow> (notification_row list \<times> string) option" where
  "page_of = (\<lambda>(m, s) n cursor. case ListPage m (int n) cursor s of
     Inl _ \<Rightarrow> None | Inr (p, _) \<Rightarrow> Some (Items p, NextCursor p))"

definition pageable :: "membership \<times> db \<Rightarrow> nat \<Rightarrow> bool" where
  "pageable = (\<lambda>(m, s) n. distinct (map nt_id (notifications s)) \<and> 1 \<le> n \<and> n \<le> 200 \<and>
     (\<forall>r\<in>set (notifications s). nt_id r \<noteq> [] \<and> TrimSpace (nt_id r) = nt_id r))"

abbreviation mine :: "membership \<Rightarrow> notification_row \<Rightarrow> bool" where
  "mine m r \<equiv> nt_group r = m_GroupID m \<and> nt_membership r = m_ID m"

lemma inbox_sorted:
  assumes "distinct (map nt_id (notifications s))"
  shows "sorted_wrt (\<lambda>x y. (nt_created_at y, nt_id y) < (nt_created_at x, nt_id x)) (inbox m s)"
proof -
  have "distinct (map (\<lambda>r. (nt_created_at r, nt_id r)) (filter (mine m) (notifications s)))"
    using assms by (auto simp: distinct_map inj_on_def)
  then show ?thesis unfolding inbox_def by (rule sorted_wrt_rev_sort_key)
qed

lemma inbox_rows_start: "inbox_rows m None (int n) s = take (Suc n) (inbox m s)"
  by (simp add: inbox_rows_def inbox_def nat_add_distrib)

lemma pair_less: "(a, b) < (c, d) \<longleftrightarrow> a < c \<or> a = c \<and> b < d" for a c :: "'a::linorder" and b d :: "'b::linorder"
  by (auto simp: less_prod_def)

lemma inbox_rows_behind:
  assumes "distinct (map nt_id (notifications s))" "i < length (inbox m s)"
  shows "inbox_rows m (Some (nt_created_at (inbox m s ! i), nt_id (inbox m s ! i))) (int n) s
    = take (Suc n) (drop (Suc i) (inbox m s))"
proof -
  let ?f = "\<lambda>r. (nt_created_at r, nt_id r)" and ?r = "inbox m s ! i"
  have "filter (\<lambda>r. ?f r < ?f ?r) (inbox m s) = drop (Suc i) (inbox m s)"
    using filter_below [of ?f "inbox m s" i] inbox_sorted [OF assms(1)] assms(2) by simp
  moreover have "filter (\<lambda>r. ?f r < ?f ?r) (inbox m s) = rev (sort_key ?f
      (filter (\<lambda>r. mine m r \<and> ?f r < ?f ?r) (notifications s)))"
    unfolding inbox_def filter_rev_sort_key filter_filter by (simp only: conj_commute)
  ultimately show ?thesis by (simp add: inbox_rows_def nat_add_distrib pair_less conj_assoc del: less_prod_simp)
qed

abbreviation cut_page :: "nat \<Rightarrow> notification_row list \<Rightarrow> notification_page" where
  "cut_page n rows \<equiv> (if int (length rows) > int n
     then \<lparr>Items = take n rows, NextCursor = nt_id (last (take n rows))\<rparr>
     else \<lparr>Items = rows, NextCursor = []\<rparr>)"

lemma last_take: "0 < n \<Longrightarrow> n < length L \<Longrightarrow> last (take n L) = L ! (n - 1)"
  by (subst last_conv_nth) (auto simp: min_def)

lemma take_page: "0 < n \<Longrightarrow> cut_page n (take (Suc n) L) =
    \<lparr>Items = take n L, NextCursor = (if n < length L then nt_id (L ! (n - 1)) else [])\<rparr>"
  by (auto simp: min_def last_take)

lemma page_limit: "1 \<le> n \<Longrightarrow> n \<le> 200 \<Longrightarrow> (if int n < 1 \<or> int n > 200 then 100 else int n) = int n"
  by simp

lemma page_start: "1 \<le> n \<Longrightarrow> n \<le> 200 \<Longrightarrow> page_of (m, s) n [] =
    Some (take n (inbox m s), if n < length (inbox m s) then nt_id (inbox m s ! (n - 1)) else [])"
  by (simp only: page_of_def ListPage_def page_limit Let_def TrimSpace_Nil simp_thms if_False ret_bind
      prod.case bind_Inr [OF gets_apply] inbox_rows_start ret_apply nat_int take_page sum.case option.case
      notification_page.select_convs not_False_eq_True)

lemma page_next:
  assumes "pageable (m, s) n" "i < length (inbox m s)"
  shows "page_of (m, s) n (nt_id (inbox m s ! i)) =
    Some (take n (drop (Suc i) (inbox m s)),
      if Suc i + n < length (inbox m s) then nt_id (inbox m s ! (i + n)) else [])"
proof -
  let ?r = "inbox m s ! i"
  have "?r \<in> set (inbox m s)" using assms(2) by simp
  then have r: "?r \<in> set (notifications s)" "mine m ?r" by (auto simp: inbox_def)
  have keys: "distinct (map nt_id (notifications s))" "TrimSpace (nt_id ?r) = nt_id ?r" "nt_id ?r \<noteq> []"
    "1 \<le> n" "n \<le> 200" using assms(1) r by (auto simp: pageable_def)
  have "first_row (\<lambda>x. nt_id x = nt_id ?r \<and> mine m x) (notifications s) = Some ?r"
    using keys r by (intro first_row_unique [where f = nt_id]) auto
  moreover have "inbox m s ! (i + n) = drop (Suc i) (inbox m s) ! (n - 1)" using assms(2) keys by simp
  ultimately have "ListPage m (int n) (nt_id ?r) s = Inr (cut_page n (take (Suc n) (drop (Suc i) (inbox m s))), s)"
    using keys by (simp add: ListPage_def Let_def inbox_rows_behind [OF keys(1) assms(2)] bind_eq_Inr)
  moreover have "0 < n" using keys by simp
  ultimately have "ListPage m (int n) (nt_id ?r) s = Inr (\<lparr>Items = take n (drop (Suc i) (inbox m s)),
      NextCursor = (if n < length (drop (Suc i) (inbox m s)) then nt_id (drop (Suc i) (inbox m s) ! (n - 1)) else [])\<rparr>, s)"
    using take_page by (simp only:)
  then show ?thesis using keys assms(2) \<open>inbox m s ! (i + n) = _\<close> by (auto simp: page_of_def)
qed

interpretation inbox: keyset "\<lambda>(m, s). inbox m s" nt_id page_of pageable
proof (unfold_locales; clarify)
  fix m s n assume "pageable (m, s) n"
  then show "distinct (map nt_id (inbox m s)) \<and> [] \<notin> set (map nt_id (inbox m s)) \<and> 0 < n"
    by (auto simp: pageable_def inbox_def distinct_map intro: inj_on_subset)
qed (auto simp: page_next, auto simp: page_start pageable_def)

text \<open>C13. A member that reads the inbox page by page, following the cursors, sees every notification of
  its own exactly once, newest first, and never one of another membership or tenant.\<close>

theorem inbox_pages_complete:
  assumes "pageable (m, s) n" "length (notifications s) < fuel"
  shows "inbox.pages fuel (m, s) n [] = Some (inbox m s) \<and>
    (\<forall>r. r \<in> set (inbox m s) \<longleftrightarrow> r \<in> set (notifications s) \<and> nt_group r = m_GroupID m \<and> nt_membership r = m_ID m)"
proof -
  have "length (inbox m s) \<le> length (notifications s)" by (simp add: inbox_def)
  then have "inbox.pages fuel (m, s) n [] = Some (inbox m s)"
    using inbox.pages_complete [OF assms(1), of fuel] assms(2) by simp
  then show ?thesis by (auto simp: inbox_def)
qed

theorem inbox_pages_complete_witness:
  "inbox.pages 4 (reader, one_reader\<lparr>notifications := map (notification_of booking_notice) [''n1'', ''n2'', ''n3'']\<rparr>) 2 []
     = Some (map (notification_of booking_notice) [''n3'', ''n2'', ''n1''])"
proof -
  let ?s = "one_reader\<lparr>notifications := map (notification_of booking_notice) [''n1'', ''n2'', ''n3'']\<rparr>"
  have "pageable (reader, ?s) 2" "length (notifications ?s) < 4" by code_simp+
  moreover have "inbox reader ?s = map (notification_of booking_notice) [''n3'', ''n2'', ''n1'']" by code_simp
  ultimately show ?thesis using inbox_pages_complete [of reader ?s 2 4] by (simp only:)
qed

subsection \<open>Preferences\<close>

text \<open>The choice an update makes for an event and a channel.\<close>

fun requested :: "preference_update list \<Rightarrow> string \<Rightarrow> string \<Rightarrow> bool option" where
  "requested [] e ch = None"
| "requested (u # us) e ch =
    (if pu_Type u = e then (if ch = ''EMAIL'' then pu_Email u else if ch = ''PUSH'' then pu_Push u else None)
     else requested us e ch)"

text \<open>The keys of the channel table: a membership belongs to one group and opts in at most once.\<close>

definition channel_keys :: "membership \<Rightarrow> db \<Rightarrow> bool" where
  "channel_keys m s \<longleftrightarrow> (\<forall>c\<in>set (channels s). nc_membership c = m_ID m \<longrightarrow> nc_group c = m_GroupID m)"

abbreviation opted :: "membership \<Rightarrow> db \<Rightarrow> string \<Rightarrow> string \<Rightarrow> bool" where
  "opted m s e ch \<equiv> opted_in s (m_GroupID m) (m_ID m) e ch"

lemma setPreference_effect:
  assumes "setPreference m e ch b s = Inr (changed, s')" "channel_keys m s"
  shows "s' = s\<lparr>channels := channels s'\<rparr> \<and> channel_keys m s' \<and> (changed \<longleftrightarrow> b \<noteq> opted m s e ch) \<and>
    (\<forall>g' m' e' ch'. opted_in s' g' m' e' ch' =
       (if g' = m_GroupID m \<and> m' = m_ID m \<and> e' = e \<and> ch' = ch then b else opted_in s g' m' e' ch'))"
proof (cases b)
  case True
  then show ?thesis using assms
    by (auto simp: setPreference_def Let_def channel_keys_def opted_in_def list_ex_iff bind_eq_Inr split: if_splits)
next
  case False
  define row where "row = \<lparr>nc_group = m_GroupID m, nc_membership = m_ID m, nc_event = e, nc_channel = ch\<rparr>"
  have run: "changed = (row \<in> set (channels s))" "s' = s\<lparr>channels := filter (\<lambda>c. c \<noteq> row) (channels s)\<rparr>"
    using False assms(1) by (auto simp: setPreference_def Let_def bind_eq_Inr row_def)
  have row: "c = row \<longleftrightarrow> nc_group c = m_GroupID m \<and> nc_membership c = m_ID m \<and> nc_event c = e \<and> nc_channel c = ch" for c
    unfolding row_def by (cases c) auto
  have "opted m s e ch = (row \<in> set (channels s))"
    unfolding opted_in_def row [symmetric] by (auto simp: list_ex_iff)
  moreover have "opted_in s' g' m' e' ch' = (if g' = m_GroupID m \<and> m' = m_ID m \<and> e' = e \<and> ch' = ch then b
      else opted_in s g' m' e' ch')" for g' m' e' ch'
    using False run row by (auto simp: opted_in_def list_ex_iff)
  ultimately show ?thesis using False assms(2) run by (auto simp: channel_keys_def)
qed

lemma update_channel_effect:
  assumes "update_channel m e ch available err choice s = Inr (changed, s')" "channel_keys m s"
  shows "s' = s\<lparr>channels := channels s'\<rparr> \<and> channel_keys m s' \<and>
    (changed \<longleftrightarrow> (\<exists>b. choice = Some b \<and> b \<noteq> opted m s e ch)) \<and>
    (\<forall>g' m' e' ch'. opted_in s' g' m' e' ch' =
       (if g' = m_GroupID m \<and> m' = m_ID m \<and> e' = e \<and> ch' = ch \<and> choice \<noteq> None then the choice
        else opted_in s g' m' e' ch'))"
proof (cases choice)
  case None
  then show ?thesis using assms by (simp add: update_channel_def)
next
  case (Some b)
  then have "setPreference m e ch b s = Inr (changed, s')"
    using assms(1) by (auto simp: update_channel_def bind_eq_Inr)
  from setPreference_effect [OF this assms(2)] Some show ?thesis by auto
qed

lemma ex3_split: "(\<exists>e ch b. P e ch b) \<longleftrightarrow> (\<exists>ch b. P a ch b) \<or> (\<exists>e ch b. e \<noteq> a \<and> P e ch b)"
proof
  assume "\<exists>e ch b. P e ch b"
  then obtain e ch b where "P e ch b" by iprover
  then show "(\<exists>ch b. P a ch b) \<or> (\<exists>e ch b. e \<noteq> a \<and> P e ch b)" by (cases "e = a") iprover+
qed iprover

lemma apply_updates_effect:
  assumes "apply_updates av mods m us s = Inr (changed, s')" "channel_keys m s" "distinct (map pu_Type us)"
  shows "s' = s\<lparr>channels := channels s'\<rparr> \<and>
    (changed \<longleftrightarrow> (\<exists>e ch b. requested us e ch = Some b \<and> b \<noteq> opted m s e ch)) \<and>
    (\<forall>g' m' e ch. opted_in s' g' m' e ch =
       (if g' = m_GroupID m \<and> m' = m_ID m \<and> requested us e ch \<noteq> None then the (requested us e ch)
        else opted_in s g' m' e ch))"
  using assms
proof (induction us arbitrary: s changed)
  case (Cons u us)
  obtain c1 s1 c2 s2 c3 where
    1: "update_channel m (pu_Type u) ''EMAIL'' (EmailAvailable av)
      (ValidationError ''events.email'' ''cannot be changed while email delivery is unavailable'') (pu_Email u) s = Inr (c1, s1)" and
    2: "update_channel m (pu_Type u) ''PUSH'' (PushAvailable av)
      (ValidationError ''events.push'' ''cannot be changed while push delivery is unavailable'') (pu_Push u) s1 = Inr (c2, s2)" and
    3: "apply_updates av mods m us s2 = Inr (c3, s')" and c: "changed = (c1 \<or> c2 \<or> c3)"
    using Cons.prems(1) by (simp add: bind_eq_Inr) blast
  note e1 = update_channel_effect [OF 1 Cons.prems(2)]
  note e2 = update_channel_effect [OF 2 e1 [THEN conjunct2, THEN conjunct1]]
  note e3 = Cons.IH [OF 3 e2 [THEN conjunct2, THEN conjunct1]]
  have none: "requested us (pu_Type u) ch = None" for ch
  proof -
    have "pu_Type u \<notin> set (map pu_Type us)" using Cons.prems(3) by simp
    then show ?thesis by (induction us) auto
  qed
  have d: "distinct (map pu_Type us)" using Cons.prems(3) by simp
  obtain x1 x2 x3 where x: "s1 = s\<lparr>channels := x1\<rparr>" "s2 = s1\<lparr>channels := x2\<rparr>" "s' = s2\<lparr>channels := x3\<rparr>"
    using e1 [THEN conjunct1] e2 [THEN conjunct1] e3 [OF d, THEN conjunct1] by blast
  then have s': "s' = s\<lparr>channels := channels s'\<rparr>" by simp
  have o2: "opted_in s2 g' m' e ch = (if g' = m_GroupID m \<and> m' = m_ID m \<and> e = pu_Type u \<and>
      requested (u # us) e ch \<noteq> None then the (requested (u # us) e ch) else opted_in s g' m' e ch)" for g' m' e ch
    using e1 e2 by auto
  have o3: "opted_in s' g' m' e ch = (if g' = m_GroupID m \<and> m' = m_ID m \<and> requested (u # us) e ch \<noteq> None
      then the (requested (u # us) e ch) else opted_in s g' m' e ch)" for g' m' e ch
    using e3 [OF d] o2 none by auto
  have "c1 \<or> c2 \<longleftrightarrow> (\<exists>ch b. requested (u # us) (pu_Type u) ch = Some b \<and> b \<noteq> opted m s (pu_Type u) ch)"
  proof -
    have "c1 \<longleftrightarrow> (\<exists>b. pu_Email u = Some b \<and> b \<noteq> opted m s (pu_Type u) ''EMAIL'')"
      using e1 by blast
    moreover have "opted m s1 (pu_Type u) ''PUSH'' = opted m s (pu_Type u) ''PUSH''"
      using e1 by simp
    moreover have "c2 \<longleftrightarrow> (\<exists>b. pu_Push u = Some b \<and> b \<noteq> opted m s1 (pu_Type u) ''PUSH'')"
      using e2 by blast
    moreover have split: "(\<exists>ch b. requested (u # us) (pu_Type u) ch = Some b \<and> P ch b) \<longleftrightarrow>
      (\<exists>b. pu_Email u = Some b \<and> P ''EMAIL'' b) \<or> (\<exists>b. pu_Push u = Some b \<and> P ''PUSH'' b)" (is "?l \<longleftrightarrow> ?r") for P
    proof
      show "?l \<Longrightarrow> ?r" by (auto split: if_split_asm)
      assume ?r
      then show ?l
      proof
        assume "\<exists>b. pu_Email u = Some b \<and> P ''EMAIL'' b"
        then show ?l by (intro exI [of _ "''EMAIL''"]) simp
      next
        assume "\<exists>b. pu_Push u = Some b \<and> P ''PUSH'' b"
        then show ?l by (intro exI [of _ "''PUSH''"]) simp
      qed
    qed
    note split [of "\<lambda>ch b. b \<noteq> opted m s (pu_Type u) ch"]
    ultimately show ?thesis by (simp only:)
  qed
  moreover have "c3 \<longleftrightarrow> (\<exists>e ch b. e \<noteq> pu_Type u \<and> requested (u # us) e ch = Some b \<and> b \<noteq> opted m s e ch)"
  proof -
    have "c3 \<longleftrightarrow> (\<exists>e ch b. requested us e ch = Some b \<and> b \<noteq> opted m s2 e ch)" using e3 [OF d] by blast
    also have "\<dots> \<longleftrightarrow> (\<exists>e ch b. e \<noteq> pu_Type u \<and> requested us e ch = Some b \<and> b \<noteq> opted m s2 e ch)"
      using none by (metis option.distinct(1))
    also have "\<dots> \<longleftrightarrow> (\<exists>e ch b. e \<noteq> pu_Type u \<and> requested (u # us) e ch = Some b \<and> b \<noteq> opted m s e ch)"
    proof -
      have "requested (u # us) e ch = requested us e ch \<and> opted m s2 e ch = opted m s e ch"
        if "e \<noteq> pu_Type u" for e ch using that by (simp add: o2)
      then have "e \<noteq> pu_Type u \<and> requested us e ch = Some b \<and> b \<noteq> opted m s2 e ch \<longleftrightarrow>
          e \<noteq> pu_Type u \<and> requested (u # us) e ch = Some b \<and> b \<noteq> opted m s e ch" for e ch b
        by (cases "e = pu_Type u") (simp_all only: simp_thms)
      then show ?thesis by (simp only:)
    qed
    finally show ?thesis .
  qed
  moreover have "(\<exists>e ch b. P e ch b) \<longleftrightarrow> (\<exists>ch b. P a ch b) \<or> (\<exists>e ch b. e \<noteq> a \<and> P e ch b)"
    for P :: "string \<Rightarrow> string \<Rightarrow> bool \<Rightarrow> bool" and a by (rule ex3_split)
  note this [of "\<lambda>e ch b. requested (u # us) e ch = Some b \<and> b \<noteq> opted m s e ch" "pu_Type u"]
  ultimately have "changed \<longleftrightarrow> (\<exists>e ch b. requested (u # us) e ch = Some b \<and> b \<noteq> opted m s e ch)"
    unfolding c disj_assoc [symmetric] by (simp only:)
  then show ?case using s' o3 by (intro conjI) (assumption, assumption, simp only: simp_thms)
qed simp

lemma check_updates_distinct:
  "check_updates seen us = Inr u \<Longrightarrow> distinct (map pu_Type us) \<and> set seen \<inter> pu_Type ` set us = {}"
proof (induction us arbitrary: seen)
  case (Cons x us)
  then have "pu_Type x \<notin> set seen" "check_updates (pu_Type x # seen) us = Inr u"
    by (auto split: if_splits)
  with Cons.IH [OF this(2)] show ?case by auto
qed simp

lemma requireActiveMembership_Inr:
  "requireActiveMembership m s = Inr (u, s') \<Longrightarrow> s' = s"
  by (auto simp: requireActiveMembership_def bind_eq_Inr)

lemma preference_version_Inr:
  "preference_version m s = Inr (v, s') \<Longrightarrow> s' = s"
  by (auto simp: preference_version_def bind_eq_Inr)

lemma readModule_Inr: "readNotificationModuleAvailability g s = Inr (x, s') \<Longrightarrow> s' = s"
  by (auto simp: readNotificationModuleAvailability_def bind_eq_Inr)

lemma GetPreferences_Inr: "GetPreferences svc m s = Inr (p, s') \<Longrightarrow> s' = s"
  unfolding GetPreferences_def
  by (auto elim!: bind_InrE dest!: requireActiveMembership_Inr preference_version_Inr readModule_Inr
      channelAvailability_state)

abbreviation bump :: "membership \<Rightarrow> int \<Rightarrow> preference_settings_row list \<Rightarrow> preference_settings_row list" where
  "bump m v \<equiv> update_rows (\<lambda>r. ns_group r = m_GroupID m \<and> ns_membership r = m_ID m \<and> ns_version r = v)
     (\<lambda>r. r\<lparr>ns_version := ns_version r + 1\<rparr>)"

lemma update_preferences_tx_Inr:
  assumes "update_preferences_tx env svc m events v s = Inr (u, s')"
  obtains av mods changed s2 where
    "requireActiveMembership m s = Inr ((), s)" "channelAvailability svc s = Inr (av, s)"
    "preference_version m s = Inr (v, s)"
    "apply_updates av mods m events (s\<lparr>clock_reads := Suc (clock_reads s)\<rparr>) = Inr (changed, s2)"
    "s' = (if changed then s2\<lparr>preference_settings := bump m v (preference_settings s2)\<rparr> else s2)"
proof -
  obtain u1 s1 where 1: "requireActiveMembership m s = Inr (u1, s1)"
    using assms by (auto simp: update_preferences_tx_def elim: bind_InrE)
  note [simp] = requireActiveMembership_Inr [OF 1]
  obtain av s2 where 2: "channelAvailability svc s = Inr (av, s2)"
    using assms 1 by (auto simp: update_preferences_tx_def elim: bind_InrE)
  note [simp] = channelAvailability_state [OF 2]
  obtain v' s3 where 3: "preference_version m s = Inr (v', s3)"
    using assms 1 2 by (auto simp: update_preferences_tx_def elim: bind_InrE)
  note [simp] = preference_version_Inr [OF 3]
  have [simp]: "v' = v" using assms 1 2 3 by (auto simp: update_preferences_tx_def reject_if_def split: if_splits)
  obtain mods s4 where 4: "readNotificationModuleAvailability (m_GroupID m) s = Inr (mods, s4)"
    using assms 1 2 3 by (auto simp: update_preferences_tx_def elim: bind_InrE)
  note [simp] = readModule_Inr [OF 4]
  obtain changed s5 where
    5: "apply_updates av mods m events (s\<lparr>clock_reads := Suc (clock_reads s)\<rparr>) = Inr (changed, s5)"
    using assms 1 2 3 4 by (auto simp: update_preferences_tx_def Now_def elim: bind_InrE)
  show ?thesis
    using assms 1 2 3 4 5 by (intro that [of av mods changed s5])
      (auto simp: update_preferences_tx_def Now_def Let_def bind_eq_Inr split: if_splits)
qed

text \<open>C12. A successful \<open>UpdatePreferences\<close> is atomic and exact: every requested choice is in force
  afterwards, every other choice of every member is as before, and the version of the member's
  settings moves by one exactly when some choice changed. Under any other version the same update is
  rejected with \<open>ErrPrecondition\<close> and changes nothing.\<close>

theorem UpdatePreferences_exact:
  assumes run: "UpdatePreferences env svc m events v s = (Inr p, s')" and keys: "channel_keys m s"
  shows "(\<forall>g' m' e ch. opted_in s' g' m' e ch =
       (if g' = m_GroupID m \<and> m' = m_ID m \<and> requested events e ch \<noteq> None then the (requested events e ch)
        else opted_in s g' m' e ch)) \<and>
    preference_settings s' = (if \<exists>e ch b. requested events e ch = Some b \<and> b \<noteq> opted_in s (m_GroupID m) (m_ID m) e ch
      then bump m v (preference_settings s) else preference_settings s) \<and>
    (\<forall>v'. v' \<noteq> v \<longrightarrow> UpdatePreferences env svc m events v' s = (Inl ErrPrecondition, s))"
proof -
  obtain u where chk: "check_updates [] events = Inr u" and ev: "\<not> (events = [] \<or> length events > length eventCatalog)"
    and v: "\<not> v < 1"
    using run by (auto simp: UpdatePreferences_def split: if_splits sum.splits)
  obtain u' where tx: "update_preferences_tx env svc m events v s = Inr (u', s')"
    using run chk ev v
    by (auto simp: UpdatePreferences_def WithTx_def split: if_splits sum.splits prod.splits dest!: GetPreferences_Inr)
  obtain av mods changed s2 where
    pre: "requireActiveMembership m s = Inr ((), s)" "channelAvailability svc s = Inr (av, s)"
      "preference_version m s = Inr (v, s)" and
    app: "apply_updates av mods m events (s\<lparr>clock_reads := Suc (clock_reads s)\<rparr>) = Inr (changed, s2)" and
    s': "s' = (if changed then s2\<lparr>preference_settings := bump m v (preference_settings s2)\<rparr> else s2)"
    by (rule update_preferences_tx_Inr [OF tx])
  have "channel_keys m (s\<lparr>clock_reads := Suc (clock_reads s)\<rparr>)" using keys by (simp add: channel_keys_def)
  note e = apply_updates_effect [OF app this check_updates_distinct [OF chk, THEN conjunct1]]
  have frame: "opted_in (s\<lparr>clock_reads := Suc (clock_reads s)\<rparr>) = opted_in s" by (intro ext) (simp add: opted_in_def)
  obtain cs where s2: "s2 = s\<lparr>clock_reads := Suc (clock_reads s), channels := cs\<rparr>" using e [THEN conjunct1] by blast
  have "opted_in s' = opted_in s2" by (intro ext) (simp add: s' opted_in_def)
  then have "\<forall>g' m' e ch. opted_in s' g' m' e ch =
       (if g' = m_GroupID m \<and> m' = m_ID m \<and> requested events e ch \<noteq> None then the (requested events e ch)
        else opted_in s g' m' e ch)"
    using e [THEN conjunct2, THEN conjunct2] unfolding frame by (simp only: simp_thms)
  moreover have "preference_settings s' = (if changed then bump m v (preference_settings s) else preference_settings s)"
    by (simp add: s' s2)
  moreover have "update_preferences_tx env svc m events v' s = Inl ErrPrecondition" if "v' \<noteq> v" for v'
    using pre that by (simp add: update_preferences_tx_def)
  then have "UpdatePreferences env svc m events v' s = (Inl ErrPrecondition, s)" if "v' \<noteq> v" for v'
    using that chk ev by (simp add: UpdatePreferences_def WithTx_def)
  ultimately show ?thesis using e [THEN conjunct2, THEN conjunct1] unfolding frame
    by (intro conjI allI impI) (simp_all only: simp_thms)
qed

definition stop_mail :: "preferences result \<times> db" where
  "stop_mail = UpdatePreferences fixed_env mail_only reader
     [\<lparr>pu_Type = ''BOOKING_ASSIGNED'', pu_Email = Some False, pu_Push = None\<rparr>] 1 one_reader"

theorem UpdatePreferences_exact_witness:
  "\<exists>p s'. stop_mail = (Inr p, s') \<and> \<not> opted_in s' ''g'' ''m'' ''BOOKING_ASSIGNED'' ''EMAIL''"
proof -
  have "\<not> isl (fst stop_mail)" by code_simp
  then obtain p s' where run: "stop_mail = (Inr p, s')" using outcome_Inr by blast
  have "channel_keys reader one_reader" by code_simp
  note exact = UpdatePreferences_exact [OF run [unfolded stop_mail_def] this, THEN conjunct1, rule_format,
      of "''g''" "''m''" "''BOOKING_ASSIGNED''" "''EMAIL''"]
  have "m_GroupID reader = ''g''" "m_ID reader = ''m''" by (simp_all add: reader_def)
  then have "\<not> opted_in s' ''g'' ''m'' ''BOOKING_ASSIGNED'' ''EMAIL''" using exact by simp
  then show ?thesis using run by blast
qed

end
