(* ===== verification/Ledger.thy ===== *)
theory Ledger
  imports Database
begin

text \<open>
  Posting to the double-entry ledger: the \<open>insertLedger\<close> helpers of \<open>bookings\<close> and \<open>finance\<close> and the
  constraints of \<open>ledger_entries\<close> (migration 0054) that guard them: foreign keys inside the tenant,
  non-zero amounts, account kinds, at most one reversal of an entry. Rows are only ever appended.
\<close>

definition in_group :: "('r \<Rightarrow> string) \<Rightarrow> ('r \<Rightarrow> string) \<Rightarrow> 'r list \<Rightarrow> string \<Rightarrow> string option \<Rightarrow> bool" where
  "in_group group_of id_of rows groupID ref =
    (case ref of None \<Rightarrow> True | Some i \<Rightarrow> list_ex (\<lambda>r. group_of r = groupID \<and> id_of r = i) rows)"

definition ledger_ok :: "db \<Rightarrow> ledger_row \<Rightarrow> bool" where
  "ledger_ok s r \<longleftrightarrow> le_amount r \<noteq> 0 \<and>
     in_group ms_group ms_id (memberships s) (le_group r) (le_membership r) \<and>
     in_group pe_group pe_id (periods s) (le_group r) (le_period r) \<and>
     in_group ca_group ca_id (categories s) (le_group r) (le_category r) \<and>
     in_group bk_group bk_id (bookings s) (le_group r) (le_booking r) \<and>
     in_group py_group py_id (payments s) (le_group r) (le_payment r) \<and>
     in_group xa_group xa_id (external_accounts s) (le_group r) (le_external_account r) \<and>
     in_group xr_group xr_id (external_transactions s) (le_group r) (le_external_transaction r) \<and>
     in_group le_group le_id (ledger s) (le_group r) (le_reversal_of r) \<and>
     (le_account r = ''EXTERNAL_ACCOUNT'' \<and> le_external_account r \<noteq> None \<and> le_external_transaction r \<noteq> None \<or>
      le_account r = ''EXTERNAL_OFFSET'' \<and> le_external_account r = None \<and> le_external_transaction r \<noteq> None \<or>
      le_account r \<in> set [''MEMBER_RECEIVABLE'', ''CATEGORY_REVENUE'', ''GROUP_CASH''] \<and> le_external_account r = None)"

definition insert_ledger :: "ledger_row \<Rightarrow> unit dbtx" where
  "insert_ledger = insert_row ledger ledger_update ''ledger_entries'' ledger_ok
     (\<lambda>x r. le_id x = le_id r \<or> le_reversal_of r \<noteq> None \<and> le_reversal_of x = le_reversal_of r)"

lemmas insert_ledger_run [code] = fun_cong [OF insert_ledger_def]

definition ledger_entry ::
  "string \<Rightarrow> string \<Rightarrow> string \<Rightarrow> string \<Rightarrow> string \<Rightarrow> string \<Rightarrow> string \<Rightarrow> string \<Rightarrow> string \<Rightarrow> int \<Rightarrow> string \<Rightarrow> string \<Rightarrow> ledger_row" where
  "ledger_entry entryID groupID periodID membershipID categoryID bookingID paymentID reversalOf account amount
       description createdAt =
     \<lparr>le_id = entryID, le_group = groupID, le_period = nullable periodID, le_membership = nullable membershipID,
      le_category = nullable categoryID, le_booking = nullable bookingID, le_payment = nullable paymentID,
      le_external_account = None, le_external_transaction = None, le_reversal_of = nullable reversalOf,
      le_account = account, le_amount = amount, le_description = description, le_created_at = createdAt\<rparr>"

definition insertLedger ::
  "env \<Rightarrow> string \<Rightarrow> string \<Rightarrow> string \<Rightarrow> string \<Rightarrow> string \<Rightarrow> string \<Rightarrow> string \<Rightarrow> string \<Rightarrow> int \<Rightarrow> string \<Rightarrow> string \<Rightarrow> unit dbtx" where
  "insertLedger env groupID periodID membershipID categoryID bookingID paymentID reversalOf account amount
       description createdAt =
    tx_bind (NewID env ''led'') (\<lambda>id. insert_ledger (ledger_entry id groupID periodID membershipID categoryID
      bookingID paymentID reversalOf account amount description createdAt))"

lemmas insertLedger_run [code] = fun_cong [OF insertLedger_def]

lemma ledger_entry_sel [simp]:
  "le_id (ledger_entry i g p m c b pay rv acc amount desc at) = i"
  "le_group (ledger_entry i g p m c b pay rv acc amount desc at) = g"
  "le_period (ledger_entry i g p m c b pay rv acc amount desc at) = nullable p"
  "le_membership (ledger_entry i g p m c b pay rv acc amount desc at) = nullable m"
  "le_category (ledger_entry i g p m c b pay rv acc amount desc at) = nullable c"
  "le_booking (ledger_entry i g p m c b pay rv acc amount desc at) = nullable b"
  "le_payment (ledger_entry i g p m c b pay rv acc amount desc at) = nullable pay"
  "le_reversal_of (ledger_entry i g p m c b pay rv acc amount desc at) = nullable rv"
  "le_account (ledger_entry i g p m c b pay rv acc amount desc at) = acc"
  "le_amount (ledger_entry i g p m c b pay rv acc amount desc at) = amount"
  "le_description (ledger_entry i g p m c b pay rv acc amount desc at) = desc"
  "le_created_at (ledger_entry i g p m c b pay rv acc amount desc at) = at"
  "le_external_account (ledger_entry i g p m c b pay rv acc amount desc at) = None"
  "le_external_transaction (ledger_entry i g p m c b pay rv acc amount desc at) = None"
  by (simp_all add: ledger_entry_def)

lemma insertLedger_Inr:
  assumes "insertLedger env g p m c b pay rv acc amount desc at s = Inr (u, s')"
  obtains id where "s' = s\<lparr>random_reads := Suc (random_reads s),
      ledger := ledger s @ [ledger_entry id g p m c b pay rv acc amount desc at]\<rparr>"
    "\<forall>x\<in>set (ledger s). le_id x \<noteq> id" "id \<noteq> []" "ledger_ok s (ledger_entry id g p m c b pay rv acc amount desc at)"
proof -
  define id where "id = TrimSpace ''led'' @ CHR ''_'' # env_random env (random_reads s)"
  have frame: "ledger_ok (s\<lparr>random_reads := n\<rparr>) r = ledger_ok s r" for n r
    by (simp add: ledger_ok_def)
  show ?thesis
    using assms by (intro that [of id])
      (auto simp: insertLedger_def NewID_def insert_ledger_def insert_row_def id_def frame bind_eq_Inr split: if_splits)
qed

lemma preserves_insertLedger [pres_intros]:
  assumes "\<And>s n rows. P s \<Longrightarrow> P (s\<lparr>random_reads := n, ledger := ledger s @ rows\<rparr>)"
  shows "preserves P (insertLedger env g p m c b pay rv acc amount desc at)"
  by (rule validI) (auto elim!: insertLedger_Inr intro: assms)

section \<open>Shared lookups\<close>

text \<open>How the services present a user, join a membership with its user, and find the open period.\<close>

definition UserAvatarURL :: "string \<Rightarrow> string \<Rightarrow> string" where
  "UserAvatarURL userID imageKey =
    (if imageKey = [] then [] else ''/api/v1/users/'' @ userID @ ''/avatar/'' @ imageKey)"

definition avatar_of :: "user_row \<Rightarrow> string" where
  "avatar_of u = UserAvatarURL (us_id u) (coalesce_text (us_avatar_key u))"

definition displayed_status :: "membership_row \<Rightarrow> string" where
  "displayed_status m = (if ms_deleted_at m \<noteq> None then ''DELETED'' else ms_status m)"

definition member_user :: "string \<Rightarrow> string \<Rightarrow> db \<Rightarrow> (membership_row \<times> user_row) option" where
  "member_user groupID membershipID s =
    (case first_row (\<lambda>m. ms_id m = membershipID \<and> ms_group m = groupID) (memberships s) of
       None \<Rightarrow> None
     | Some m \<Rightarrow> (case first_row (\<lambda>u. us_id u = ms_user m) (users s) of None \<Rightarrow> None | Some u \<Rightarrow> Some (m, u)))"

definition open_period :: "string \<Rightarrow> string dbtx" where
  "open_period groupID =
    tx_bind (gets (\<lambda>s. first_row (\<lambda>p. pe_group p = groupID \<and> pe_status p = ''OPEN'') (periods s))) (\<lambda>row.
    tx_bind (the_row row ErrNoRows) (\<lambda>p. ret (pe_id p)))"

lemmas open_period_run [code] = fun_cong [OF open_period_def]

section \<open>Balances\<close>

text \<open>The sum of the entries that satisfy a condition.\<close>

definition ledger_sum :: "(ledger_row \<Rightarrow> bool) \<Rightarrow> db \<Rightarrow> int" where
  "ledger_sum P s = sum_list (map le_amount (filter P (ledger s)))"

definition member_balance :: "string \<Rightarrow> string \<Rightarrow> db \<Rightarrow> int" where
  "member_balance g m = ledger_sum (\<lambda>r. le_group r = g \<and> le_membership r = Some m \<and> le_account r = ''MEMBER_RECEIVABLE'')"

text \<open>Every entry of a group is matched by its counter-entries.\<close>

definition balanced :: "db \<Rightarrow> bool" where
  "balanced s \<longleftrightarrow> (\<forall>g. ledger_sum (\<lambda>r. le_group r = g) s = 0)"

definition rows_sum :: "(ledger_row \<Rightarrow> bool) \<Rightarrow> ledger_row list \<Rightarrow> int" where
  "rows_sum P rows = sum_list (map le_amount (filter P rows))"

lemma rows_sum_simps [simp]:
  "rows_sum P [] = 0" "rows_sum P (r # rows) = (if P r then le_amount r else 0) + rows_sum P rows"
  "rows_sum P (xs @ ys) = rows_sum P xs + rows_sum P ys"
  by (simp_all add: rows_sum_def)

lemma ledger_sum_rows: "ledger_sum P s = rows_sum P (ledger s)"
  by (simp add: ledger_sum_def rows_sum_def)

lemma rows_sum_zero: "(\<And>r. r \<in> set rows \<Longrightarrow> \<not> P r) \<Longrightarrow> rows_sum P rows = 0"
  by (induction rows) auto

lemma rows_sum_cong: "(\<And>r. r \<in> set rows \<Longrightarrow> P r = Q r) \<Longrightarrow> rows_sum P rows = rows_sum Q rows"
  by (induction rows) auto

lemma rows_sum_all: "(\<And>r. r \<in> set rows \<Longrightarrow> P r) \<Longrightarrow> rows_sum P rows = sum_list (map le_amount rows)"
  by (induction rows) auto

end
