(* ===== verification/Guests.thy ===== *)
theory Guests
  imports Authorization
begin

text \<open>
  \<open>internal/groups/guests.go\<close>: temporary guests, memberships without credentials. Their names are
  normalised to single spaces and are unique per group up to letter case while the guest is active.
  The claim invitation of a guest is not modelled.
\<close>

section \<open>Names\<close>

text \<open>\<open>strings.Fields\<close>: the maximal runs of runes that are not white space.\<close>

fun fields_loop :: "string \<Rightarrow> (nat \<times> string) list \<Rightarrow> string list" where
  "fields_loop word [] = (if word = [] then [] else [word])"
| "fields_loop word ((x, bs) # rest) =
    (if IsSpace x then (if word = [] then [] else [word]) @ fields_loop [] rest
     else fields_loop (word @ bs) rest)"

definition Fields :: "string \<Rightarrow> string list" where
  "Fields s = fields_loop [] (spans s)"

fun Join :: "string \<Rightarrow> string list \<Rightarrow> string" where
  "Join sep [] = []"
| "Join sep [w] = w"
| "Join sep (w # v # ws) = w @ sep @ Join sep (v # ws)"

definition containsUnicodeControl :: "string \<Rightarrow> bool" where
  "containsUnicodeControl v = list_ex IsControl (runes v)"

definition temporaryGuestDisplayNameLimit :: nat where
  "temporaryGuestDisplayNameLimit = 120"

definition guest_name_error :: error where
  "guest_name_error = ValidationError ''temporaryGuestDisplayNames''
     ''must contain 1 to 120 characters without control characters''"

definition NormalizeTemporaryGuestDisplayName :: "string \<Rightarrow> (string \<times> string) result" where
  "NormalizeTemporaryGuestDisplayName input =
    (let displayName = TrimSpace input in
     if displayName = [] \<or> containsUnicodeControl displayName then Inl guest_name_error
     else let displayName = Join '' '' (Fields displayName) in
       if RuneCountInString displayName > temporaryGuestDisplayNameLimit then Inl guest_name_error
       else Inr (displayName, ToLower displayName))"

section \<open>Creating and renaming\<close>

definition requireCurrentPermission :: "membership \<Rightarrow> string \<Rightarrow> unit dbtx" where
  "requireCurrentPermission m permission =
     Require (m_GroupID m) (m_ID m) permission \<lparr>rc_GroupID = m_GroupID m, rc_CategoryID = [], rc_ProductID = []\<rparr>"

definition credentialless :: "user_row \<Rightarrow> bool" where
  "credentialless u \<longleftrightarrow> us_email u = None \<and> us_password_hash u = None"

definition insert_user :: "user_row \<Rightarrow> unit dbtx" where
  "insert_user = insert_row users users_update ''users'' (\<lambda>_ _. True) (\<lambda>x r. us_id x = us_id r \<or>
     us_email r \<noteq> None \<and> us_email x = us_email r)"

lemmas insert_user_run [code] = fun_cong [OF insert_user_def]

text \<open>The partial unique index of active guest names, and the trigger that gives a new membership its
  default notification preferences.\<close>

definition guest_name_taken :: "string \<Rightarrow> string option \<Rightarrow> membership_row \<Rightarrow> bool" where
  "guest_name_taken groupID nameKey r \<longleftrightarrow> ms_group r = groupID \<and> ms_status r = ''ACTIVE'' \<and>
     nameKey \<noteq> None \<and> ms_guest_key r = nameKey"

definition default_events :: "string list" where
  "default_events = [''BOOKING_ASSIGNED'', ''BOOKING_REVERSED'', ''PAYMENT_RECORDED'', ''PAYMENT_REVERSED'',
     ''SETTLEMENT_CREATED'', ''SETTLEMENT_DUE_SOON'', ''SETTLEMENT_OVERDUE'', ''PLANNING_EVENT_PUBLISHED'',
     ''PLANNING_EVENT_UPDATED'', ''PLANNING_EVENT_CANCELLED'', ''PLANNING_WAITLIST_PROMOTED'',
     ''PLANNING_SERIES_PUBLISHED'', ''PLANNING_SERIES_UPDATED'', ''PLANNING_SERIES_CANCELLED'']"

definition insert_membership :: "membership_row \<Rightarrow> unit dbtx" where
  "insert_membership row =
    tx_bind (insert_row memberships memberships_update ''memberships''
      (\<lambda>s r. list_ex (\<lambda>g. gr_id g = ms_group r) (groups s) \<and>
         list_ex (\<lambda>u. us_id u = ms_user r \<and> (ms_guest_key r = None \<or> credentialless u)) (users s))
      (\<lambda>x r. ms_id x = ms_id r \<or> ms_group x = ms_group r \<and> ms_user x = ms_user r \<or>
         ms_status r = ''ACTIVE'' \<and> guest_name_taken (ms_group r) (ms_guest_key r) x) row) (\<lambda>_.
    modify (\<lambda>s. s\<lparr>preference_settings := preference_settings s @
        [\<lparr>ns_group = ms_group row, ns_membership = ms_id row, ns_version = 1\<rparr>],
      channels := channels s @ map (\<lambda>e. \<lparr>nc_group = ms_group row, nc_membership = ms_id row, nc_event = e,
        nc_channel = ''PUSH''\<rparr>) default_events\<rparr>))"

lemmas insert_membership_run [code] = fun_cong [OF insert_membership_def]

definition CreateTemporaryGuestTx :: "env \<Rightarrow> principal \<Rightarrow> membership \<Rightarrow> string \<Rightarrow> int \<Rightarrow> membership dbtx" where
  "CreateTemporaryGuestTx env actor actorMembership displayName0 now =
    tx_bind (requireCurrentPermission actorMembership ''BOOK_FOR_GUESTS'') (\<lambda>_.
    tx_bind (lift_result (NormalizeTemporaryGuestDisplayName displayName0)) (\<lambda>(displayName, nameKey).
    tx_bind (gets (\<lambda>s. first_row (guest_name_taken (m_GroupID actorMembership) (Some nameKey)) (memberships s))) (\<lambda>existing.
    case existing of
      Some m \<Rightarrow> fail (TemporaryGuestNameConflict (ms_id m))
    | None \<Rightarrow>
      tx_bind (NewID env ''usr'') (\<lambda>userID.
      tx_bind (NewID env ''mem'') (\<lambda>membershipID.
      tx_bind (insert_user \<lparr>us_id = userID, us_email = None, us_display_name = displayName, us_password_hash = None,
          us_active = True, us_avatar_key = None\<rparr>) (\<lambda>_.
      tx_bind (insert_membership \<lparr>ms_id = membershipID, ms_group = m_GroupID actorMembership, ms_user = userID,
          ms_status = ''ACTIVE'', ms_guest_key = Some nameKey, ms_deleted_at = None\<rparr>) (\<lambda>_.
      tx_bind (Record env (m_GroupID actorMembership) (UserID actor) (m_ID actorMembership)
          ''temporary_guest.created'' ''membership'' membershipID [(''displayName'', AText displayName)]) (\<lambda>_.
      ret \<lparr>m_ID = membershipID, m_GroupID = m_GroupID actorMembership, m_UserID = userID,
        m_DisplayName = displayName, m_AvatarURL = []\<rparr>))))))))"

lemmas CreateTemporaryGuestTx_run [code] = fun_cong [OF CreateTemporaryGuestTx_def]

text \<open>\<open>RenameTemporaryGuest\<close>. The conflicting row is found by the query, so the unique index cannot
  fail afterwards and \<open>mapTemporaryGuestNameConstraintError\<close> is not reached.\<close>

definition RenameTemporaryGuest :: "env \<Rightarrow> principal \<Rightarrow> membership \<Rightarrow> string \<Rightarrow> string \<Rightarrow> membership dbtx" where
  "RenameTemporaryGuest env actor actorMembership targetMembershipID0 displayName0 =
    tx_bind (lift_result (case NormalizeTemporaryGuestDisplayName displayName0 of
        Inl (ValidationError _ message) \<Rightarrow> Inl (ValidationError ''displayName'' message)
      | r \<Rightarrow> r)) (\<lambda>(displayName, nameKey).
    tx_bind (requireCurrentPermission actorMembership ''MEMBER_MANAGEMENT'') (\<lambda>_.
    let targetMembershipID = TrimSpace targetMembershipID0 in
    tx_bind (requireCurrentPermission actorMembership ''MEMBER_MANAGEMENT'') (\<lambda>_.
    tx_bind (gets (\<lambda>s. first_row (\<lambda>m. ms_id m = targetMembershipID \<and> ms_group m = m_GroupID actorMembership
        \<and> ms_status m = ''ACTIVE'') (memberships s))) (\<lambda>row.
    tx_bind (the_row row ErrNotFound) (\<lambda>m.
    tx_bind (gets (\<lambda>s. first_row (\<lambda>u. us_id u = ms_user m) (users s))) (\<lambda>urow.
    tx_bind (the_row urow ErrNotFound) (\<lambda>u.
    tx_bind (reject_if (us_email u \<noteq> None \<or> us_password_hash u \<noteq> None) ErrConflict) (\<lambda>_.
    tx_bind (gets (\<lambda>s. first_row (\<lambda>x. guest_name_taken (m_GroupID actorMembership) (Some nameKey) x
        \<and> ms_id x \<noteq> targetMembershipID) (memberships s))) (\<lambda>existing.
    tx_bind (case existing of Some x \<Rightarrow> fail (TemporaryGuestNameConflict (ms_id x)) | None \<Rightarrow> ret ()) (\<lambda>_.
    tx_bind (Now env) (\<lambda>now.
    tx_bind (modify (users_update (update_rows (\<lambda>x. us_id x = ms_user m) (us_display_name_update (\<lambda>_. displayName))))) (\<lambda>_.
    tx_bind (modify (memberships_update (update_rows (\<lambda>x. ms_id x = targetMembershipID \<and> ms_group x = m_GroupID actorMembership)
        (ms_guest_key_update (\<lambda>_. Some nameKey))))) (\<lambda>_.
    tx_bind (Record env (m_GroupID actorMembership) (UserID actor) (m_ID actorMembership) ''temporary_guest.renamed''
        ''membership'' targetMembershipID [(''previousDisplayName'', AText (us_display_name u)), (''displayName'', AText displayName)]) (\<lambda>_.
    ret \<lparr>m_ID = targetMembershipID, m_GroupID = m_GroupID actorMembership, m_UserID = ms_user m,
      m_DisplayName = displayName, m_AvatarURL = []\<rparr>))))))))))))))"

lemmas RenameTemporaryGuest_run [code] = fun_cong [OF RenameTemporaryGuest_def]

end
