(* ===== verification/Bookings.thy ===== *)
theory Bookings
  imports Ledger Guests Allocation Notifications
begin

text \<open>
  \<open>internal/bookings/service.go\<close>: charging a catalogue product to members. \<open>Create\<close>,
  \<open>CreateBatch\<close> and \<open>CreateBulk\<close> snapshot the product and its price, post two balanced ledger rows
  per booking into the open period, rebuild the payment allocations of the target and notify it;
  \<open>Void\<close> posts the mirrored rows into the period that is open by then. The JSON encoding of a stored
  response is the identity here (the store keeps the typed value).
\<close>

section \<open>Projections\<close>

text \<open>The join \<open>bookings JOIN memberships ... JOIN users\<close>.\<close>

definition booking_people ::
  "string \<Rightarrow> string \<Rightarrow> db \<Rightarrow> (booking_row \<times> membership_row \<times> user_row \<times> membership_row \<times> user_row) option" where
  "booking_people groupID bookingID s =
    (case first_row (\<lambda>b. bk_id b = bookingID \<and> bk_group b = groupID) (bookings s) of
       None \<Rightarrow> None
     | Some b \<Rightarrow>
       (case (member_user groupID (bk_actor b) s, member_user groupID (bk_target b) s) of
          (Some (am, au), Some (tm, tu)) \<Rightarrow> Some (b, am, au, tm, tu)
        | _ \<Rightarrow> None))"

section \<open>Reversal metadata\<close>

definition voidWithoutReasonWindow :: int where
  "voidWithoutReasonWindow = 30 * second"

definition ApplyVoidMetadata :: "booking \<Rightarrow> membership \<Rightarrow> bool \<Rightarrow> bool \<Rightarrow> int \<Rightarrow> booking" where
  "ApplyVoidMetadata b0 m canVoidOwn canVoidAny now =
    (let b = b0\<lparr>b_CanVoid := False, b_VoidReasonRequired := False, b_VoidWithoutReasonUntil := None\<rparr> in
     if b_VoidedAt b \<noteq> None then b
     else let involvedBooking = b_ActorMembershipID b = m_ID m \<or> b_TargetMembershipID b = m_ID m;
              canVoid = (involvedBooking \<and> canVoidOwn) \<or> (\<not> involvedBooking \<and> canVoidAny);
              b = b\<lparr>b_CanVoid := canVoid\<rparr> in
       if \<not> canVoid then b
       else case parse_rfc3339 (b_CreatedAt b) of
         None \<Rightarrow> b\<lparr>b_VoidReasonRequired := True\<rparr>
       | Some createdAt \<Rightarrow>
         let deadline = createdAt + voidWithoutReasonWindow;
             createdByMember = b_ActorMembershipID b = m_ID m;
             b = b\<lparr>b_VoidReasonRequired := \<not> createdByMember \<or> \<not> now < deadline\<rparr> in
         if createdByMember \<and> now < deadline then b\<lparr>b_VoidWithoutReasonUntil := Some (Timestamp deadline)\<rparr>
         else b)"

definition applyCurrentVoidMetadata :: "booking \<Rightarrow> membership \<Rightarrow> int \<Rightarrow> booking dbtx" where
  "applyCurrentVoidMetadata b m now =
    tx_bind (canPermission m ''VOID_OWN_BOOKING'') (\<lambda>canVoidOwn.
    tx_bind (canPermission m ''VOID_ANY_BOOKING'') (\<lambda>canVoidAny.
    ret (ApplyVoidMetadata b m canVoidOwn canVoidAny now)))"

lemmas applyCurrentVoidMetadata_run [code] = fun_cong [OF applyCurrentVoidMetadata_def]

definition refreshBookingState :: "env \<Rightarrow> booking \<Rightarrow> membership \<Rightarrow> booking dbtx" where
  "refreshBookingState env b m =
    tx_bind (gets (booking_people (m_GroupID m) (b_ID b))) (\<lambda>row.
    tx_bind (the_row row ErrNoRows) (\<lambda>(bk, am, au, tm, tu).
    tx_bind (Now env) (\<lambda>now.
    applyCurrentVoidMetadata (b\<lparr>b_VoidReason := coalesce_text (bk_void_reason bk),
      b_ActorDisplayName := us_display_name au, b_ActorMembershipStatus := displayed_status am,
      b_TargetDisplayName := us_display_name tu, b_TargetMembershipStatus := displayed_status tm,
      b_ActorAvatarURL := avatar_of au, b_TargetAvatarURL := avatar_of tu,
      b_VoidedAt := bk_voided_at bk\<rparr>) m now)))"

lemmas refreshBookingState_run [code] = fun_cong [OF refreshBookingState_def]

section \<open>Input validation\<close>

definition maxBookingTargets :: nat where "maxBookingTargets = 100"
definition maxBulkBookingItems :: nat where "maxBulkBookingItems = 25"
definition maxBulkBookingExpansion :: nat where "maxBulkBookingExpansion = 500"

fun normalize_targets :: "string list \<Rightarrow> string list \<Rightarrow> string list result" where
  "normalize_targets seen [] = Inr (rev seen)"
| "normalize_targets seen (target0 # targets) =
    (let target = TrimSpace target0 in
     if target = [] then Inl (ValidationError ''targetMembershipIds'' ''must not contain empty membership IDs'')
     else if target \<in> set seen
     then Inl (ValidationError ''targetMembershipIds'' ''must not contain duplicate membership IDs'')
     else normalize_targets (target # seen) targets)"

definition normalizeBookingTargets :: "string list \<Rightarrow> string list result" where
  "normalizeBookingTargets targets =
    (if length targets > maxBookingTargets
     then Inl (ValidationError ''targetMembershipIds'' ''must contain at most 100 memberships'')
     else normalize_targets [] targets)"

fun normalize_guest_names :: "string list \<Rightarrow> string list \<Rightarrow> string list result" where
  "normalize_guest_names seen [] = Inr []"
| "normalize_guest_names seen (input # names) =
    (case NormalizeTemporaryGuestDisplayName input of
       Inl e \<Rightarrow> Inl e
     | Inr (displayName, nameKey) \<Rightarrow>
       if nameKey \<in> set seen
       then Inl (ValidationError ''temporaryGuestDisplayNames'' ''must not contain duplicate names ignoring letter case'')
       else (case normalize_guest_names (nameKey # seen) names of
           Inl e \<Rightarrow> Inl e | Inr rest \<Rightarrow> Inr (displayName # rest)))"

definition normalizeTemporaryGuestNames :: "string list \<Rightarrow> string list result" where
  "normalizeTemporaryGuestNames names = normalize_guest_names [] names"

definition reason_error :: error where
  "reason_error = ValidationError ''reason'' ''must contain at most 500 characters''"

definition booking_input_error :: error where
  "booking_input_error = ValidationError ''booking''
     ''productId, productVersion, expectedPeriodId, and quantity are required''"

definition target_count_error :: error where
  "target_count_error = ValidationError ''bookingTargets''
     ''existing memberships and temporary guests must contain between 1 and 100 targets combined''"

section \<open>Authorisation\<close>

text \<open>The active memberships among the targets, with whether they are temporary guests.\<close>

definition found_targets :: "string \<Rightarrow> string list \<Rightarrow> db \<Rightarrow> (string \<times> bool) list" where
  "found_targets groupID targets s =
    concat (map (\<lambda>m. map (\<lambda>u. (ms_id m, credentialless u)) (filter (\<lambda>u. us_id u = ms_user m) (users s)))
      (filter (\<lambda>m. ms_group m = groupID \<and> ms_status m = ''ACTIVE'' \<and> ms_id m \<in> set targets) (memberships s)))"

definition booking_mode :: "(settings_row \<Rightarrow> string) \<Rightarrow> string \<Rightarrow> string dbtx" where
  "booking_mode mode groupID =
    tx_bind (gets (\<lambda>s. first_row (\<lambda>r. st_group r = groupID) (settings s))) (\<lambda>row.
    tx_bind (the_row row ErrNoRows) (\<lambda>r. ret (mode r)))"

lemmas booking_mode_run [code] = fun_cong [OF booking_mode_def]

definition authorizeBookingTargets :: "membership \<Rightarrow> string list \<Rightarrow> string \<Rightarrow> string dbtx" where
  "authorizeBookingTargets m targets reason =
    tx_bind (gets (found_targets (m_GroupID m) targets)) (\<lambda>found.
    tx_bind (reject_if (length (remdups (map fst found)) \<noteq> length targets) ErrNotFound) (\<lambda>_.
    let isGuest = (\<lambda>t. map_of (rev found) t = Some True);
        own = list_ex (\<lambda>t. t = m_ID m) targets;
        guests = list_ex (\<lambda>t. t \<noteq> m_ID m \<and> isGuest t) targets;
        others = list_ex (\<lambda>t. t \<noteq> m_ID m \<and> \<not> isGuest t) targets in
    tx_bind (if own then requirePermission m ''CREATE_OWN_BOOKING'' else ret ()) (\<lambda>_.
    tx_bind (if others then requirePermission m ''BOOK_FOR_OTHERS'' else ret ()) (\<lambda>_.
    tx_bind (if guests then requirePermission m ''BOOK_FOR_GUESTS'' else ret ()) (\<lambda>_.
    tx_bind (if others then booking_mode st_foreign_booking_mode (m_GroupID m)
             else if own then booking_mode st_own_booking_mode (m_GroupID m)
             else ret ''OFF'') (\<lambda>reasonMode.
    tx_bind (reject_if (\<not> ReasonMode_Valid reasonMode) (ErrInternal ''unsupported booking reason mode'')) (\<lambda>_.
    tx_bind (reject_if (ReasonMode_Required reasonMode \<and> reason = []) (ValidationError ''reason''
        (if others then ''is required when assigning a booking to another member''
         else ''is required for own bookings''))) (\<lambda>_.
    ret (if \<not> ReasonMode_Enabled reasonMode then [] else reason)))))))))"

lemmas authorizeBookingTargets_run [code] = fun_cong [OF authorizeBookingTargets_def]

section \<open>The product snapshot\<close>

record booking_details =
  bd_categoryID :: string
  bd_productName :: string
  bd_categoryName :: string
  bd_periodID :: string
  bd_currency :: string
  bd_unitPriceMinor :: int
  bd_totalMinor :: int
  bd_ledgerDescription :: string

definition product_offer :: "string \<Rightarrow> string \<Rightarrow> db \<Rightarrow> (product_row \<times> category_row \<times> period_row \<times> group_row) option" where
  "product_offer groupID productID s =
    (case first_row (\<lambda>p. pr_id p = productID \<and> pr_group p = groupID \<and> pr_active p \<and> pr_deleted_at p = None) (products s) of
       None \<Rightarrow> None
     | Some p \<Rightarrow>
       (case (first_row (\<lambda>c. ca_id c = pr_category p \<and> ca_group c = groupID \<and> ca_active c) (categories s),
              first_row (\<lambda>x. pe_group x = groupID \<and> pe_status x = ''OPEN'') (periods s),
              first_row (\<lambda>g. gr_id g = groupID) (groups s)) of
          (Some c, Some x, Some g) \<Rightarrow> Some (p, c, x, g)
        | _ \<Rightarrow> None))"

definition unit_price :: "product_row \<Rightarrow> int option \<Rightarrow> int result" where
  "unit_price p requestedUnitPrice =
    (if pr_pricing_mode p = ''FIXED'' then
       (if requestedUnitPrice \<noteq> None
        then Inl (ValidationError ''unitPriceMinor'' ''must be omitted for fixed-price products'')
        else case pr_price p of
          None \<Rightarrow> Inl (ErrInternal ''fixed-price product has no catalog price'')
        | Some price \<Rightarrow> Inr price)
     else if pr_pricing_mode p = ''USER_DEFINED'' then
       (case requestedUnitPrice of
          None \<Rightarrow> Inl (ValidationError ''unitPriceMinor'' ''must be a positive, reasonable integer for user-defined-price products'')
        | Some price \<Rightarrow>
          if price \<le> 0 \<or> price > MaxProductPriceMinor
          then Inl (ValidationError ''unitPriceMinor'' ''must be a positive, reasonable integer for user-defined-price products'')
          else Inr price)
     else Inl (ErrInternal ''product has unsupported pricing mode''))"

definition loadBookingDetails ::
  "string \<Rightarrow> string \<Rightarrow> int \<Rightarrow> string \<Rightarrow> int \<Rightarrow> int option \<Rightarrow> booking_details dbtx" where
  "loadBookingDetails groupID productID productVersion expectedPeriodID quantity requestedUnitPrice =
    tx_bind (gets (product_offer groupID productID)) (\<lambda>row.
    tx_bind (the_row row ErrNotFound) (\<lambda>(p, c, x, g).
    tx_bind (reject_if (pr_version p \<noteq> productVersion \<or> pe_id x \<noteq> expectedPeriodID) ErrPrecondition) (\<lambda>_.
    tx_bind (lift_result (unit_price p requestedUnitPrice)) (\<lambda>unitPriceMinor.
    tx_bind (reject_if (unitPriceMinor > max_int64 div quantity)
        (ValidationError ''quantity'' ''amount exceeds the supported range'')) (\<lambda>_.
    ret \<lparr>bd_categoryID = pr_category p, bd_productName = pr_name p, bd_categoryName = ca_name c,
      bd_periodID = pe_id x, bd_currency = gr_currency g, bd_unitPriceMinor = unitPriceMinor,
      bd_totalMinor = unitPriceMinor * quantity,
      bd_ledgerDescription = show_int quantity @ '' x '' @ pr_name p @ '' ('' @ ca_name c @ '')''\<rparr>)))))"

lemmas loadBookingDetails_run [code] = fun_cong [OF loadBookingDetails_def]

section \<open>One booking\<close>

definition booking_ok :: "db \<Rightarrow> booking_row \<Rightarrow> bool" where
  "booking_ok s b \<longleftrightarrow> 1 \<le> bk_quantity b \<and> bk_quantity b \<le> 99 \<and> bk_unit_price b > 0 \<and> bk_total b > 0 \<and>
     in_group pe_group pe_id (periods s) (bk_group b) (Some (bk_period b)) \<and>
     in_group ca_group ca_id (categories s) (bk_group b) (Some (bk_category b)) \<and>
     in_group pr_group pr_id (products s) (bk_group b) (Some (bk_product b)) \<and>
     in_group ms_group ms_id (memberships s) (bk_group b) (Some (bk_actor b)) \<and>
     in_group ms_group ms_id (memberships s) (bk_group b) (Some (bk_target b))"

definition insert_booking :: "booking_row \<Rightarrow> unit dbtx" where
  "insert_booking = insert_row bookings bookings_update ''bookings'' booking_ok (\<lambda>x r. bk_id x = bk_id r)"

lemmas insert_booking_run [code] = fun_cong [OF insert_booking_def]

definition booking_of ::
  "membership \<Rightarrow> string \<Rightarrow> int \<Rightarrow> string \<Rightarrow> string \<Rightarrow> booking_details \<Rightarrow> string \<Rightarrow> string \<Rightarrow> booking_row" where
  "booking_of m productID quantity targetID reason details bookingID now =
    \<lparr>bk_id = bookingID, bk_group = m_GroupID m, bk_period = bd_periodID details, bk_category = bd_categoryID details,
     bk_product = productID, bk_actor = m_ID m, bk_target = targetID, bk_quantity = quantity,
     bk_unit_price = bd_unitPriceMinor details, bk_total = bd_totalMinor details,
     bk_product_name = bd_productName details, bk_category_name = bd_categoryName details,
     bk_reason = nullable reason, bk_created_at = now, bk_voided_at = None, bk_voided_by = None,
     bk_void_reason = None, bk_version = 1\<rparr>"

definition assigned_notice :: "membership \<Rightarrow> int \<Rightarrow> string \<Rightarrow> booking_details \<Rightarrow> string \<Rightarrow> string \<Rightarrow> notification_input" where
  "assigned_notice m quantity targetID details bookingID now =
    \<lparr>ni_GroupID = m_GroupID m, ni_MembershipID = targetID, ni_Type = ''BOOKING_ASSIGNED'', ni_Title = ''Neue Buchung'',
     ni_Body = m_DisplayName m @ '' hat '' @ bd_productName details @ '' auf dein Konto gebucht.'',
     ni_ResourceType = ''booking'', ni_ResourceID = bookingID,
     ni_Context = no_context\<lparr>ActorName := m_DisplayName m, ItemName := bd_productName details, Quantity := quantity,
       AmountMinor := bd_totalMinor details, Currency := bd_currency details\<rparr>,
     ni_CreatedAt = now\<rparr>"

definition new_booking ::
  "membership \<Rightarrow> string \<Rightarrow> int \<Rightarrow> string \<Rightarrow> string \<Rightarrow> booking_details \<Rightarrow> user_row \<Rightarrow> string \<Rightarrow> string \<Rightarrow> booking" where
  "new_booking m productID quantity targetID reason details tu bookingID now =
    \<lparr>b_ID = bookingID, b_GroupID = m_GroupID m, b_PeriodID = bd_periodID details,
       b_CategoryID = bd_categoryID details, b_ProductID = productID, b_ActorMembershipID = m_ID m,
       b_ActorDisplayName = m_DisplayName m, b_ActorAvatarURL = m_AvatarURL m, b_ActorMembershipStatus = ''ACTIVE'',
       b_TargetMembershipID = targetID, b_TargetDisplayName = us_display_name tu, b_TargetAvatarURL = avatar_of tu,
       b_TargetMembershipStatus = ''ACTIVE'', b_Quantity = quantity, b_UnitPriceMinor = bd_unitPriceMinor details,
       b_TotalMinor = bd_totalMinor details, b_Currency = bd_currency details, b_ProductName = bd_productName details,
       b_CategoryName = bd_categoryName details, b_Reason = reason, b_CreatedAt = now, b_VoidedAt = None,
       b_VoidReason = [], b_CanVoid = False, b_VoidReasonRequired = False, b_VoidWithoutReasonUntil = None\<rparr>"

definition createBookingForTargetTxWithAllocationRebuild ::
  "env \<Rightarrow> notification_service \<Rightarrow> principal \<Rightarrow> membership \<Rightarrow> string \<Rightarrow> int \<Rightarrow> string \<Rightarrow> string \<Rightarrow> booking_details
     \<Rightarrow> int \<Rightarrow> bool \<Rightarrow> booking dbtx" where
  "createBookingForTargetTxWithAllocationRebuild env svc actor m productID quantity targetID reason details nowTime
       rebuildAllocations =
    tx_bind (NewID env ''bok'') (\<lambda>bookingID.
    let now = Timestamp nowTime in
    tx_bind (insert_booking (booking_of m productID quantity targetID reason details bookingID now)) (\<lambda>_.
    tx_bind (insertLedger env (m_GroupID m) (bd_periodID details) targetID (bd_categoryID details) bookingID [] []
      ''MEMBER_RECEIVABLE'' (bd_totalMinor details) (bd_ledgerDescription details) now) (\<lambda>_.
    tx_bind (insertLedger env (m_GroupID m) (bd_periodID details) [] (bd_categoryID details) bookingID [] []
      ''CATEGORY_REVENUE'' (- bd_totalMinor details) (bd_ledgerDescription details) now) (\<lambda>_.
    tx_bind (if rebuildAllocations then RebuildPaymentAllocations (m_GroupID m) targetID else ret ()) (\<lambda>_.
    tx_bind (if targetID \<noteq> m_ID m
        then tx_bind (CreateTx env svc (assigned_notice m quantity targetID details bookingID now)) (\<lambda>_. ret ())
        else ret ()) (\<lambda>_.
    tx_bind (gets (member_user (m_GroupID m) targetID)) (\<lambda>row.
    tx_bind (the_row row ErrNoRows) (\<lambda>(tm, tu).
    tx_bind (applyCurrentVoidMetadata
      (new_booking m productID quantity targetID reason details tu bookingID now)
      m nowTime) (\<lambda>b.
    tx_bind (Record env (m_GroupID m) (UserID actor) (m_ID m) ''booking.created'' ''booking'' bookingID
      [(''targetMembershipId'', AText targetID), (''unitPriceMinor'', ANumber (bd_unitPriceMinor details)),
       (''totalMinor'', ANumber (bd_totalMinor details))]) (\<lambda>_.
    ret b))))))))))"

lemmas createBookingForTargetTxWithAllocationRebuild_run [code] = fun_cong [OF createBookingForTargetTxWithAllocationRebuild_def]

definition createBookingForTargetTx ::
  "env \<Rightarrow> notification_service \<Rightarrow> principal \<Rightarrow> membership \<Rightarrow> string \<Rightarrow> int \<Rightarrow> string \<Rightarrow> string \<Rightarrow> booking_details
     \<Rightarrow> int \<Rightarrow> booking dbtx" where
  "createBookingForTargetTx env svc actor m productID quantity targetID reason details nowTime =
    createBookingForTargetTxWithAllocationRebuild env svc actor m productID quantity targetID reason details nowTime True"

lemmas createBookingForTargetTx_run [code] = fun_cong [OF createBookingForTargetTx_def]

section \<open>Commands\<close>

text \<open>The inlined store of \<open>Create\<close> and \<open>CreateBatch\<close>, stamped with the command's own clock reading.\<close>

definition store_result :: "string \<Rightarrow> string \<Rightarrow> string \<Rightarrow> string \<Rightarrow> response \<Rightarrow> int \<Rightarrow> unit dbtx" where
  "store_result groupID userID key requestHash value nowTime =
    insert_idempotency \<lparr>ir_group = groupID, ir_user = userID, ir_key = key, ir_hash = requestHash,
      ir_status_code = 201, ir_response = value, ir_created_at = Timestamp nowTime\<rparr>"

lemmas store_result_run [code] = fun_cong [OF store_result_def]

definition trim_create :: "membership \<Rightarrow> create_booking_input \<Rightarrow> create_booking_input" where
  "trim_create m input =
    (let target = TrimSpace (ci_TargetMembershipID input) in
     input\<lparr>ci_ProductID := TrimSpace (ci_ProductID input), ci_ExpectedPeriodID := TrimSpace (ci_ExpectedPeriodID input),
       ci_TargetMembershipID := (if target = [] then m_ID m else target), ci_Reason := TrimSpace (ci_Reason input)\<rparr>)"

definition validate_create :: "membership \<Rightarrow> string \<Rightarrow> create_booking_input \<Rightarrow> create_booking_input result" where
  "validate_create m key input0 =
    (let input = trim_create m input0 in
     case ValidateKey key of Inl e \<Rightarrow> Inl e | Inr _ \<Rightarrow>
     if length (ci_Reason input) > 500 then Inl reason_error
     else if ci_ProductID input = [] \<or> ci_ProductVersion input < 1 \<or> ci_ExpectedPeriodID input = [] \<or>
       ci_Quantity input < 1 \<or> ci_Quantity input > 99 then Inl booking_input_error
     else Inr input)"

definition create_tx ::
  "env \<Rightarrow> notification_service \<Rightarrow> principal \<Rightarrow> membership \<Rightarrow> string \<Rightarrow> create_booking_input \<Rightarrow> booking dbtx" where
  "create_tx env svc actor m key input =
    (let requestHash = Hash env (ReqCreateBooking input) in
     tx_bind (Load (m_GroupID m) (UserID actor) key requestHash) (\<lambda>found.
     case found of
       Some (RespBooking b) \<Rightarrow> refreshBookingState env b m
     | Some _ \<Rightarrow> fail decode_error
     | None \<Rightarrow>
       tx_bind (authorizeBookingTargets m [ci_TargetMembershipID input] (ci_Reason input)) (\<lambda>effectiveReason.
       tx_bind (loadBookingDetails (m_GroupID m) (ci_ProductID input) (ci_ProductVersion input)
         (ci_ExpectedPeriodID input) (ci_Quantity input) (ci_UnitPriceMinor input)) (\<lambda>details.
       tx_bind (Now env) (\<lambda>nowTime.
       tx_bind (createBookingForTargetTx env svc actor m (ci_ProductID input) (ci_Quantity input)
         (ci_TargetMembershipID input) effectiveReason details nowTime) (\<lambda>b.
       tx_bind (store_result (m_GroupID m) (UserID actor) key requestHash (RespBooking b) nowTime) (\<lambda>_.
       ret b)))))))"

lemmas create_tx_run [code] = fun_cong [OF create_tx_def]

text \<open>Reads that a command makes before its transaction opens run against the current database.\<close>

definition checked :: "'c dbtx \<Rightarrow> 'a dbtx \<Rightarrow> db \<Rightarrow> 'a result \<times> db" where
  "checked check body s = (case check s of Inl e \<Rightarrow> (Inl e, s) | Inr _ \<Rightarrow> WithTx body s)"

definition Create ::
  "env \<Rightarrow> notification_service \<Rightarrow> principal \<Rightarrow> membership \<Rightarrow> string \<Rightarrow> create_booking_input \<Rightarrow> db \<Rightarrow> booking result \<times> db" where
  "Create env svc actor m key input0 s =
    (case validate_create m key input0 of
       Inl e \<Rightarrow> (Inl e, s)
     | Inr input \<Rightarrow> checked (authorizeBookingTargets m [ci_TargetMembershipID input] (ci_Reason input))
         (create_tx env svc actor m key input) s)"

text \<open>The guests of a command are created before its bookings.\<close>

definition create_guests :: "env \<Rightarrow> principal \<Rightarrow> membership \<Rightarrow> string list \<Rightarrow> int \<Rightarrow> string list dbtx" where
  "create_guests env actor m guestNames nowTime =
    map_tx (\<lambda>guestName. tx_bind (CreateTemporaryGuestTx env actor m guestName nowTime) (\<lambda>guest. ret (m_ID guest))) guestNames"

lemmas create_guests_run [code] = fun_cong [OF create_guests_def]

definition validate_batch :: "string \<Rightarrow> batch_create_input \<Rightarrow> batch_create_input result" where
  "validate_batch key input0 =
    (let input = input0\<lparr>bi_ProductID := TrimSpace (bi_ProductID input0),
           bi_ExpectedPeriodID := TrimSpace (bi_ExpectedPeriodID input0), bi_Reason := TrimSpace (bi_Reason input0)\<rparr> in
     case ValidateKey key of Inl e \<Rightarrow> Inl e | Inr _ \<Rightarrow>
     if length (bi_Reason input) > 500 then Inl reason_error
     else if bi_ProductID input = [] \<or> bi_ProductVersion input < 1 \<or> bi_ExpectedPeriodID input = [] \<or>
       bi_Quantity input < 1 \<or> bi_Quantity input > 99 then Inl booking_input_error
     else case normalizeBookingTargets (bi_TargetMembershipIDs input) of Inl e \<Rightarrow> Inl e | Inr targets \<Rightarrow>
       (case normalizeTemporaryGuestNames (bi_TemporaryGuestDisplayNames input) of Inl e \<Rightarrow> Inl e | Inr guestNames \<Rightarrow>
         if length targets + length guestNames < 1 \<or> length targets + length guestNames > maxBookingTargets
         then Inl target_count_error
         else Inr (input\<lparr>bi_TargetMembershipIDs := targets, bi_TemporaryGuestDisplayNames := guestNames\<rparr>)))"

definition authorize_batch :: "membership \<Rightarrow> string list \<Rightarrow> string list \<Rightarrow> string \<Rightarrow> string dbtx" where
  "authorize_batch m targets guestNames reason =
    tx_bind (authorizeBookingTargets m targets reason) (\<lambda>effectiveReason.
    tx_bind (if guestNames \<noteq> [] then requirePermission m ''BOOK_FOR_GUESTS'' else ret ()) (\<lambda>_.
    ret effectiveReason))"

lemmas authorize_batch_run [code] = fun_cong [OF authorize_batch_def]

definition create_batch_tx ::
  "env \<Rightarrow> notification_service \<Rightarrow> principal \<Rightarrow> membership \<Rightarrow> string \<Rightarrow> batch_create_input \<Rightarrow> booking list dbtx" where
  "create_batch_tx env svc actor m key input =
    (let requestHash = Hash env (ReqCreateBatch input) in
     tx_bind (Load (m_GroupID m) (UserID actor) key requestHash) (\<lambda>found.
     case found of
       Some (RespBookings bs) \<Rightarrow> map_tx (\<lambda>b. refreshBookingState env b m) bs
     | Some _ \<Rightarrow> fail decode_error
     | None \<Rightarrow>
       tx_bind (authorize_batch m (bi_TargetMembershipIDs input) (bi_TemporaryGuestDisplayNames input) (bi_Reason input)) (\<lambda>effectiveReason.
       tx_bind (loadBookingDetails (m_GroupID m) (bi_ProductID input) (bi_ProductVersion input)
         (bi_ExpectedPeriodID input) (bi_Quantity input) (bi_UnitPriceMinor input)) (\<lambda>details.
       tx_bind (Now env) (\<lambda>nowTime.
       tx_bind (create_guests env actor m (bi_TemporaryGuestDisplayNames input) nowTime) (\<lambda>guestIDs.
       tx_bind (map_tx (\<lambda>targetID. createBookingForTargetTx env svc actor m (bi_ProductID input) (bi_Quantity input)
         targetID effectiveReason details nowTime) (bi_TargetMembershipIDs input @ guestIDs)) (\<lambda>bs.
       tx_bind (store_result (m_GroupID m) (UserID actor) key requestHash (RespBookings bs) nowTime) (\<lambda>_.
       ret bs))))))))"

lemmas create_batch_tx_run [code] = fun_cong [OF create_batch_tx_def]

definition CreateBatch ::
  "env \<Rightarrow> notification_service \<Rightarrow> principal \<Rightarrow> membership \<Rightarrow> string \<Rightarrow> batch_create_input \<Rightarrow> db \<Rightarrow> booking list result \<times> db" where
  "CreateBatch env svc actor m key input0 s =
    (case validate_batch key input0 of
       Inl e \<Rightarrow> (Inl e, s)
     | Inr input \<Rightarrow> checked (authorize_batch m (bi_TargetMembershipIDs input) (bi_TemporaryGuestDisplayNames input) (bi_Reason input))
         (create_batch_tx env svc actor m key input) s)"

subsection \<open>The cart\<close>

definition item_error :: "nat \<Rightarrow> string \<Rightarrow> error" where
  "item_error index message = ValidationError (''items['' @ show_int (int index) @ '']'') message"

fun check_items :: "nat \<Rightarrow> string list \<Rightarrow> bulk_create_item list \<Rightarrow> bulk_create_item list result" where
  "check_items index seen [] = Inr []"
| "check_items index seen (item0 # items) =
    (let item = item0\<lparr>it_ProductID := TrimSpace (it_ProductID item0)\<rparr> in
     if it_ProductID item = [] \<or> it_ProductVersion item < 1 \<or> it_Quantity item < 1 \<or> it_Quantity item > 99
     then Inl (item_error index ''productId, productVersion, and a quantity between 1 and 99 are required'')
     else if it_ProductID item \<in> set seen
     then Inl (ValidationError ''items'' ''must not contain duplicate product IDs'')
     else case check_items (Suc index) (it_ProductID item # seen) items of
       Inl e \<Rightarrow> Inl e | Inr rest \<Rightarrow> Inr (item # rest))"

definition validate_bulk :: "string \<Rightarrow> bulk_create_input \<Rightarrow> bulk_create_input result" where
  "validate_bulk key input0 =
    (let input = input0\<lparr>ui_ExpectedPeriodID := TrimSpace (ui_ExpectedPeriodID input0), ui_Reason := TrimSpace (ui_Reason input0)\<rparr>;
         rawTargetCount = length (ui_TargetMembershipIDs input) + length (ui_TemporaryGuestDisplayNames input) in
     case ValidateKey key of Inl e \<Rightarrow> Inl e | Inr _ \<Rightarrow>
     if ui_ExpectedPeriodID input = [] then Inl (ValidationError ''expectedPeriodId'' ''is required'')
     else if length (ui_Reason input) > 500 then Inl reason_error
     else if length (ui_Items input) < 1 \<or> length (ui_Items input) > maxBulkBookingItems
     then Inl (ValidationError ''items'' ''must contain between 1 and 25 product lines'')
     else if rawTargetCount < 1 \<or> rawTargetCount > maxBookingTargets then Inl target_count_error
     else case check_items 0 [] (ui_Items input) of Inl e \<Rightarrow> Inl e | Inr items \<Rightarrow>
       (case normalizeBookingTargets (ui_TargetMembershipIDs input) of Inl e \<Rightarrow> Inl e | Inr targets \<Rightarrow>
       (case normalizeTemporaryGuestNames (ui_TemporaryGuestDisplayNames input) of Inl e \<Rightarrow> Inl e | Inr guestNames \<Rightarrow>
         let targetCount = length targets + length guestNames in
         if targetCount < 1 \<or> targetCount > maxBookingTargets then Inl target_count_error
         else if length items * targetCount > maxBulkBookingExpansion
         then Inl (ValidationError ''items'' ''cart expansion must not exceed 500 bookings'')
         else Inr (input\<lparr>ui_Items := items, ui_TargetMembershipIDs := targets, ui_TemporaryGuestDisplayNames := guestNames\<rparr>))))"

fun load_items ::
  "string \<Rightarrow> string \<Rightarrow> int \<Rightarrow> nat \<Rightarrow> int \<Rightarrow> bulk_create_item list \<Rightarrow> booking_details list dbtx" where
  "load_items groupID expectedPeriodID targetCount index expandedTotalMinor [] = ret []"
| "load_items groupID expectedPeriodID targetCount index expandedTotalMinor (item # items) =
    tx_bind (loadBookingDetails groupID (it_ProductID item) (it_ProductVersion item) expectedPeriodID (it_Quantity item)
      (it_UnitPriceMinor item)) (\<lambda>details.
    tx_bind (reject_if (bd_totalMinor details > max_int64 div targetCount)
      (item_error index ''expanded amount exceeds the supported range'')) (\<lambda>_.
    let expandedItemTotal = bd_totalMinor details * targetCount in
    tx_bind (reject_if (expandedTotalMinor > max_int64 - expandedItemTotal)
      (ValidationError ''items'' ''cart amount exceeds the supported range'')) (\<lambda>_.
    tx_bind (load_items groupID expectedPeriodID targetCount (Suc index) (expandedTotalMinor + expandedItemTotal) items) (\<lambda>rest.
    ret (details # rest)))))"

definition book_item ::
  "env \<Rightarrow> notification_service \<Rightarrow> principal \<Rightarrow> membership \<Rightarrow> string list \<Rightarrow> string \<Rightarrow> int
     \<Rightarrow> bulk_create_item \<times> booking_details \<Rightarrow> booking list dbtx" where
  "book_item env svc actor m allTargets reason nowTime =
    (\<lambda>(item, details). map_tx (\<lambda>targetID. createBookingForTargetTxWithAllocationRebuild env svc actor m
       (it_ProductID item) (it_Quantity item) targetID reason details nowTime False) allTargets)"

lemmas book_item_run [code] = fun_cong [OF book_item_def]

definition create_bulk_tx ::
  "env \<Rightarrow> notification_service \<Rightarrow> principal \<Rightarrow> membership \<Rightarrow> string \<Rightarrow> bulk_create_input \<Rightarrow> booking list dbtx" where
  "create_bulk_tx env svc actor m key input =
    (let requestHash = Hash env (ReqCreateBulk input);
         targets = ui_TargetMembershipIDs input; guestNames = ui_TemporaryGuestDisplayNames input in
     tx_bind (Load (m_GroupID m) (UserID actor) key requestHash) (\<lambda>found.
     case found of
       Some (RespBookings bs) \<Rightarrow> ret bs
     | Some _ \<Rightarrow> fail decode_error
     | None \<Rightarrow>
       tx_bind (authorize_batch m targets guestNames (ui_Reason input)) (\<lambda>effectiveReason.
       tx_bind (load_items (m_GroupID m) (ui_ExpectedPeriodID input) (int (length targets + length guestNames)) 0 0
         (ui_Items input)) (\<lambda>details.
       tx_bind (Now env) (\<lambda>nowTime.
       tx_bind (create_guests env actor m guestNames nowTime) (\<lambda>guestIDs.
       let allTargets = targets @ guestIDs in
       tx_bind (map_tx (book_item env svc actor m allTargets effectiveReason nowTime) (zip (ui_Items input) details)) (\<lambda>bss.
       tx_bind (each_tx (RebuildPaymentAllocations (m_GroupID m)) allTargets) (\<lambda>_.
       let created = concat bss in
       tx_bind (Store env (m_GroupID m) (UserID actor) key requestHash 201 (RespBookings created)) (\<lambda>_.
       ret created)))))))))"

lemmas create_bulk_tx_run [code] = fun_cong [OF create_bulk_tx_def]

definition CreateBulk ::
  "env \<Rightarrow> notification_service \<Rightarrow> principal \<Rightarrow> membership \<Rightarrow> string \<Rightarrow> bulk_create_input \<Rightarrow> db \<Rightarrow> booking list result \<times> db" where
  "CreateBulk env svc actor m key input0 s =
    (case validate_bulk key input0 of
       Inl e \<Rightarrow> (Inl e, s)
     | Inr input \<Rightarrow> WithTx (create_bulk_tx env svc actor m key input) s)"

section \<open>Reversal\<close>

definition original_rows :: "string \<Rightarrow> db \<Rightarrow> ledger_row list" where
  "original_rows bookingID s = filter (\<lambda>r. le_booking r = Some bookingID \<and> le_reversal_of r = None) (ledger s)"

definition void_row :: "string \<Rightarrow> string \<Rightarrow> string \<Rightarrow> booking_row \<Rightarrow> booking_row" where
  "void_row now membershipID reason b = b\<lparr>bk_voided_at := Some now, bk_voided_by := Some membershipID,
     bk_void_reason := nullable reason, bk_version := bk_version b + 1\<rparr>"

definition reversed_notice :: "membership \<Rightarrow> booking_row \<Rightarrow> string \<Rightarrow> string \<Rightarrow> notification_input" where
  "reversed_notice m b currency now =
    \<lparr>ni_GroupID = m_GroupID m, ni_MembershipID = bk_target b, ni_Type = ''BOOKING_REVERSED'', ni_Title = ''Buchung storniert'',
     ni_Body = m_DisplayName m @ '' hat '' @ bk_product_name b @ '' auf deinem Konto storniert.'',
     ni_ResourceType = ''booking'', ni_ResourceID = bk_id b,
     ni_Context = no_context\<lparr>ActorName := m_DisplayName m, ItemName := bk_product_name b, Quantity := bk_quantity b,
       AmountMinor := bk_total b, Currency := currency\<rparr>,
     ni_CreatedAt = now\<rparr>"

text \<open>The guards of \<open>Void\<close>: the permission depends on whether the member is involved, and the clock is
  read only for the member that made the booking.\<close>

definition void_guards :: "env \<Rightarrow> membership \<Rightarrow> booking_row \<Rightarrow> string \<Rightarrow> unit dbtx" where
  "void_guards env m b reason =
    tx_bind (reject_if (bk_voided_at b \<noteq> None) ErrConflict) (\<lambda>_.
    tx_bind (requirePermission m (if bk_actor b = m_ID m \<or> bk_target b = m_ID m then ''VOID_OWN_BOOKING''
        else ''VOID_ANY_BOOKING'')) (\<lambda>_.
    tx_bind (the_row (parse_rfc3339 (bk_created_at b)) (ErrInternal ''parse booking creation timestamp'')) (\<lambda>createdAt.
    tx_bind (if bk_actor b \<noteq> m_ID m then ret True
        else tx_bind (Now env) (\<lambda>now. ret (\<not> now < createdAt + voidWithoutReasonWindow))) (\<lambda>reasonRequired.
    reject_if (reasonRequired \<and> reason = []) (ValidationError ''reason'' ''is required for this reversal'')))))"

lemmas void_guards_run [code] = fun_cong [OF void_guards_def]

definition reverse_entry :: "env \<Rightarrow> string \<Rightarrow> string \<Rightarrow> string \<Rightarrow> string \<Rightarrow> ledger_row \<Rightarrow> unit dbtx" where
  "reverse_entry env groupID currentPeriod bookingID now entry =
    insertLedger env groupID currentPeriod (coalesce_text (le_membership entry)) (coalesce_text (le_category entry))
      bookingID [] (le_id entry) (le_account entry) (- le_amount entry) (''Reversal: '' @ le_description entry) now"

lemmas reverse_entry_run [code] = fun_cong [OF reverse_entry_def]

definition mark_voided :: "string \<Rightarrow> string \<Rightarrow> string \<Rightarrow> string \<Rightarrow> unit dbtx" where
  "mark_voided bookingID now membershipID reason =
    tx_bind (gets (\<lambda>s. length (filter (\<lambda>x. bk_id x = bookingID \<and> bk_voided_at x = None) (bookings s)))) (\<lambda>changed.
    tx_bind (modify (bookings_update (update_rows (\<lambda>x. bk_id x = bookingID \<and> bk_voided_at x = None)
      (void_row now membershipID reason)))) (\<lambda>_.
    reject_if (changed \<noteq> 1) ErrConflict))"

lemmas mark_voided_run [code] = fun_cong [OF mark_voided_def]

definition voided_booking ::
  "booking_row \<Rightarrow> membership_row \<Rightarrow> user_row \<Rightarrow> membership_row \<Rightarrow> user_row \<Rightarrow> group_row \<Rightarrow> string \<Rightarrow> string \<Rightarrow> booking" where
  "voided_booking b am au tm tu g now reason =
    \<lparr>b_ID = bk_id b, b_GroupID = bk_group b, b_PeriodID = bk_period b, b_CategoryID = bk_category b,
       b_ProductID = bk_product b, b_ActorMembershipID = bk_actor b, b_ActorDisplayName = us_display_name au,
       b_ActorAvatarURL = avatar_of au, b_ActorMembershipStatus = displayed_status am,
       b_TargetMembershipID = bk_target b, b_TargetDisplayName = us_display_name tu, b_TargetAvatarURL = avatar_of tu,
       b_TargetMembershipStatus = displayed_status tm, b_Quantity = bk_quantity b, b_UnitPriceMinor = bk_unit_price b,
       b_TotalMinor = bk_total b, b_Currency = gr_currency g, b_ProductName = bk_product_name b,
       b_CategoryName = bk_category_name b, b_Reason = coalesce_text (bk_reason b), b_CreatedAt = bk_created_at b,
       b_VoidedAt = Some now, b_VoidReason = reason, b_CanVoid = False, b_VoidReasonRequired = False,
       b_VoidWithoutReasonUntil = None\<rparr>"

definition void_new ::
  "env \<Rightarrow> notification_service \<Rightarrow> principal \<Rightarrow> membership \<Rightarrow> string \<Rightarrow> string \<Rightarrow> booking dbtx" where
  "void_new env svc actor m bookingID reason =
    tx_bind (gets (booking_people (m_GroupID m) bookingID)) (\<lambda>row.
    tx_bind (the_row row ErrNotFound) (\<lambda>(b, am, au, tm, tu).
    tx_bind (gets (\<lambda>s. first_row (\<lambda>g. gr_id g = m_GroupID m) (groups s))) (\<lambda>grow.
    tx_bind (the_row grow ErrNotFound) (\<lambda>g.
    tx_bind (void_guards env m b reason) (\<lambda>_.
    tx_bind (open_period (m_GroupID m)) (\<lambda>currentPeriod.
    tx_bind (Now env) (\<lambda>nowTime.
    let now = Timestamp nowTime in
    tx_bind (mark_voided bookingID now (m_ID m) reason) (\<lambda>_.
    tx_bind (gets (original_rows bookingID)) (\<lambda>entries.
    tx_bind (each_tx (reverse_entry env (m_GroupID m) currentPeriod bookingID now) entries) (\<lambda>_.
    tx_bind (RebuildPaymentAllocations (m_GroupID m) (bk_target b)) (\<lambda>_.
    tx_bind (if m_ID m \<noteq> bk_target b
        then tx_bind (CreateTx env svc (reversed_notice m b (gr_currency g) now)) (\<lambda>_. ret ())
        else ret ()) (\<lambda>_.
    tx_bind (Record env (m_GroupID m) (UserID actor) (m_ID m) ''booking.voided'' ''booking'' bookingID
      [(''reason'', AText reason), (''originalPeriodId'', AText (bk_period b)), (''reversalPeriodId'', AText currentPeriod)]) (\<lambda>_.
    ret (voided_booking b am au tm tu g now reason))))))))))))))"

lemmas void_new_run [code] = fun_cong [OF void_new_def]

definition void_tx ::
  "env \<Rightarrow> notification_service \<Rightarrow> principal \<Rightarrow> membership \<Rightarrow> string \<Rightarrow> string \<Rightarrow> string \<Rightarrow> booking dbtx" where
  "void_tx env svc actor m key bookingID reason =
    (let requestHash = Hash env (ReqVoidBooking bookingID reason) in
     tx_bind (Load (m_GroupID m) (UserID actor) key requestHash) (\<lambda>found.
     case found of
       Some (RespBooking b) \<Rightarrow> refreshBookingState env b m
     | Some _ \<Rightarrow> fail decode_error
     | None \<Rightarrow>
       tx_bind (void_new env svc actor m bookingID reason) (\<lambda>b.
       tx_bind (Store env (m_GroupID m) (UserID actor) key requestHash 200 (RespBooking b)) (\<lambda>_.
       ret b))))"

lemmas void_tx_run [code] = fun_cong [OF void_tx_def]

definition Void ::
  "env \<Rightarrow> notification_service \<Rightarrow> principal \<Rightarrow> membership \<Rightarrow> string \<Rightarrow> string \<Rightarrow> string \<Rightarrow> db \<Rightarrow> booking result \<times> db" where
  "Void env svc actor m key bookingID reason0 s =
    (let reason = TrimSpace reason0 in
     case ValidateKey key of
       Inl e \<Rightarrow> (Inl e, s)
     | Inr _ \<Rightarrow> if length reason > 500 then (Inl reason_error, s)
         else WithTx (void_tx env svc actor m key bookingID reason) s)"

section \<open>What the commands leave alone\<close>

text \<open>\<open>static\<close> collects the tables no booking command writes, \<open>books\<close> adds the bookings and the ledger.\<close>

definition static :: "db \<Rightarrow> _" where
  "static s = (groups s, users s, memberships s, assignments s, grants s, settings s, periods s, categories s,
     products s, payments s, statements s, external_accounts s, external_transactions s)"

definition books :: "db \<Rightarrow> _" where
  "books s = (static s, bookings s, ledger s)"

lemma books_frame [simp]:
  "books (s\<lparr>random_reads := n\<rparr>) = books s" "books (s\<lparr>clock_reads := n\<rparr>) = books s"
  "books (s\<lparr>audit := as\<rparr>) = books s" "books (s\<lparr>idempotency := is\<rparr>) = books s"
  "books (s\<lparr>random_reads := n, notifications := ns, jobs := js\<rparr>) = books s"
  by (simp_all add: books_def static_def)

lemma static_frame [simp]:
  "static (s\<lparr>random_reads := n\<rparr>) = static s" "static (s\<lparr>bookings := bs\<rparr>) = static s"
  "static (s\<lparr>ledger := ls\<rparr>) = static s"
  by (simp_all add: static_def)

lemma books_split: "books s' = books s \<longleftrightarrow> static s' = static s \<and> bookings s' = bookings s \<and> ledger s' = ledger s"
  by (simp add: books_def)

lemma keeps_books [simp, intro]:
  "keeps books (CreateTx env svc input)" "keeps books (Record env g u m a t i md)"
  "keeps books (NewID env prefix)" "keeps books (Now env)"
  "keeps books (Store env g u k h c v)" "keeps books (insert_idempotency row)"
  unfolding insert_idempotency_def
  by (rule keepsI; intro pres_intros preserves_insert_row; simp)+

lemma keeps_books_rebuild [simp, intro]: "keeps books (RebuildPaymentAllocations g m)"
  by (rule keepsI, rule validI) (auto dest!: rebuild_result simp: rebuilt_def books_def static_def)

lemma keeps_books_metadata [simp, intro]: "keeps books (applyCurrentVoidMetadata b m now)"
  unfolding applyCurrentVoidMetadata_def by (rule keepsI) (intro pres_intros)

lemma keeps_idempotency [simp, intro]:
  "keeps idempotency (CreateTx env svc input)" "keeps idempotency (Record env g u m a t i md)"
  "keeps idempotency (insertLedger env g p mm c b pay rv acc amount desc at)"
  "keeps idempotency (insert_booking row)" "keeps idempotency (NewID env prefix)"
  unfolding insert_booking_def
  by (rule keepsI; intro pres_intros preserves_insert_row; simp)+

lemma keeps_idempotency_rebuild [simp, intro]: "keeps idempotency (RebuildPaymentAllocations g m)"
  by (rule keepsI, rule validI) (auto dest!: rebuild_result simp: rebuilt_def)

lemma canPermission_Inr:
  "canPermission m p s = Inr r \<longleftrightarrow> (\<exists>b. r = (b, s) \<and>
     Can s (m_GroupID m) (m_ID m) p \<lparr>rc_GroupID = m_GroupID m, rc_CategoryID = [], rc_ProductID = []\<rparr> = Inr b)"
  by (auto simp: canPermission_def split: sum.splits)

lemma Can_static: "static s' = static s \<Longrightarrow> Can s' = Can s"
  by (intro ext) (simp add: static_def Can_def EffectiveGrants_def direct_grants_def Let_def)

lemma member_user_static: "static s' = static s \<Longrightarrow> member_user g m s' = member_user g m s"
  by (simp add: member_user_def static_def cong: option.case_cong)

lemma applyCurrentVoidMetadata_Inr:
  "applyCurrentVoidMetadata b m now s = Inr (b', s') \<Longrightarrow>
     s' = s \<and> (\<exists>own any. canPermission m ''VOID_OWN_BOOKING'' s = Inr (own, s) \<and>
       canPermission m ''VOID_ANY_BOOKING'' s = Inr (any, s) \<and> b' = ApplyVoidMetadata b m own any now)"
  by (auto simp: applyCurrentVoidMetadata_def bind_eq_Inr canPermission_Inr)

lemma ApplyVoidMetadata_sel [simp]:
  "b_ID (ApplyVoidMetadata b m own any now) = b_ID b"
  "b_TotalMinor (ApplyVoidMetadata b m own any now) = b_TotalMinor b"
  "b_TargetMembershipID (ApplyVoidMetadata b m own any now) = b_TargetMembershipID b"
  "b_ActorMembershipID (ApplyVoidMetadata b m own any now) = b_ActorMembershipID b"
  "b_ProductID (ApplyVoidMetadata b m own any now) = b_ProductID b"
  "b_Quantity (ApplyVoidMetadata b m own any now) = b_Quantity b"
  "b_CreatedAt (ApplyVoidMetadata b m own any now) = b_CreatedAt b"
  "b_VoidedAt (ApplyVoidMetadata b m own any now) = b_VoidedAt b"
  by (simp_all add: ApplyVoidMetadata_def Let_def split: option.split)

lemma insert_booking_Inr:
  "insert_booking row s = Inr r \<longleftrightarrow> booking_ok s row \<and> (\<forall>x\<in>set (bookings s). bk_id x \<noteq> bk_id row) \<and>
     r = ((), s\<lparr>bookings := bookings s @ [row]\<rparr>)"
  by (simp add: insert_booking_def insert_row_Inr)

text \<open>The two rows of a booking, and the effect of posting it.\<close>

definition charge_row :: "string \<Rightarrow> booking_row \<Rightarrow> string \<Rightarrow> ledger_row" where
  "charge_row entryID b description = ledger_entry entryID (bk_group b) (bk_period b) (bk_target b) (bk_category b)
     (bk_id b) [] [] ''MEMBER_RECEIVABLE'' (bk_total b) description (bk_created_at b)"

definition revenue_row :: "string \<Rightarrow> booking_row \<Rightarrow> string \<Rightarrow> ledger_row" where
  "revenue_row entryID b description = ledger_entry entryID (bk_group b) (bk_period b) [] (bk_category b)
     (bk_id b) [] [] ''CATEGORY_REVENUE'' (- bk_total b) description (bk_created_at b)"

lemma createBooking_effect:
  assumes "createBookingForTargetTxWithAllocationRebuild env svc actor m productID quantity targetID reason details
      nowTime rebuild s = Inr (b, s')"
  defines "row \<equiv> booking_of m productID quantity targetID reason details (b_ID b) (Timestamp nowTime)"
  obtains i1 i2 where
    "bookings s' = bookings s @ [row]"
    "ledger s' = ledger s @ [charge_row i1 row (bd_ledgerDescription details), revenue_row i2 row (bd_ledgerDescription details)]"
    "static s' = static s" "idempotency s' = idempotency s"
    "booking_ok s row" "\<forall>x\<in>set (bookings s). bk_id x \<noteq> bk_id row"
    "i1 \<noteq> i2" "\<forall>x\<in>set (ledger s). le_id x \<noteq> i1 \<and> le_id x \<noteq> i2" "i1 \<noteq> []" "i2 \<noteq> []" "b_ID b \<noteq> []"
    "b_TotalMinor b = bd_totalMinor details" "b_TargetMembershipID b = targetID" "b_ProductID b = productID"
    "b_Quantity b = quantity" "b_ActorMembershipID b = m_ID m"
    "\<exists>p. member_user (m_GroupID m) targetID s = Some p"
    "\<exists>own any. canPermission m ''VOID_OWN_BOOKING'' s' = Inr (own, s') \<and> canPermission m ''VOID_ANY_BOOKING'' s' = Inr (any, s')"
proof -
  let ?now = "Timestamp nowTime" and ?id = "b_ID b"
  let ?row = "booking_of m productID quantity targetID reason details ?id ?now"
  note run = assms(1) [unfolded createBookingForTargetTxWithAllocationRebuild_def Let_def]
  from run obtain id s1 s2 s3 s4 s5 s6 p where
    a: "NewID env ''bok'' s = Inr (id, s1)"
       "insert_booking (booking_of m productID quantity targetID reason details id ?now) s1 = Inr ((), s2)"
       "insertLedger env (m_GroupID m) (bd_periodID details) targetID (bd_categoryID details) id [] []
          ''MEMBER_RECEIVABLE'' (bd_totalMinor details) (bd_ledgerDescription details) ?now s2 = Inr ((), s3)"
       "insertLedger env (m_GroupID m) (bd_periodID details) [] (bd_categoryID details) id [] []
          ''CATEGORY_REVENUE'' (- bd_totalMinor details) (bd_ledgerDescription details) ?now s3 = Inr ((), s4)"
       "(if rebuild then RebuildPaymentAllocations (m_GroupID m) targetID else ret ()) s4 = Inr ((), s5)"
       "(if targetID \<noteq> m_ID m then tx_bind (CreateTx env svc (assigned_notice m quantity targetID details id ?now)) (\<lambda>_. ret ())
          else ret ()) s5 = Inr ((), s6)"
       "member_user (m_GroupID m) targetID s6 = Some p"
    and rest: "tx_bind (applyCurrentVoidMetadata (new_booking m productID quantity targetID reason details (snd p) id ?now)
        m nowTime) (\<lambda>b. tx_bind (Record env (m_GroupID m) (UserID actor) (m_ID m) ''booking.created'' ''booking'' id
      [(''targetMembershipId'', AText targetID), (''unitPriceMinor'', ANumber (bd_unitPriceMinor details)),
       (''totalMinor'', ANumber (bd_totalMinor details))]) (\<lambda>_. ret b)) s6 = Inr (b, s')"
    by (auto simp: bind_eq_Inr split: prod.splits)
  let ?b0 = "new_booking m productID quantity targetID reason details (snd p) id ?now"
  obtain s7 where b0: "applyCurrentVoidMetadata ?b0 m nowTime s6 = Inr (b, s7)"
      "Record env (m_GroupID m) (UserID actor) (m_ID m) ''booking.created'' ''booking'' id
      [(''targetMembershipId'', AText targetID), (''unitPriceMinor'', ANumber (bd_unitPriceMinor details)),
       (''totalMinor'', ANumber (bd_totalMinor details))] s7 = Inr ((), s')"
    using rest by (auto simp: bind_eq_Inr)
  from applyCurrentVoidMetadata_Inr [OF b0(1)] obtain own any where meta: "s7 = s6"
      "canPermission m ''VOID_OWN_BOOKING'' s6 = Inr (own, s6)" "canPermission m ''VOID_ANY_BOOKING'' s6 = Inr (any, s6)"
      "b = ApplyVoidMetadata ?b0 m own any nowTime" by blast
  have id: "id = ?id" using meta by (simp add: new_booking_def)
  have s1: "books s1 = books s" "idempotency s1 = idempotency s"
    using a(1) by (auto intro: keepsD)
  have ins: "booking_ok s1 ?row" "\<forall>x\<in>set (bookings s1). bk_id x \<noteq> ?id" "s2 = s1\<lparr>bookings := bookings s1 @ [?row]\<rparr>"
    using a(2) by (auto simp: insert_booking_Inr id booking_of_def)
  obtain i1 where i1: "s3 = s2\<lparr>random_reads := Suc (random_reads s2), ledger := ledger s2 @ [charge_row i1 ?row (bd_ledgerDescription details)]\<rparr>"
      "\<forall>x\<in>set (ledger s2). le_id x \<noteq> i1" "i1 \<noteq> []"
    using a(3) by (auto elim!: insertLedger_Inr simp: charge_row_def booking_of_def id)
  obtain i2 where i2: "s4 = s3\<lparr>random_reads := Suc (random_reads s3), ledger := ledger s3 @ [revenue_row i2 ?row (bd_ledgerDescription details)]\<rparr>"
      "\<forall>x\<in>set (ledger s3). le_id x \<noteq> i2" "i2 \<noteq> []"
    using a(4) by (auto elim!: insertLedger_Inr simp: revenue_row_def booking_of_def id)
  have s5: "books s5 = books s4" "idempotency s5 = idempotency s4"
    using a(5) by (auto split: if_splits intro: keepsD)
  have s6: "books s6 = books s5" "idempotency s6 = idempotency s5"
    using a(6) by (auto simp: bind_eq_Inr split: if_splits intro: keepsD)
  have s': "books s' = books s6" "idempotency s' = idempotency s6"
    using b0(2) meta(1) by (auto intro: keepsD)
  have stat: "static s' = static s" "static s6 = static s" and bks: "bookings s1 = bookings s" and led: "ledger s1 = ledger s"
    using s1 s5 s6 s' ins(3) i1(1) i2(1) by (simp_all add: books_split)
  have out: "bookings s' = bookings s @ [?row]"
    "ledger s' = ledger s @ [charge_row i1 ?row (bd_ledgerDescription details), revenue_row i2 ?row (bd_ledgerDescription details)]"
    "idempotency s' = idempotency s"
    using s1 s5 s6 s' ins(3) i1(1) i2(1) by (simp_all add: books_split)
  have ok: "booking_ok s ?row"
    using ins(1) s1(1) by (simp add: booking_ok_def books_def static_def)
  have mu: "member_user (m_GroupID m) targetID s = Some p"
    using a(7) member_user_static [OF stat(2)] by simp
  have perms: "\<exists>own any. canPermission m ''VOID_OWN_BOOKING'' s' = Inr (own, s') \<and> canPermission m ''VOID_ANY_BOOKING'' s' = Inr (any, s')"
    using meta(2,3) Can_static [OF trans [OF stat(1) stat(2) [symmetric]]] by (simp add: canPermission_Inr)
  have ids: "i1 \<noteq> i2" "\<forall>x\<in>set (ledger s). le_id x \<noteq> i1 \<and> le_id x \<noteq> i2"
    using i1 i2 ins(3) led by (auto simp: charge_row_def)
  have fields: "b_TotalMinor b = bd_totalMinor details" "b_TargetMembershipID b = targetID" "b_ProductID b = productID"
    "b_Quantity b = quantity" "b_ActorMembershipID b = m_ID m"
    using meta(4) by (simp_all add: new_booking_def)
  have bid: "b_ID b \<noteq> []" "i1 \<noteq> []" "i2 \<noteq> []"
    using a(1) i1(3) i2(3) unfolding id [symmetric] by (auto simp: NewID_def)
  have fresh: "\<forall>x\<in>set (bookings s). bk_id x \<noteq> bk_id ?row"
    using ins(2) bks by (simp add: booking_of_def)
  show thesis
    by (rule that [of i1 i2]) (use out stat ok mu perms ids fields fresh bid in \<open>simp_all add: row_def\<close>)
qed

subsection \<open>Effect of a reversal\<close>

definition reversal_row :: "string \<Rightarrow> string \<Rightarrow> string \<Rightarrow> string \<Rightarrow> string \<Rightarrow> ledger_row \<Rightarrow> ledger_row" where
  "reversal_row groupID currentPeriod bookingID now entryID entry =
    ledger_entry entryID groupID currentPeriod (coalesce_text (le_membership entry)) (coalesce_text (le_category entry))
      bookingID [] (le_id entry) (le_account entry) (- le_amount entry) (''Reversal: '' @ le_description entry) now"

lemma reverse_entries:
  "each_tx (reverse_entry env g cp bid now) es s = Inr (u, s') \<Longrightarrow>
     \<exists>ids. length ids = length es \<and> ledger s' = ledger s @ map2 (reversal_row g cp bid now) ids es \<and>
       distinct ids \<and> [] \<notin> set ids \<and> (\<forall>x\<in>set (ledger s). le_id x \<notin> set ids) \<and>
       static s' = static s \<and> bookings s' = bookings s \<and> idempotency s' = idempotency s"
proof (induction es arbitrary: s)
  case (Cons e es)
  then obtain s1 where "reverse_entry env g cp bid now e s = Inr ((), s1)"
    and rest: "each_tx (reverse_entry env g cp bid now) es s1 = Inr (u, s')" by (auto simp: bind_eq_Inr)
  then obtain i where i: "s1 = s\<lparr>random_reads := Suc (random_reads s), ledger := ledger s @ [reversal_row g cp bid now i e]\<rparr>"
      "\<forall>x\<in>set (ledger s). le_id x \<noteq> i" "i \<noteq> []"
    by (auto simp: reverse_entry_def reversal_row_def elim!: insertLedger_Inr)
  obtain ids where ids: "length ids = length es" "ledger s' = ledger s1 @ map2 (reversal_row g cp bid now) ids es"
      "distinct ids" "[] \<notin> set ids" "\<forall>x\<in>set (ledger s1). le_id x \<notin> set ids"
      "static s' = static s1" "bookings s' = bookings s1" "idempotency s' = idempotency s1"
    using Cons.IH [OF rest] by blast
  show ?case
    using ids i by (intro exI [of _ "i # ids"]) (auto simp: reversal_row_def)
qed simp

text \<open>Who may reverse, and when a reason may be left out.\<close>

definition void_permission :: "membership \<Rightarrow> booking_row \<Rightarrow> string" where
  "void_permission m b = (if bk_actor b = m_ID m \<or> bk_target b = m_ID m then ''VOID_OWN_BOOKING'' else ''VOID_ANY_BOOKING'')"

lemma void_guards_Inr:
  assumes "void_guards env m b reason s = Inr (u, s')"
  obtains created required where "bk_voided_at b = None"
    "Can s (m_GroupID m) (m_ID m) (void_permission m b) \<lparr>rc_GroupID = m_GroupID m, rc_CategoryID = [], rc_ProductID = []\<rparr> = Inr True"
    "parse_rfc3339 (bk_created_at b) = Some created" "\<not> (required \<and> reason = [])"
    "(if bk_actor b \<noteq> m_ID m then ret True
      else tx_bind (Now env) (\<lambda>now. ret (\<not> now < created + voidWithoutReasonWindow))) s = Inr (required, s')"
proof -
  show thesis
    using assms unfolding void_guards_def void_permission_def [symmetric]
    apply (elim bind_InrE)
    subgoal premises prems for x s1 y s2 created s3 required s4
    proof (rule that [of created required])
      have eqs: "s1 = s" "s2 = s" "s3 = s" "s4 = s'"
        using prems by (simp_all only: reject_if_Inr requirePermission_Inr the_row_Inr prod.inject)
      show "(if bk_actor b \<noteq> m_ID m then ret True
        else tx_bind (Now env) (\<lambda>now. ret (\<not> now < created + voidWithoutReasonWindow))) s = Inr (required, s')"
        using prems(4) unfolding eqs .
    qed (use prems in \<open>simp_all only: reject_if_Inr requirePermission_Inr the_row_Inr prod.inject simp_thms not_not\<close>)
    done
qed

lemma void_guards_books:
  assumes "void_guards env m b reason s = Inr (u, s')"
  shows "books s' = books s" "idempotency s' = idempotency s"
  using assms by (auto elim!: void_guards_Inr simp: bind_eq_Inr Now_def split: if_splits)

lemma mark_voided_Inr:
  "mark_voided bid at mid reason s = Inr (u, s') \<longleftrightarrow>
     length (filter (\<lambda>x. bk_id x = bid \<and> bk_voided_at x = None) (bookings s)) = 1 \<and>
     s' = s\<lparr>bookings := update_rows (\<lambda>x. bk_id x = bid \<and> bk_voided_at x = None) (void_row at mid reason) (bookings s)\<rparr>"
  by (auto simp: mark_voided_def bind_eq_Inr)

lemma void_new_effect:
  assumes "void_new env svc actor m bid reason s = Inr (b, s')"
  obtains row cp at ids s1 where
    "first_row (\<lambda>x. bk_id x = bid \<and> bk_group x = m_GroupID m) (bookings s) = Some row"
    "\<exists>p\<in>set (periods s). pe_id p = cp \<and> pe_group p = m_GroupID m \<and> pe_status p = ''OPEN''"
    "length (filter (\<lambda>x. bk_id x = bid \<and> bk_voided_at x = None) (bookings s)) = 1"
    "bookings s' = update_rows (\<lambda>x. bk_id x = bid \<and> bk_voided_at x = None) (void_row at (m_ID m) reason) (bookings s)"
    "length ids = length (original_rows bid s)" "distinct ids" "[] \<notin> set ids" "\<forall>x\<in>set (ledger s). le_id x \<notin> set ids"
    "ledger s' = ledger s @ map2 (reversal_row (m_GroupID m) cp bid at) ids (original_rows bid s)"
    "static s' = static s" "idempotency s' = idempotency s"
    "b_ID b = bid" "b_TotalMinor b = bk_total row" "b_TargetMembershipID b = bk_target row" "b_VoidedAt b = Some at"
    "void_guards env m row reason s = Inr ((), s1)"
proof -
  note run = assms(1) [unfolded void_new_def Let_def]
  from run obtain row am au tm tu g cp s1 s2 now s3 s4 s5 s6 where
    a: "booking_people (m_GroupID m) bid s = Some (row, am, au, tm, tu)"
       "void_guards env m row reason s = Inr ((), s1)"
       "open_period (m_GroupID m) s1 = Inr (cp, s1)" "Now env s1 = Inr (now, s2)"
       "mark_voided bid (Timestamp now) (m_ID m) reason s2 = Inr ((), s3)"
       "each_tx (reverse_entry env (m_GroupID m) cp bid (Timestamp now)) (original_rows bid s3) s3 = Inr ((), s4)"
       "RebuildPaymentAllocations (m_GroupID m) (bk_target row) s4 = Inr ((), s5)"
       "(if m_ID m \<noteq> bk_target row
        then tx_bind (CreateTx env svc (reversed_notice m row (gr_currency g) (Timestamp now))) (\<lambda>_. ret ())
        else ret ()) s5 = Inr ((), s6)"
       "Record env (m_GroupID m) (UserID actor) (m_ID m) ''booking.voided'' ''booking'' bid
      [(''reason'', AText reason), (''originalPeriodId'', AText (bk_period row)), (''reversalPeriodId'', AText cp)] s6 = Inr ((), s')"
       "b = voided_booking row am au tm tu g (Timestamp now) reason"
    by (auto simp: bind_eq_Inr open_period_def)
  have row: "first_row (\<lambda>x. bk_id x = bid \<and> bk_group x = m_GroupID m) (bookings s) = Some row"
    using a(1) by (auto simp: booking_people_def split: option.splits prod.splits)
  then have bid: "bk_id row = bid" by (auto dest: first_row_Some)
  have s2: "books s2 = books s" "idempotency s2 = idempotency s"
    using void_guards_books [OF a(2)] a(4) by (auto simp: Now_def)
  have s3: "length (filter (\<lambda>x. bk_id x = bid \<and> bk_voided_at x = None) (bookings s2)) = 1"
    "s3 = s2\<lparr>bookings := update_rows (\<lambda>x. bk_id x = bid \<and> bk_voided_at x = None) (void_row (Timestamp now) (m_ID m) reason) (bookings s2)\<rparr>"
    using a(5) unfolding mark_voided_Inr by blast+
  obtain ids where ids: "length ids = length (original_rows bid s3)"
      "ledger s4 = ledger s3 @ map2 (reversal_row (m_GroupID m) cp bid (Timestamp now)) ids (original_rows bid s3)"
      "distinct ids" "[] \<notin> set ids" "\<forall>x\<in>set (ledger s3). le_id x \<notin> set ids"
      "static s4 = static s3" "bookings s4 = bookings s3" "idempotency s4 = idempotency s3"
    using reverse_entries [OF a(6)] by blast
  have s5: "books s5 = books s4" "idempotency s5 = idempotency s4" using a(7) by (auto intro: keepsD)
  have s6: "books s6 = books s5" "idempotency s6 = idempotency s5"
    using a(8) by (auto simp: bind_eq_Inr split: if_splits intro: keepsD)
  have s': "books s' = books s6" "idempotency s' = idempotency s6" using a(9) by (auto intro: keepsD)
  have orig: "original_rows bid s3 = original_rows bid s" "ledger s3 = ledger s" "static s3 = static s" "bookings s2 = bookings s"
    using s2 s3(2) by (simp_all add: original_rows_def books_split)
  have period: "\<exists>p\<in>set (periods s). pe_id p = cp \<and> pe_group p = m_GroupID m \<and> pe_status p = ''OPEN''"
  proof -
    have "periods s1 = periods s" using void_guards_books(1) [OF a(2)] by (simp add: books_def static_def)
    then show ?thesis using a(3) by (auto simp: open_period_def bind_eq_Inr dest!: first_row_Some)
  qed
  show thesis
  proof (rule that [of row cp "Timestamp now" ids s1])
    show "bookings s' = update_rows (\<lambda>x. bk_id x = bid \<and> bk_voided_at x = None) (void_row (Timestamp now) (m_ID m) reason) (bookings s)"
      "ledger s' = ledger s @ map2 (reversal_row (m_GroupID m) cp bid (Timestamp now)) ids (original_rows bid s)"
      "static s' = static s"
      using s' s6 s5 ids s3(2) orig by (simp_all add: books_split)
    show "idempotency s' = idempotency s" using s' s6 s5 ids s3(2) s2 by simp
  qed (use row period s3(1) orig ids a(2,10) bid in \<open>simp_all add: voided_booking_def\<close>)
qed

end
