(* ===== verification/ExternalAccounts.thy ===== *)
theory ExternalAccounts
  imports Ledger Authorization PaymentTargets
begin

text \<open>
  \<open>internal/externalaccounts\<close>: the cash, bank and PayPal accounts a group keeps outside the member
  ledger. \<open>access.go\<close> (feature flag, permission, collection version), \<open>ledger.go\<close> (external ledger legs
  with the int64 balance guard), \<open>validation.go\<close>, \<open>accounts.go\<close> (create, update, archive, delete, reorder),
  \<open>links.go\<close> (payment-method mapping) and \<open>transactions.go\<close> (manual movements, their reversal, and the
  postings made on behalf of a payment). The paged history query is not modelled; the projection of a
  single movement that commands return is.
\<close>

section \<open>Access\<close>

definition settings_of :: "string \<Rightarrow> db \<Rightarrow> settings_row option" where
  "settings_of groupID s = first_row (\<lambda>r. st_group r = groupID) (settings s)"

definition requireManualAccess :: "membership \<Rightarrow> string \<Rightarrow> unit dbtx" where
  "requireManualAccess m permission =
    tx_bind (Require (m_GroupID m) (m_ID m) permission
      \<lparr>rc_GroupID = m_GroupID m, rc_CategoryID = [], rc_ProductID = []\<rparr>) (\<lambda>_.
    tx_bind (gets (settings_of (m_GroupID m))) (\<lambda>row.
    tx_bind (the_row row ErrNotFound) (\<lambda>r.
    reject_if (\<not> st_external_enabled r) ErrExternalAccountsDisabled)))"

lemmas requireManualAccess_run [code] = fun_cong [OF requireManualAccess_def]

definition AuthorizeManagement :: "membership \<Rightarrow> unit dbtx" where
  "AuthorizeManagement m = requireManualAccess m ''MANAGE_EXTERNAL_ACCOUNTS''"

lemmas AuthorizeManagement_run [code] = fun_cong [OF AuthorizeManagement_def]

definition requireCollectionVersion :: "string \<Rightarrow> int \<Rightarrow> unit dbtx" where
  "requireCollectionVersion groupID expected =
    tx_bind (gets (settings_of groupID)) (\<lambda>row.
    tx_bind (the_row row ErrNoRows) (\<lambda>r.
    reject_if (st_external_version r \<noteq> expected) ErrPrecondition))"

lemmas requireCollectionVersion_run [code] = fun_cong [OF requireCollectionVersion_def]

definition bump_version :: "settings_row \<Rightarrow> settings_row" where
  "bump_version r = r\<lparr>st_external_version := st_external_version r + 1\<rparr>"

definition bumpCollectionVersion :: "env \<Rightarrow> string \<Rightarrow> int \<Rightarrow> unit dbtx" where
  "bumpCollectionVersion env groupID expected =
    tx_bind (Now env) (\<lambda>_.
    tx_bind (gets (\<lambda>s. length (filter (\<lambda>r. st_group r = groupID \<and> st_external_version r = expected) (settings s)))) (\<lambda>count.
    tx_bind (modify (settings_update (update_rows (\<lambda>r. st_group r = groupID \<and> st_external_version r = expected) bump_version))) (\<lambda>_.
    reject_if (count \<noteq> 1) ErrPrecondition)))"

lemmas bumpCollectionVersion_run [code] = fun_cong [OF bumpCollectionVersion_def]

definition groupCurrency :: "string \<Rightarrow> string dbtx" where
  "groupCurrency groupID =
    tx_bind (gets (\<lambda>s. first_row (\<lambda>g. gr_id g = groupID) (groups s))) (\<lambda>row.
    tx_bind (the_row row ErrNotFound) (\<lambda>g. ret (gr_currency g)))"

lemmas groupCurrency_run [code] = fun_cong [OF groupCurrency_def]

text \<open>\<open>mapConstraintError\<close>: a violated constraint becomes a validation error of the field.\<close>

definition mapConstraintError :: "string \<Rightarrow> 'a dbtx \<Rightarrow> 'a dbtx" where
  "mapConstraintError field m = (\<lambda>s. case m s of
     Inl (ErrConstraint _) \<Rightarrow> Inl (ValidationError field ''conflicts with existing group data'')
   | r \<Rightarrow> r)"

lemmas mapConstraintError_run [code] = fun_cong [OF mapConstraintError_def]

lemma mapConstraintError_Inr: "mapConstraintError field m s = Inr r \<longleftrightarrow> m s = Inr r"
  by (auto simp: mapConstraintError_def split: sum.splits error.splits)

section \<open>Ledger legs\<close>

definition live_account :: "string \<Rightarrow> string \<Rightarrow> external_account_row \<Rightarrow> bool" where
  "live_account groupID accountID a \<longleftrightarrow> xa_group a = groupID \<and> xa_id a = accountID \<and> xa_deleted_at a = None"

definition requireActiveAccounts :: "string \<Rightarrow> string \<Rightarrow> string option \<Rightarrow> unit dbtx" where
  "requireActiveAccounts groupID primary counterparty =
    each_tx (\<lambda>accountID.
      tx_bind (gets (\<lambda>s. first_row (live_account groupID accountID) (external_accounts s))) (\<lambda>row.
      tx_bind (the_row row ErrNotFound) (\<lambda>a.
      reject_if (xa_status a \<noteq> ''ACTIVE'') ErrConflict)))
    (primary # (case counterparty of None \<Rightarrow> [] | Some c \<Rightarrow> [c]))"

lemmas requireActiveAccounts_run [code] = fun_cong [OF requireActiveAccounts_def]

definition external_total :: "string \<Rightarrow> string \<Rightarrow> db \<Rightarrow> int" where
  "external_total groupID accountID s =
    sum_list (map le_amount (filter (\<lambda>r. le_group r = groupID \<and> le_external_account r = Some accountID) (ledger s)))"

definition ensureExternalAccountBalanceDelta :: "string \<Rightarrow> string \<Rightarrow> int \<Rightarrow> unit dbtx" where
  "ensureExternalAccountBalanceDelta groupID accountID delta =
    tx_bind (gets (external_total groupID accountID)) (\<lambda>total.
    reject_if (\<not> is_int64 (total + delta)) ErrConflict)"

lemmas ensureExternalAccountBalanceDelta_run [code] = fun_cong [OF ensureExternalAccountBalanceDelta_def]

definition external_entry ::
  "string \<Rightarrow> string \<Rightarrow> string \<Rightarrow> string \<Rightarrow> string \<Rightarrow> string \<Rightarrow> string \<Rightarrow> int \<Rightarrow> string \<Rightarrow> string \<Rightarrow> ledger_row" where
  "external_entry entryID groupID periodID accountID transactionID paymentID reversalOf amount description createdAt =
     \<lparr>le_id = entryID, le_group = groupID, le_period = Some periodID, le_membership = None, le_category = None,
      le_booking = None, le_payment = nullable paymentID, le_external_account = Some accountID,
      le_external_transaction = Some transactionID, le_reversal_of = nullable reversalOf,
      le_account = ''EXTERNAL_ACCOUNT'', le_amount = amount, le_description = description, le_created_at = createdAt\<rparr>"

definition insertExternalLedger ::
  "env \<Rightarrow> string \<Rightarrow> string \<Rightarrow> string \<Rightarrow> string \<Rightarrow> string \<Rightarrow> string \<Rightarrow> int \<Rightarrow> string \<Rightarrow> string \<Rightarrow> unit dbtx" where
  "insertExternalLedger env groupID periodID accountID transactionID paymentID reversalOf amount description createdAt =
    tx_bind (ensureExternalAccountBalanceDelta groupID accountID amount) (\<lambda>_.
    tx_bind (NewID env ''led'') (\<lambda>id.
    insert_ledger (external_entry id groupID periodID accountID transactionID paymentID reversalOf amount description createdAt)))"

lemmas insertExternalLedger_run [code] = fun_cong [OF insertExternalLedger_def]

definition offset_entry ::
  "string \<Rightarrow> string \<Rightarrow> string \<Rightarrow> string \<Rightarrow> string \<Rightarrow> int \<Rightarrow> string \<Rightarrow> string \<Rightarrow> ledger_row" where
  "offset_entry entryID groupID periodID transactionID reversalOf amount description createdAt =
     \<lparr>le_id = entryID, le_group = groupID, le_period = Some periodID, le_membership = None, le_category = None,
      le_booking = None, le_payment = None, le_external_account = None,
      le_external_transaction = Some transactionID, le_reversal_of = nullable reversalOf,
      le_account = ''EXTERNAL_OFFSET'', le_amount = amount, le_description = description, le_created_at = createdAt\<rparr>"

definition insertOffsetLedgerReversal ::
  "env \<Rightarrow> string \<Rightarrow> string \<Rightarrow> string \<Rightarrow> string \<Rightarrow> int \<Rightarrow> string \<Rightarrow> string \<Rightarrow> unit dbtx" where
  "insertOffsetLedgerReversal env groupID periodID transactionID reversalOf amount description createdAt =
    tx_bind (NewID env ''led'') (\<lambda>id.
    insert_ledger (offset_entry id groupID periodID transactionID reversalOf amount description createdAt))"

lemmas insertOffsetLedgerReversal_run [code] = fun_cong [OF insertOffsetLedgerReversal_def]

definition insertOffsetLedger ::
  "env \<Rightarrow> string \<Rightarrow> string \<Rightarrow> string \<Rightarrow> int \<Rightarrow> string \<Rightarrow> string \<Rightarrow> unit dbtx" where
  "insertOffsetLedger env groupID periodID transactionID amount description createdAt =
    insertOffsetLedgerReversal env groupID periodID transactionID [] amount description createdAt"

lemmas insertOffsetLedger_run [code] = fun_cong [OF insertOffsetLedger_def]

text \<open>The balances of all accounts with movements; one outside int64 is an error.\<close>

definition moved_accounts :: "string \<Rightarrow> db \<Rightarrow> string list" where
  "moved_accounts groupID s = remdups (concat (map (\<lambda>r. case le_external_account r of
      None \<Rightarrow> [] | Some a \<Rightarrow> if le_group r = groupID then [a] else []) (ledger s)))"

definition externalAccountBalances :: "string \<Rightarrow> (string \<Rightarrow> int) dbtx" where
  "externalAccountBalances groupID = (\<lambda>s.
     if list_ex (\<lambda>a. \<not> is_int64 (external_total groupID a s)) (moved_accounts groupID s) then Inl ErrConflict
     else Inr (\<lambda>a. external_total groupID a s, s))"

lemmas externalAccountBalances_run [code] = fun_cong [OF externalAccountBalances_def]

section \<open>Validation\<close>

text \<open>Bullets that replace provider details in responses: four times U+2022 in UTF-8.\<close>

definition bullets :: string where
  "bullets = concat (replicate 4 [CHR 0xE2, CHR 0x80, CHR 0xA2])"

definition validateRequiredText :: "string \<Rightarrow> string \<Rightarrow> int \<Rightarrow> unit result" where
  "validateRequiredText field value maximum =
    (if value = [] \<or> int (length value) > maximum \<or> list_ex (\<lambda>r. r < 32 \<or> r = 127) (runes value)
     then Inl (ValidationError field (''must contain 1 to '' @ show_int maximum @ '' plain-text characters''))
     else Inr ())"

definition bank_error :: "account_input \<Rightarrow> string \<Rightarrow> error option" where
  "bank_error input currency =
    (if currency \<noteq> ''EUR'' then Some (ValidationError ''type'' ''BANK accounts require an EUR group'')
     else case validateRequiredText ''sepaRecipientName'' (acc_SEPARecipientName input) 70 of
       Inl e \<Rightarrow> Some e
     | Inr _ \<Rightarrow>
       if \<not> ValidIBAN (acc_SEPAIBAN input) then Some (ValidationError ''sepaIban'' ''must be a checksum-valid IBAN'')
       else if acc_SEPABIC input \<noteq> [] \<and> \<not> ValidBIC (acc_SEPABIC input)
       then Some (ValidationError ''sepaBic'' ''must be a valid 8 or 11 character BIC'')
       else if acc_SEPABIC input = [] \<and> IBANRequiresBIC (acc_SEPAIBAN input)
       then Some (ValidationError ''sepaBic'' ''is required for a non-EEA IBAN'')
       else if acc_PayPalMeHandle input \<noteq> []
       then Some (ValidationError ''type'' ''contains fields for another provider'')
       else None)"

definition normalizeAccountInput :: "(string \<Rightarrow> url option) \<Rightarrow> account_input \<Rightarrow> string \<Rightarrow> account_input result" where
  "normalizeAccountInput parse_url input0 currency =
    (let input = input0\<lparr>acc_Name := TrimSpace (acc_Name input0), acc_Type := ToUpper (TrimSpace (acc_Type input0)),
           acc_PayPalMeHandle := TrimSpace (acc_PayPalMeHandle input0),
           acc_SEPARecipientName := TrimSpace (acc_SEPARecipientName input0),
           acc_SEPAIBAN := NormalizeIBAN (acc_SEPAIBAN input0), acc_SEPABIC := ToUpper (TrimSpace (acc_SEPABIC input0))\<rparr> in
     case validateRequiredText ''name'' (acc_Name input) 120 of
       Inl e \<Rightarrow> Inl e
     | Inr _ \<Rightarrow>
       if acc_Type input = ''CASH'' \<or> acc_Type input = ''OTHER'' then
         if acc_PayPalMeHandle input \<noteq> [] \<or> acc_SEPARecipientName input \<noteq> [] \<or> acc_SEPAIBAN input \<noteq> [] \<or> acc_SEPABIC input \<noteq> []
         then Inl (ValidationError ''type'' ''does not accept provider details'')
         else Inr input
       else if acc_Type input = ''PAYPAL'' then
         (case NormalizePayPalMeHandle parse_url (acc_PayPalMeHandle input) of
            Inl _ \<Rightarrow> Inl (ValidationError ''paypalMeHandle'' ''must contain a valid PayPal.Me handle'')
          | Inr handle \<Rightarrow>
            if acc_SEPARecipientName input \<noteq> [] \<or> acc_SEPAIBAN input \<noteq> [] \<or> acc_SEPABIC input \<noteq> []
            then Inl (ValidationError ''type'' ''contains fields for another provider'')
            else Inr (input\<lparr>acc_PayPalMeHandle := handle\<rparr>))
       else if acc_Type input = ''BANK'' then
         (case bank_error input currency of Some e \<Rightarrow> Inl e | None \<Rightarrow> Inr input)
       else Inl (ValidationError ''type'' ''must be CASH, BANK, PAYPAL, or OTHER''))"

definition last_four :: "string \<Rightarrow> string" where
  "last_four v = (if length v > 4 then drop (length v - 4) v else v)"

definition maskProviderDetails :: "external_account \<Rightarrow> external_account" where
  "maskProviderDetails a = a\<lparr>
     xac_PayPalMeHandle := (if xac_PayPalMeHandle a \<noteq> [] then bullets else []),
     xac_SEPARecipientName := (if xac_SEPARecipientName a \<noteq> [] then bullets else []),
     xac_SEPAIBAN := (if xac_SEPAIBAN a \<noteq> [] then bullets @ last_four (xac_SEPAIBAN a) else []),
     xac_SEPABIC := (if xac_SEPABIC a \<noteq> [] then bullets else [])\<rparr>"

definition preserveMaskedProviderDetails :: "account_input \<Rightarrow> account_input \<Rightarrow> account_input" where
  "preserveMaskedProviderDetails input previous =
    (if acc_Type input \<noteq> acc_Type previous then input
     else input\<lparr>
       acc_PayPalMeHandle := (if acc_PayPalMeHandle input = bullets then acc_PayPalMeHandle previous else acc_PayPalMeHandle input),
       acc_SEPARecipientName := (if acc_SEPARecipientName input = bullets then acc_SEPARecipientName previous
         else acc_SEPARecipientName input),
       acc_SEPAIBAN := (if acc_SEPAIBAN input = bullets @ last_four (acc_SEPAIBAN previous) then acc_SEPAIBAN previous
         else acc_SEPAIBAN input),
       acc_SEPABIC := (if acc_SEPABIC input = bullets then acc_SEPABIC previous else acc_SEPABIC input)\<rparr>)"

text \<open>A civil date stands for its midnight in UTC.\<close>

definition normalizeBookedAt :: "string \<Rightarrow> string result" where
  "normalizeBookedAt value0 =
    (let value = TrimSpace value0 in
     case parse_date value of
       Some d \<Rightarrow> Inr (format_date d @ ''T00:00:00Z'')
     | None \<Rightarrow> (case parse_rfc3339 value of
         None \<Rightarrow> Inl (ValidationError ''occurredAt'' ''must be an RFC 3339 timestamp or YYYY-MM-DD date'')
       | Some t \<Rightarrow> Inr (Timestamp t)))"

definition normalize_movement ::
  "create_transaction_input \<Rightarrow> normalized_transaction_input \<Rightarrow> normalized_transaction_input result" where
  "normalize_movement input normalized =
    (if xi_Kind input = ''INCOME'' then
       if xi_SourceAccountID input \<noteq> [] \<or> xi_DestinationAccountID input = []
       then Inl (ValidationError ''destinationAccountId'' ''income requires only a destination account'')
       else Inr (normalized\<lparr>nx_PrimaryAccountID := xi_DestinationAccountID input, nx_AmountMinor := xi_AmountMinor input\<rparr>)
     else if xi_Kind input = ''EXPENSE'' then
       if xi_SourceAccountID input = [] \<or> xi_DestinationAccountID input \<noteq> []
       then Inl (ValidationError ''sourceAccountId'' ''expense requires only a source account'')
       else Inr (normalized\<lparr>nx_PrimaryAccountID := xi_SourceAccountID input, nx_AmountMinor := - xi_AmountMinor input\<rparr>)
     else if xi_Kind input = ''TRANSFER'' then
       if xi_SourceAccountID input = [] \<or> xi_DestinationAccountID input = [] \<or>
          xi_SourceAccountID input = xi_DestinationAccountID input
       then Inl (ValidationError ''destinationAccountId'' ''transfer requires distinct source and destination accounts'')
       else Inr (normalized\<lparr>nx_PrimaryAccountID := xi_SourceAccountID input, nx_AmountMinor := - xi_AmountMinor input,
              nx_CounterpartyAccountID := Some (xi_DestinationAccountID input)\<rparr>)
     else Inl (ValidationError ''kind'' ''must be INCOME, EXPENSE, or TRANSFER''))"

definition normalizeTransactionInput :: "create_transaction_input \<Rightarrow> normalized_transaction_input result" where
  "normalizeTransactionInput input0 =
    (let input = input0\<lparr>xi_Kind := ToUpper (TrimSpace (xi_Kind input0)),
           xi_SourceAccountID := TrimSpace (xi_SourceAccountID input0),
           xi_DestinationAccountID := TrimSpace (xi_DestinationAccountID input0), xi_Reason := TrimSpace (xi_Reason input0),
           xi_Reference := TrimSpace (xi_Reference input0), xi_Note := TrimSpace (xi_Note input0)\<rparr> in
     case normalizeBookedAt (xi_OccurredAt input) of
       Inl e \<Rightarrow> Inl e
     | Inr bookedAt \<Rightarrow>
       if xi_AmountMinor input \<le> 0 \<or> xi_AmountMinor input > 100000000000000
       then Inl (ValidationError ''amountMinor'' ''must be a positive bounded minor-unit amount'')
       else case validateRequiredText ''reason'' (xi_Reason input) 120 of
         Inl e \<Rightarrow> Inl e
       | Inr _ \<Rightarrow>
         if length (xi_Reference input) > 120
         then Inl (ValidationError ''reference'' ''must contain at most 120 characters'')
         else if length (xi_Note input) > 2000
         then Inl (ValidationError ''note'' ''must contain at most 2000 characters'')
         else normalize_movement input
           \<lparr>nx_Kind = xi_Kind input, nx_PrimaryAccountID = [], nx_CounterpartyAccountID = None, nx_AmountMinor = 0,
            nx_BookedAt = bookedAt, nx_Reason = xi_Reason input, nx_Reference = xi_Reference input, nx_Note = xi_Note input\<rparr>)"

definition validStoredKind :: "string \<Rightarrow> bool" where
  "validStoredKind kind \<longleftrightarrow> kind \<in> set [''PAYMENT'', ''OPENING_BALANCE'', ''INCOME'', ''EXPENSE'', ''TRANSFER'', ''ADJUSTMENT'', ''REVERSAL'']"

section \<open>Movements\<close>

text \<open>The \<open>CHECK\<close> clauses, keys and unique indexes of \<open>external_account_transactions\<close>.\<close>

definition transaction_ok :: "db \<Rightarrow> external_transaction_row \<Rightarrow> bool" where
  "transaction_ok s r \<longleftrightarrow> validStoredKind (xr_kind r) \<and> xr_amount r \<noteq> 0 \<and>
     in_group xa_group xa_id (external_accounts s) (xr_group r) (Some (xr_primary r)) \<and>
     in_group xa_group xa_id (external_accounts s) (xr_group r) (xr_counterparty r) \<and>
     in_group py_group py_id (payments s) (xr_group r) (xr_payment r) \<and>
     in_group xr_group xr_id (external_transactions s) (xr_group r) (xr_reversal_of r) \<and>
     in_group xr_group xr_id (external_transactions s) (xr_group r) (xr_correction_of r) \<and>
     in_group ms_group ms_id (memberships s) (xr_group r) (Some (xr_created_by r)) \<and>
     xr_counterparty r \<noteq> Some (xr_primary r) \<and>
     (xr_kind r = ''TRANSFER'' \<or> xr_kind r = ''REVERSAL'' \<or> xr_counterparty r = None) \<and>
     (xr_kind r = ''TRANSFER'' \<longrightarrow> xr_counterparty r \<noteq> None) \<and>
     (xr_kind r = ''PAYMENT'' \<or> xr_kind r = ''REVERSAL'' \<or> xr_payment r = None) \<and>
     (xr_kind r = ''PAYMENT'' \<longrightarrow> xr_payment r \<noteq> None) \<and>
     (xr_kind r = ''REVERSAL'') = (xr_reversal_of r \<noteq> None) \<and>
     (xr_kind r = ''PAYMENT'' \<or> xr_kind r = ''REVERSAL'' \<longrightarrow> xr_correction_of r = None)"

definition transaction_clash :: "external_transaction_row \<Rightarrow> external_transaction_row \<Rightarrow> bool" where
  "transaction_clash x r \<longleftrightarrow> xr_id x = xr_id r \<or>
     xr_reversal_of r \<noteq> None \<and> xr_reversal_of x = xr_reversal_of r \<or>
     xr_correction_of r \<noteq> None \<and> xr_correction_of x = xr_correction_of r \<or>
     xr_payment r \<noteq> None \<and> xr_group x = xr_group r \<and> xr_payment x = xr_payment r \<and> xr_kind x = xr_kind r"

definition insert_transaction :: "external_transaction_row \<Rightarrow> unit dbtx" where
  "insert_transaction = insert_row external_transactions external_transactions_update ''external_account_transactions''
     transaction_ok transaction_clash"

lemmas insert_transaction_run [code] = fun_cong [OF insert_transaction_def]

definition transaction_row ::
  "string \<Rightarrow> string \<Rightarrow> string \<Rightarrow> string \<Rightarrow> string option \<Rightarrow> string option \<Rightarrow> int \<Rightarrow> string \<Rightarrow> string \<Rightarrow> string \<Rightarrow> string \<Rightarrow>
   string option \<Rightarrow> string \<Rightarrow> string \<Rightarrow> external_transaction_row" where
  "transaction_row transactionID groupID kind primary counterparty payment amount bookedAt reason reference note
       reversalOf createdBy createdAt =
     \<lparr>xr_id = transactionID, xr_group = groupID, xr_kind = kind, xr_primary = primary, xr_counterparty = counterparty,
      xr_payment = payment, xr_amount = amount, xr_booked_at = bookedAt, xr_reason = Some reason,
      xr_reference = nullable reference, xr_note = nullable note, xr_reversal_of = reversalOf, xr_correction_of = None,
      xr_created_by = createdBy, xr_created_at = createdAt\<rparr>"

text \<open>\<open>paymentattachments.Stored\<close>, what \<open>Attachments.Save\<close> answers for an accepted upload. The file system
  and the image codecs behind it are outside the model: a command takes the answer as its argument.\<close>

record stored_attachment =
  sa_StorageKey :: string
  sa_FileName :: string
  sa_MediaType :: string
  sa_SizeBytes :: int
  sa_SHA256 :: string

definition stored_ok :: "stored_attachment \<Rightarrow> bool" where
  "stored_ok a \<longleftrightarrow> length (sa_StorageKey a) = 68 \<and> take 64 (sa_StorageKey a) = sa_SHA256 a \<and>
     list_all (\<lambda>c. is_digit c \<or> CHR ''a'' \<le> c \<and> c \<le> CHR ''f'') (sa_SHA256 a) \<and>
     drop 64 (sa_StorageKey a) \<in> set [''.jpg'', ''.png'', ''.pdf''] \<and>
     sa_FileName a \<noteq> [] \<and> length (sa_FileName a) \<le> 240 \<and>
     sa_MediaType a \<in> set [''image/jpeg'', ''image/png'', ''application/pdf''] \<and>
     0 < sa_SizeBytes a \<and> sa_SizeBytes a \<le> 52428800"

definition insert_transaction_attachment :: "string \<Rightarrow> string \<Rightarrow> stored_attachment \<Rightarrow> string \<Rightarrow> unit dbtx" where
  "insert_transaction_attachment transactionID groupID a createdBy =
    insert_row transaction_attachments transaction_attachments_update ''external_account_transaction_attachments''
      (\<lambda>s r. stored_ok a \<and> in_group xr_group xr_id (external_transactions s) groupID (Some transactionID) \<and>
         in_group ms_group ms_id (memberships s) groupID (Some createdBy))
      (\<lambda>x r. xm_transaction x = xm_transaction r)
      \<lparr>xm_transaction = transactionID, xm_group = groupID, xm_storage_key = sa_StorageKey a, xm_filename = sa_FileName a,
       xm_media_type = sa_MediaType a, xm_size = sa_SizeBytes a, xm_sha256 = sa_SHA256 a, xm_created_by = createdBy\<rparr>"

lemmas insert_transaction_attachment_run [code] = fun_cong [OF insert_transaction_attachment_def]

text \<open>\<open>SELECT p.id,g.currency FROM groups g JOIN periods p ... status='OPEN'\<close>\<close>

definition open_period_currency :: "string \<Rightarrow> (string \<times> string) dbtx" where
  "open_period_currency groupID =
    tx_bind (gets (\<lambda>s. (first_row (\<lambda>g. gr_id g = groupID) (groups s),
      first_row (\<lambda>p. pe_group p = groupID \<and> pe_status p = ''OPEN'') (periods s)))) (\<lambda>found.
    case found of (Some g, Some p) \<Rightarrow> ret (pe_id p, gr_currency g) | _ \<Rightarrow> fail ErrNoRows)"

lemmas open_period_currency_run [code] = fun_cong [OF open_period_currency_def]

definition post_movement ::
  "env \<Rightarrow> string \<Rightarrow> string \<Rightarrow> string \<Rightarrow> normalized_transaction_input \<Rightarrow> string \<Rightarrow> unit dbtx" where
  "post_movement env groupID periodID transactionID input now =
    tx_bind (insertExternalLedger env groupID periodID (nx_PrimaryAccountID input) transactionID [] []
      (nx_AmountMinor input) (nx_Reason input) now) (\<lambda>_.
    if nx_Kind input = ''TRANSFER''
    then insertExternalLedger env groupID periodID (coalesce_text (nx_CounterpartyAccountID input)) transactionID [] []
      (- nx_AmountMinor input) (nx_Reason input) now
    else insertOffsetLedger env groupID periodID transactionID (- nx_AmountMinor input) (nx_Reason input) now)"

lemmas post_movement_run [code] = fun_cong [OF post_movement_def]

definition createManualTransactionTx ::
  "env \<Rightarrow> membership \<Rightarrow> normalized_transaction_input \<Rightarrow> stored_attachment option \<Rightarrow> external_transaction dbtx" where
  "createManualTransactionTx env m input attachment =
    tx_bind (requireActiveAccounts (m_GroupID m) (nx_PrimaryAccountID input) (nx_CounterpartyAccountID input)) (\<lambda>_.
    tx_bind (NewID env ''ext'') (\<lambda>transactionID.
    tx_bind (Now env) (\<lambda>nowTime.
    let now = Timestamp nowTime in
    tx_bind (insert_transaction (transaction_row transactionID (m_GroupID m) (nx_Kind input) (nx_PrimaryAccountID input)
      (nx_CounterpartyAccountID input) None (nx_AmountMinor input) (nx_BookedAt input) (nx_Reason input)
      (nx_Reference input) (nx_Note input) None (m_ID m) now)) (\<lambda>_.
    tx_bind (case attachment of None \<Rightarrow> ret ()
      | Some a \<Rightarrow> insert_transaction_attachment transactionID (m_GroupID m) a (m_ID m)) (\<lambda>_.
    tx_bind (open_period_currency (m_GroupID m)) (\<lambda>(periodID, currency).
    tx_bind (post_movement env (m_GroupID m) periodID transactionID input now) (\<lambda>_.
    ret \<lparr>xt_ID = transactionID, xt_GroupID = m_GroupID m, xt_Kind = nx_Kind input,
      xt_PrimaryAccountID = nx_PrimaryAccountID input, xt_CounterpartyAccountID = coalesce_text (nx_CounterpartyAccountID input),
      xt_PaymentID = [], xt_AmountMinor = nx_AmountMinor input, xt_Currency = currency, xt_BookedAt = nx_BookedAt input,
      xt_Reason = nx_Reason input, xt_Reference = nx_Reference input, xt_Note = nx_Note input, xt_ReversalOf = [],
      xt_CorrectionOf = [], xt_CreatedByMembershipID = m_ID m, xt_CreatedAt = now\<rparr>)))))))"

lemmas createManualTransactionTx_run [code] = fun_cong [OF createManualTransactionTx_def]

text \<open>The transaction to reverse, unless it stems from a payment, is itself a reversal or was reversed before.\<close>

definition reversible_transaction :: "string \<Rightarrow> string \<Rightarrow> external_transaction_row dbtx" where
  "reversible_transaction groupID transactionID =
    tx_bind (gets (\<lambda>s. first_row (\<lambda>t. xr_id t = transactionID \<and> xr_group t = groupID) (external_transactions s))) (\<lambda>row.
    tx_bind (the_row row ErrNotFound) (\<lambda>t.
    tx_bind (reject_if (xr_kind t = ''PAYMENT'' \<or> xr_kind t = ''REVERSAL'') ErrConflict) (\<lambda>_.
    tx_bind (gets (\<lambda>s. length (filter (\<lambda>x. xr_group x = groupID \<and> xr_reversal_of x = Some transactionID)
      (external_transactions s)))) (\<lambda>already.
    tx_bind (reject_if (already \<noteq> 0) ErrConflict) (\<lambda>_.
    ret t)))))"

lemmas reversible_transaction_run [code] = fun_cong [OF reversible_transaction_def]

definition movement_legs :: "string \<Rightarrow> string \<Rightarrow> db \<Rightarrow> ledger_row list" where
  "movement_legs groupID transactionID s =
    filter (\<lambda>r. le_group r = groupID \<and> le_external_transaction r = Some transactionID \<and> le_reversal_of r = None) (ledger s)"

definition reverse_leg :: "env \<Rightarrow> string \<Rightarrow> string \<Rightarrow> string \<Rightarrow> string \<Rightarrow> ledger_row \<Rightarrow> unit dbtx" where
  "reverse_leg env groupID periodID reversalID now leg =
    (case le_external_account leg of
       Some account \<Rightarrow> insertExternalLedger env groupID periodID account reversalID [] (le_id leg) (- le_amount leg)
         (''Reversal: '' @ le_description leg) now
     | None \<Rightarrow> insertOffsetLedgerReversal env groupID periodID reversalID (le_id leg) (- le_amount leg)
         (''Reversal: '' @ le_description leg) now)"

lemmas reverse_leg_run [code] = fun_cong [OF reverse_leg_def]

definition reverseTransactionTx :: "env \<Rightarrow> membership \<Rightarrow> string \<Rightarrow> string \<Rightarrow> string \<Rightarrow> external_transaction dbtx" where
  "reverseTransactionTx env m transactionID bookedAt reason =
    tx_bind (reversible_transaction (m_GroupID m) transactionID) (\<lambda>t.
    tx_bind (open_period_currency (m_GroupID m)) (\<lambda>(periodID, currency).
    tx_bind (NewID env ''ext'') (\<lambda>reversalID.
    tx_bind (Now env) (\<lambda>nowTime.
    let now = Timestamp nowTime in
    tx_bind (mapConstraintError ''transaction'' (insert_transaction (transaction_row reversalID (m_GroupID m) ''REVERSAL''
      (xr_primary t) (nullable (coalesce_text (xr_counterparty t))) (nullable (coalesce_text (xr_payment t)))
      (- xr_amount t) bookedAt reason [] [] (Some transactionID) (m_ID m) now))) (\<lambda>_.
    tx_bind (gets (movement_legs (m_GroupID m) transactionID)) (\<lambda>legs.
    tx_bind (each_tx (reverse_leg env (m_GroupID m) periodID reversalID now) legs) (\<lambda>_.
    ret \<lparr>xt_ID = reversalID, xt_GroupID = m_GroupID m, xt_Kind = ''REVERSAL'', xt_PrimaryAccountID = xr_primary t,
      xt_CounterpartyAccountID = coalesce_text (xr_counterparty t), xt_PaymentID = coalesce_text (xr_payment t),
      xt_AmountMinor = - xr_amount t, xt_Currency = currency, xt_BookedAt = bookedAt, xt_Reason = reason,
      xt_Reference = [], xt_Note = [], xt_ReversalOf = transactionID, xt_CorrectionOf = [],
      xt_CreatedByMembershipID = m_ID m, xt_CreatedAt = now\<rparr>)))))))"

lemmas reverseTransactionTx_run [code] = fun_cong [OF reverseTransactionTx_def]

section \<open>Accounts as rows\<close>

text \<open>The provider shape required by the table, and its unique indexes: name (ignoring ASCII case), sort
  position, PayPal handle and bank target, each within the group.\<close>

definition account_ok :: "db \<Rightarrow> external_account_row \<Rightarrow> bool" where
  "account_ok s a \<longleftrightarrow> list_ex (\<lambda>g. gr_id g = xa_group a) (groups s) \<and> xa_status a \<in> set [''ACTIVE'', ''ARCHIVED''] \<and>
     0 \<le> xa_sort_order a \<and> 1 \<le> xa_version a \<and>
     (xa_type a = ''BANK'' \<and> xa_paypal a = None \<and> xa_recipient a \<noteq> None \<and> xa_iban a \<noteq> None \<or>
      xa_type a = ''PAYPAL'' \<and> xa_paypal a \<noteq> None \<and> xa_recipient a = None \<and> xa_iban a = None \<and> xa_bic a = None \<or>
      xa_type a \<in> set [''CASH'', ''OTHER''] \<and> xa_paypal a = None \<and> xa_recipient a = None \<and> xa_iban a = None \<and> xa_bic a = None)"

definition account_clash :: "external_account_row \<Rightarrow> external_account_row \<Rightarrow> bool" where
  "account_clash x a \<longleftrightarrow> xa_id x = xa_id a \<or> xa_group x = xa_group a \<and>
     (map lower_char (xa_name x) = map lower_char (xa_name a) \<or> xa_sort_order x = xa_sort_order a \<or>
      xa_paypal a \<noteq> None \<and> map_option (map lower_char) (xa_paypal x) = map_option (map lower_char) (xa_paypal a) \<or>
      xa_iban a \<noteq> None \<and> xa_iban x = xa_iban a \<and> xa_recipient x = xa_recipient a \<and>
        coalesce_text (xa_bic x) = coalesce_text (xa_bic a))"

definition insert_account :: "external_account_row \<Rightarrow> unit dbtx" where
  "insert_account = insert_row external_accounts external_accounts_update ''external_accounts'' account_ok account_clash"

lemmas insert_account_run [code] = fun_cong [OF insert_account_def]

text \<open>\<open>UPDATE external_accounts SET ... WHERE P\<close>: the number of rows changed, unless a changed row violates
  a constraint or collides with another row.\<close>

definition update_accounts :: "(external_account_row \<Rightarrow> bool) \<Rightarrow> (external_account_row \<Rightarrow> external_account_row) \<Rightarrow> nat dbtx" where
  "update_accounts P f = (\<lambda>s.
     if list_ex (\<lambda>x. P x \<and> (\<not> account_ok s (f x) \<or>
          list_ex (\<lambda>y. xa_id y \<noteq> xa_id x \<and> account_clash y (f x)) (external_accounts s))) (external_accounts s)
     then Inl (ErrConstraint ''external_accounts'')
     else Inr (length (filter P (external_accounts s)),
       external_accounts_update (update_rows P f) s))"

lemmas update_accounts_run [code] = fun_cong [OF update_accounts_def]

definition external_balance :: "string \<Rightarrow> string \<Rightarrow> db \<Rightarrow> int" where
  "external_balance groupID accountID s = sum_list (map le_amount (filter (\<lambda>r. le_group r = groupID \<and>
     le_external_account r = Some accountID \<and> le_account r = ''EXTERNAL_ACCOUNT'') (ledger s)))"

definition restored_row :: "string \<Rightarrow> external_account_row \<Rightarrow> external_account_row" where
  "restored_row now a = a\<lparr>xa_deleted_at := None, xa_status := ''ARCHIVED'', xa_version := xa_version a + 1, xa_updated_at := now\<rparr>"

text \<open>One account of the loop: the number of identities restored.\<close>

definition restore_account :: "env \<Rightarrow> string \<Rightarrow> string \<Rightarrow> string \<Rightarrow> string \<Rightarrow> string \<Rightarrow> int dbtx" where
  "restore_account env groupID actorUserID actorMembershipID now accountID =
    tx_bind (gets (\<lambda>s. first_row (\<lambda>a. xa_group a = groupID \<and> xa_id a = accountID) (external_accounts s))) (\<lambda>row.
    tx_bind (the_row row ErrNoRows) (\<lambda>a.
    tx_bind (gets (external_balance groupID accountID)) (\<lambda>balanceMinor.
    if xa_deleted_at a = None \<or> balanceMinor = 0 then ret 0
    else
      tx_bind (update_accounts (\<lambda>x. xa_group x = groupID \<and> xa_id x = accountID \<and> xa_deleted_at x \<noteq> None) (restored_row now)) (\<lambda>count.
      tx_bind (reject_if (count \<noteq> 1) ErrConflict) (\<lambda>_.
      tx_bind (Record env groupID actorUserID actorMembershipID ''external_account.restored_after_reversal'' ''external_account''
        accountID [(''balanceMinor'', ANumber balanceMinor)]) (\<lambda>_.
      ret 1))))))"

lemmas restore_account_run [code] = fun_cong [OF restore_account_def]

fun restore_loop :: "env \<Rightarrow> string \<Rightarrow> string \<Rightarrow> string \<Rightarrow> string \<Rightarrow> string list \<Rightarrow> string list \<Rightarrow> int dbtx" where
  "restore_loop env groupID actorUserID actorMembershipID now seen [] = ret 0"
| "restore_loop env groupID actorUserID actorMembershipID now seen (accountID # rest) =
    (if accountID = [] \<or> accountID \<in> set seen
     then restore_loop env groupID actorUserID actorMembershipID now seen rest
     else tx_bind (restore_account env groupID actorUserID actorMembershipID now accountID) (\<lambda>n.
       tx_bind (restore_loop env groupID actorUserID actorMembershipID now (accountID # seen) rest) (\<lambda>k. ret (n + k))))"

definition restoreDeletedAccountsAfterReversalTx :: "env \<Rightarrow> string \<Rightarrow> string \<Rightarrow> string \<Rightarrow> string list \<Rightarrow> unit dbtx" where
  "restoreDeletedAccountsAfterReversalTx env groupID actorUserID actorMembershipID accountIDs =
    tx_bind (Now env) (\<lambda>nowTime.
    tx_bind (restore_loop env groupID actorUserID actorMembershipID (Timestamp nowTime) [] accountIDs) (\<lambda>restored.
    if restored = 0 then ret ()
    else modify (settings_update (update_rows (\<lambda>r. st_group r = groupID) bump_version))))"

lemmas restoreDeletedAccountsAfterReversalTx_run [code] = fun_cong [OF restoreDeletedAccountsAfterReversalTx_def]

section \<open>Postings for payments\<close>

definition PostPaymentTx ::
  "env \<Rightarrow> string \<Rightarrow> string \<Rightarrow> string \<Rightarrow> string \<Rightarrow> int \<Rightarrow> string \<Rightarrow> string \<Rightarrow> string \<Rightarrow> string \<Rightarrow> string \<Rightarrow> string \<Rightarrow> bool dbtx" where
  "PostPaymentTx env groupID actorMembershipID paymentID methodID amountMinor bookedAt reason reference note periodID createdAt =
    tx_bind (gets (\<lambda>s. first_row (\<lambda>p. pm_group p = groupID \<and> pm_id p = methodID) (payment_methods s))) (\<lambda>row.
    tx_bind (the_row row (ValidationError ''method'' ''is not configured for the group'')) (\<lambda>p.
    let accountID = coalesce_text (pm_external_account p) in
    if accountID = [] then ret False
    else
      tx_bind (gets (\<lambda>s. length (filter (\<lambda>a. live_account groupID accountID a \<and> xa_status a = ''ACTIVE'')
        (external_accounts s)))) (\<lambda>active.
      tx_bind (reject_if (active \<noteq> 1) ErrConflict) (\<lambda>_.
      tx_bind (NewID env ''ext'') (\<lambda>transactionID.
      tx_bind (insert_transaction (transaction_row transactionID groupID ''PAYMENT'' accountID None (Some paymentID)
        amountMinor bookedAt reason reference note None actorMembershipID createdAt)) (\<lambda>_.
      tx_bind (insertExternalLedger env groupID periodID accountID transactionID paymentID [] amountMinor reason createdAt) (\<lambda>_.
      ret True)))))))"

lemmas PostPaymentTx_run [code] = fun_cong [OF PostPaymentTx_def]

text \<open>The join of a payment's external transaction with its ledger leg.\<close>

definition payment_leg :: "string \<Rightarrow> string \<Rightarrow> db \<Rightarrow> (external_transaction_row \<times> ledger_row) option" where
  "payment_leg groupID paymentID s =
    first_row (\<lambda>_. True) (concat (map (\<lambda>t. map (\<lambda>l. (t, l)) (filter (\<lambda>l. le_group l = xr_group t \<and>
        le_external_transaction l = Some (xr_id t) \<and> le_external_account l = Some (xr_primary t)) (ledger s)))
      (filter (\<lambda>t. xr_group t = groupID \<and> xr_payment t = Some paymentID \<and> xr_kind t = ''PAYMENT'') (external_transactions s))))"

definition ReversePaymentTx ::
  "env \<Rightarrow> string \<Rightarrow> string \<Rightarrow> string \<Rightarrow> string \<Rightarrow> string \<Rightarrow> string \<Rightarrow> string \<Rightarrow> string \<Rightarrow> bool dbtx" where
  "ReversePaymentTx env groupID actorUserID actorMembershipID paymentID periodID bookedAt reason createdAt =
    tx_bind (gets (payment_leg groupID paymentID)) (\<lambda>found.
    case found of
      None \<Rightarrow> ret False
    | Some (t, leg) \<Rightarrow>
      tx_bind (NewID env ''ext'') (\<lambda>transactionID.
      tx_bind (mapConstraintError ''transaction'' (insert_transaction (transaction_row transactionID groupID ''REVERSAL''
        (xr_primary t) None (Some paymentID) (- xr_amount t) bookedAt reason [] [] (Some (xr_id t)) actorMembershipID createdAt))) (\<lambda>_.
      tx_bind (insertExternalLedger env groupID periodID (xr_primary t) transactionID paymentID (le_id leg) (- xr_amount t)
        reason createdAt) (\<lambda>_.
      tx_bind (restoreDeletedAccountsAfterReversalTx env groupID actorUserID actorMembershipID [xr_primary t]) (\<lambda>_.
      ret True)))))"

lemmas ReversePaymentTx_run [code] = fun_cong [OF ReversePaymentTx_def]

lemmas restore_loop_run [code] =
  fun_cong [OF restore_loop.simps(1)] fun_cong [OF restore_loop.simps(2)]

section \<open>The projection of a movement\<close>

definition account_reference_of :: "string \<Rightarrow> string \<Rightarrow> db \<Rightarrow> account_reference option" where
  "account_reference_of groupID accountID s =
    map_option (\<lambda>a. \<lparr>acr_ID = accountID, acr_Name = xa_name a, acr_Type = xa_type a\<rparr>)
      (first_row (\<lambda>a. xa_group a = groupID \<and> xa_id a = accountID) (external_accounts s))"

definition first_by_creation :: "external_transaction_row list \<Rightarrow> string" where
  "first_by_creation rows = (case sort_key (\<lambda>t. (xr_created_at t, xr_id t)) rows of [] \<Rightarrow> [] | t # _ \<Rightarrow> xr_id t)"

definition transactionAttachmentURL :: "string \<Rightarrow> string \<Rightarrow> string" where
  "transactionAttachmentURL groupID transactionID =
    ''/api/v1/groups/'' @ groupID @ ''/external-account-transactions/'' @ transactionID @ ''/attachment''"

definition transaction_attachment :: "external_transaction_row \<Rightarrow> db \<Rightarrow> attachment_summary option" where
  "transaction_attachment t s =
    map_option (\<lambda>x. \<lparr>at_FileName = xm_filename x, at_MediaType = xm_media_type x, at_SizeBytes = xm_size x,
        at_URL = transactionAttachmentURL (xr_group t) (xr_id t)\<rparr>)
      (first_row (\<lambda>x. xm_group x = xr_group t \<and> xm_transaction x = xr_id t) (transaction_attachments s))"

definition payment_derived :: "external_transaction_row \<Rightarrow> db \<Rightarrow> bool" where
  "payment_derived t s \<longleftrightarrow> xr_kind t = ''PAYMENT'' \<or>
     list_ex (\<lambda>x. xr_group x = xr_group t \<and> Some (xr_id x) = xr_reversal_of t \<and> xr_kind x = ''PAYMENT'') (external_transactions s)"

definition reversals_of :: "external_transaction_row \<Rightarrow> db \<Rightarrow> external_transaction_row list" where
  "reversals_of t s = filter (\<lambda>x. xr_group x = xr_group t \<and> xr_reversal_of x = Some (xr_id t)) (external_transactions s)"

definition view_of ::
  "external_transaction_row \<Rightarrow> string \<Rightarrow> account_reference \<Rightarrow> account_reference option \<Rightarrow> user_row \<Rightarrow> db \<Rightarrow> transaction_view" where
  "view_of t currency primary counterparty actor s =
    (let amount = xr_amount t; reversed = (reversals_of t s \<noteq> []) in
     \<lparr>tv_Transaction = \<lparr>xt_ID = xr_id t, xt_GroupID = xr_group t, xt_Kind = xr_kind t, xt_PrimaryAccountID = xr_primary t,
        xt_CounterpartyAccountID = coalesce_text (xr_counterparty t), xt_PaymentID = coalesce_text (xr_payment t),
        xt_AmountMinor = amount, xt_Currency = currency, xt_BookedAt = xr_booked_at t, xt_Reason = coalesce_text (xr_reason t),
        xt_Reference = coalesce_text (xr_reference t), xt_Note = coalesce_text (xr_note t),
        xt_ReversalOf = coalesce_text (xr_reversal_of t), xt_CorrectionOf = coalesce_text (xr_correction_of t),
        xt_CreatedByMembershipID = xr_created_by t, xt_CreatedAt = xr_created_at t\<rparr>,
      tv_Attachment = transaction_attachment t s,
      tv_Source = (if payment_derived t s then ''PAYMENT'' else ''MANUAL''),
      tv_OccurredAt = xr_booked_at t,
      tv_SourceAccount = (if amount < 0 then Some primary else counterparty),
      tv_DestinationAccount = (if amount < 0 then counterparty else Some primary),
      tv_Actor = \<lparr>ta_ID = xr_created_by t, ta_DisplayName = us_display_name actor, ta_AvatarURL = avatar_of actor\<rparr>,
      tv_Impacts = \<lparr>im_Account = primary, im_AmountMinor = amount\<rparr> #
        (case counterparty of None \<Rightarrow> [] | Some c \<Rightarrow> [\<lparr>im_Account = c, im_AmountMinor = - amount\<rparr>]),
      tv_Status = (if reversed then ''REVERSED'' else ''POSTED''),
      tv_ReversalOfID = coalesce_text (xr_reversal_of t), tv_ReplacementForID = coalesce_text (xr_correction_of t),
      tv_ReversedByID = first_by_creation (reversals_of t s),
      tv_ReplacementID = first_by_creation (filter (\<lambda>x. xr_group x = xr_group t \<and> xr_correction_of x = Some (xr_id t))
        (external_transactions s)),
      tv_CanReverse = (\<not> payment_derived t s \<and> xr_kind t \<noteq> ''REVERSAL'' \<and> \<not> reversed)\<rparr>)"

definition getTransactionView :: "string \<Rightarrow> string \<Rightarrow> transaction_view dbtx" where
  "getTransactionView groupID transactionID = (\<lambda>s.
     case first_row (\<lambda>t. xr_group t = groupID \<and> xr_id t = transactionID) (external_transactions s) of
       None \<Rightarrow> Inl ErrNotFound
     | Some t \<Rightarrow>
       (case (first_row (\<lambda>g. gr_id g = groupID) (groups s), account_reference_of groupID (xr_primary t) s,
              member_user groupID (xr_created_by t) s) of
          (Some g, Some primary, Some (_, actor)) \<Rightarrow>
            Inr (view_of t (gr_currency g) primary
              (map_option (\<lambda>c. case account_reference_of groupID c s of Some r \<Rightarrow> r
                 | None \<Rightarrow> \<lparr>acr_ID = c, acr_Name = [], acr_Type = []\<rparr>) (xr_counterparty t)) actor s, s)
        | _ \<Rightarrow> Inl ErrNotFound))"

lemmas getTransactionView_run [code] = fun_cong [OF getTransactionView_def]

definition GetTransaction :: "membership \<Rightarrow> string \<Rightarrow> transaction_view dbtx" where
  "GetTransaction m transactionID =
    tx_bind (requireManualAccess m ''VIEW_EXTERNAL_ACCOUNTS'') (\<lambda>_. getTransactionView (m_GroupID m) transactionID)"

section \<open>Manual movements\<close>

definition create_transaction_tx ::
  "env \<Rightarrow> principal \<Rightarrow> membership \<Rightarrow> string \<Rightarrow> normalized_transaction_input \<Rightarrow> stored_attachment option \<Rightarrow> transaction_view dbtx" where
  "create_transaction_tx env actor m key input attachment =
    (let requestHash = Hash env (ReqExternalTransaction input (case attachment of None \<Rightarrow> [] | Some a \<Rightarrow> sa_SHA256 a)) in
     tx_bind (requireManualAccess m ''MANAGE_EXTERNAL_ACCOUNTS'') (\<lambda>_.
     tx_bind (Load (m_GroupID m) (UserID actor) key requestHash) (\<lambda>found.
     case found of
       Some (RespTransaction view) \<Rightarrow> ret view
     | Some _ \<Rightarrow> fail decode_error
     | None \<Rightarrow>
       tx_bind (createManualTransactionTx env m input attachment) (\<lambda>created.
       tx_bind (Record env (m_GroupID m) (UserID actor) (m_ID m) ''external_account_transaction.created''
         ''external_account_transaction'' (xt_ID created) [(''kind'', AText (xt_Kind created)),
           (''amountMinor'', ANumber (xt_AmountMinor created)), (''primaryAccountId'', AText (xt_PrimaryAccountID created))]) (\<lambda>_.
       tx_bind (getTransactionView (m_GroupID m) (xt_ID created)) (\<lambda>view.
       tx_bind (Store env (m_GroupID m) (UserID actor) key requestHash 201 (RespTransaction view)) (\<lambda>_.
       ret view)))))))"

lemmas create_transaction_tx_run [code] = fun_cong [OF create_transaction_tx_def]

text \<open>The upload is what \<open>Attachments.Save\<close> answers, asked for after validation; a refused upload ends the
  command.\<close>

definition CreateTransactionWithAttachment ::
  "env \<Rightarrow> principal \<Rightarrow> membership \<Rightarrow> string \<Rightarrow> create_transaction_input \<Rightarrow> stored_attachment result option \<Rightarrow> db
     \<Rightarrow> transaction_view result \<times> db" where
  "CreateTransactionWithAttachment env actor m key input upload s =
    (case requireManualAccess m ''MANAGE_EXTERNAL_ACCOUNTS'' s of
       Inl e \<Rightarrow> (Inl e, s)
     | Inr _ \<Rightarrow> (case normalizeTransactionInput input of
         Inl e \<Rightarrow> (Inl e, s)
       | Inr normalized \<Rightarrow> (case ValidateKey key of
           Inl e \<Rightarrow> (Inl e, s)
         | Inr _ \<Rightarrow> (case upload of
             Some (Inl e) \<Rightarrow> (Inl e, s)
           | Some (Inr a) \<Rightarrow> WithTx (create_transaction_tx env actor m key normalized (Some a)) s
           | None \<Rightarrow> WithTx (create_transaction_tx env actor m key normalized None) s))))"

definition CreateTransaction ::
  "env \<Rightarrow> principal \<Rightarrow> membership \<Rightarrow> string \<Rightarrow> create_transaction_input \<Rightarrow> db \<Rightarrow> transaction_view result \<times> db" where
  "CreateTransaction env actor m key input s = CreateTransactionWithAttachment env actor m key input None s"

definition reverse_transaction_tx ::
  "env \<Rightarrow> principal \<Rightarrow> membership \<Rightarrow> string \<Rightarrow> string \<Rightarrow> string \<Rightarrow> string \<Rightarrow> transaction_view dbtx" where
  "reverse_transaction_tx env actor m key transactionID bookedAt reason =
    (let requestHash = Hash env (ReqReverseExternal transactionID reason) in
     tx_bind (requireManualAccess m ''MANAGE_EXTERNAL_ACCOUNTS'') (\<lambda>_.
     tx_bind (Load (m_GroupID m) (UserID actor) key requestHash) (\<lambda>found.
     case found of
       Some (RespTransaction view) \<Rightarrow> ret view
     | Some _ \<Rightarrow> fail decode_error
     | None \<Rightarrow>
       tx_bind (reverseTransactionTx env m transactionID bookedAt reason) (\<lambda>reversal.
       tx_bind (Record env (m_GroupID m) (UserID actor) (m_ID m) ''external_account_transaction.reversed''
         ''external_account_transaction'' transactionID [(''reversalId'', AText (xt_ID reversal)),
           (''amountMinor'', ANumber (xt_AmountMinor reversal))]) (\<lambda>_.
       tx_bind (restoreDeletedAccountsAfterReversalTx env (m_GroupID m) (UserID actor) (m_ID m)
         [xt_PrimaryAccountID reversal, xt_CounterpartyAccountID reversal]) (\<lambda>_.
       tx_bind (getTransactionView (m_GroupID m) (xt_ID reversal)) (\<lambda>view.
       tx_bind (Store env (m_GroupID m) (UserID actor) key requestHash 201 (RespTransaction view)) (\<lambda>_.
       ret view))))))))"

lemmas reverse_transaction_tx_run [code] = fun_cong [OF reverse_transaction_tx_def]

definition ReverseTransaction ::
  "env \<Rightarrow> principal \<Rightarrow> membership \<Rightarrow> string \<Rightarrow> string \<Rightarrow> string \<Rightarrow> db \<Rightarrow> transaction_view result \<times> db" where
  "ReverseTransaction env actor m key transactionID reason0 s =
    (case requireManualAccess m ''MANAGE_EXTERNAL_ACCOUNTS'' s of
       Inl e \<Rightarrow> (Inl e, s)
     | Inr _ \<Rightarrow>
       (let reason = TrimSpace reason0; bookedAt = Timestamp (env_now env (clock_reads s));
            s1 = s\<lparr>clock_reads := Suc (clock_reads s)\<rparr> in
        case validateRequiredText ''reason'' reason 240 of
          Inl e \<Rightarrow> (Inl e, s1)
        | Inr _ \<Rightarrow> (case ValidateKey key of
            Inl e \<Rightarrow> (Inl e, s1)
          | Inr _ \<Rightarrow> WithTx (reverse_transaction_tx env actor m key transactionID bookedAt reason) s1)))"

section \<open>Account configuration\<close>

text \<open>\<open>listAccounts\<close>: visible accounts, active ones first, each with its balance, links and the actions it
  allows.\<close>

definition has_transactions :: "external_account_row \<Rightarrow> db \<Rightarrow> bool" where
  "has_transactions a s \<longleftrightarrow>
     list_ex (\<lambda>t. xr_group t = xa_group a \<and> (xr_primary t = xa_id a \<or> xr_counterparty t = Some (xa_id a))) (external_transactions s) \<or>
     list_ex (\<lambda>r. le_group r = xa_group a \<and> le_external_account r = Some (xa_id a)) (ledger s)"

definition sorted_methods :: "string \<Rightarrow> db \<Rightarrow> payment_method_row list" where
  "sorted_methods groupID s = sort_key (\<lambda>p. (pm_sort_order p, pm_id p)) (filter (\<lambda>p. pm_group p = groupID) (payment_methods s))"

definition linked_methods :: "string \<Rightarrow> string \<Rightarrow> db \<Rightarrow> string list" where
  "linked_methods groupID accountID s = map pm_id (filter (\<lambda>p. pm_external_account p = Some accountID) (sorted_methods groupID s))"

definition account_of :: "string \<Rightarrow> (string \<Rightarrow> int) \<Rightarrow> db \<Rightarrow> external_account_row \<Rightarrow> external_account" where
  "account_of currency balances s a =
    (let used = has_transactions a s; links = linked_methods (xa_group a) (xa_id a) s; balance = balances (xa_id a) in
     maskProviderDetails \<lparr>xac_ID = xa_id a, xac_GroupID = xa_group a, xac_Name = xa_name a, xac_Type = xa_type a, xac_Status = xa_status a,
      xac_SortOrder = xa_sort_order a, xac_PayPalMeHandle = coalesce_text (xa_paypal a),
      xac_SEPARecipientName = coalesce_text (xa_recipient a), xac_SEPAIBAN = coalesce_text (xa_iban a),
      xac_SEPABIC = coalesce_text (xa_bic a), xac_BalanceMinor = balance, xac_Currency = currency,
      xac_LinkedPaymentMethodIDs = links, xac_HasTransactions = used, xac_CanChangeType = (\<not> used),
      xac_CanDelete = (xa_status a = ''ARCHIVED'' \<and> links = [] \<and> (\<not> used \<or> balance = 0)),
      xac_CanArchive = (xa_status a = ''ACTIVE''), xac_CanReactivate = (xa_status a = ''ARCHIVED''),
      xac_Version = xa_version a, xac_CreatedAt = xa_created_at a, xac_UpdatedAt = xa_updated_at a\<rparr>)"

definition visible_accounts :: "string \<Rightarrow> db \<Rightarrow> external_account_row list" where
  "visible_accounts groupID s = sort_key (\<lambda>a. (xa_status a = ''ARCHIVED'', xa_sort_order a, xa_id a))
     (filter (\<lambda>a. xa_group a = groupID \<and> xa_deleted_at a = None) (external_accounts s))"

definition listAccounts :: "string \<Rightarrow> account_collection dbtx" where
  "listAccounts groupID =
    tx_bind (gets (settings_of groupID)) (\<lambda>row.
    tx_bind (the_row row ErrNotFound) (\<lambda>r.
    tx_bind (externalAccountBalances groupID) (\<lambda>balances.
    gets (\<lambda>s. \<lparr>col_Items = (case first_row (\<lambda>g. gr_id g = groupID) (groups s) of None \<Rightarrow> []
        | Some g \<Rightarrow> map (account_of (gr_currency g) balances s) (visible_accounts groupID s)),
      col_Version = st_external_version r\<rparr>))))"

lemmas listAccounts_run [code] = fun_cong [OF listAccounts_def]

definition ListAccounts :: "membership \<Rightarrow> account_collection dbtx" where
  "ListAccounts m = tx_bind (requireManualAccess m ''VIEW_EXTERNAL_ACCOUNTS'') (\<lambda>_. listAccounts (m_GroupID m))"

definition normalize_opening :: "opening_balance_input \<Rightarrow> normalized_transaction_input result" where
  "normalize_opening ob =
    (case normalizeBookedAt (ob_OccurredAt ob) of
       Inl e \<Rightarrow> Inl e
     | Inr bookedAt \<Rightarrow>
       (let candidate = \<lparr>nx_Kind = ''OPENING_BALANCE'', nx_PrimaryAccountID = [], nx_CounterpartyAccountID = None,
              nx_AmountMinor = ob_AmountMinor ob, nx_BookedAt = bookedAt, nx_Reason = TrimSpace (ob_Reason ob),
              nx_Reference = TrimSpace (ob_Reference ob), nx_Note = TrimSpace (ob_Note ob)\<rparr> in
        if nx_AmountMinor candidate = 0 \<or> nx_AmountMinor candidate < - 100000000000000 \<or> nx_AmountMinor candidate > 100000000000000
        then Inl (ValidationError ''openingBalance.amountMinor''
          ''must be non-zero and at most 100000000000000 minor units in magnitude'')
        else case validateRequiredText ''openingBalance.reason'' (nx_Reason candidate) 120 of
          Inl e \<Rightarrow> Inl e
        | Inr _ \<Rightarrow>
          if length (nx_Reference candidate) > 120
          then Inl (ValidationError ''openingBalance.reference'' ''must contain at most 120 characters'')
          else if length (nx_Note candidate) > 2000
          then Inl (ValidationError ''openingBalance.note'' ''must contain at most 2000 characters'')
          else Inr candidate))"

definition prepare_account ::
  "(string \<Rightarrow> url option) \<Rightarrow> membership \<Rightarrow> string \<Rightarrow> account_input \<Rightarrow> opening_balance_input option
     \<Rightarrow> (account_input \<times> normalized_transaction_input option) dbtx" where
  "prepare_account parse_url m key input openingBalance =
    tx_bind (requireManualAccess m ''MANAGE_EXTERNAL_ACCOUNTS'') (\<lambda>_.
    tx_bind (groupCurrency (m_GroupID m)) (\<lambda>currency.
    tx_bind (lift_result (normalizeAccountInput parse_url input currency)) (\<lambda>normalized.
    tx_bind (lift_result (ValidateKey key)) (\<lambda>_.
    case openingBalance of
      None \<Rightarrow> ret (normalized, None)
    | Some ob \<Rightarrow> tx_bind (lift_result (normalize_opening ob)) (\<lambda>opening. ret (normalized, Some opening))))))"

lemmas prepare_account_run [code] = fun_cong [OF prepare_account_def]

definition next_sort_order :: "string \<Rightarrow> db \<Rightarrow> int" where
  "next_sort_order groupID s =
    foldr (\<lambda>a n. max n (xa_sort_order a + 1)) (filter (\<lambda>a. xa_group a = groupID) (external_accounts s)) 0"

definition provider_row :: "account_input \<Rightarrow> external_account_row \<Rightarrow> external_account_row" where
  "provider_row input a = a\<lparr>xa_name := acc_Name input, xa_type := acc_Type input, xa_paypal := nullable (acc_PayPalMeHandle input),
     xa_recipient := nullable (acc_SEPARecipientName input), xa_iban := nullable (acc_SEPAIBAN input),
     xa_bic := nullable (acc_SEPABIC input)\<rparr>"

definition create_account_body ::
  "env \<Rightarrow> principal \<Rightarrow> membership \<Rightarrow> int \<Rightarrow> account_input \<Rightarrow> normalized_transaction_input option \<Rightarrow> account_collection dbtx" where
  "create_account_body env actor m expectedVersion normalized opening =
    tx_bind (requireCollectionVersion (m_GroupID m) expectedVersion) (\<lambda>_.
    tx_bind (NewID env ''exa'') (\<lambda>accountID.
    tx_bind (gets (next_sort_order (m_GroupID m))) (\<lambda>sortOrder.
    tx_bind (Now env) (\<lambda>nowTime.
    let now = Timestamp nowTime in
    tx_bind (mapConstraintError ''name'' (insert_account (provider_row normalized
      \<lparr>xa_id = accountID, xa_group = m_GroupID m, xa_name = [], xa_type = [], xa_status = ''ACTIVE'', xa_sort_order = sortOrder,
       xa_paypal = None, xa_recipient = None, xa_iban = None, xa_bic = None, xa_version = 1, xa_deleted_at = None,
       xa_created_at = now, xa_updated_at = now\<rparr>))) (\<lambda>_.
    tx_bind (case opening of None \<Rightarrow> ret ()
      | Some ob \<Rightarrow> tx_bind (createManualTransactionTx env m (ob\<lparr>nx_PrimaryAccountID := accountID\<rparr>) None) (\<lambda>_. ret ())) (\<lambda>_.
    tx_bind (bumpCollectionVersion env (m_GroupID m) expectedVersion) (\<lambda>_.
    tx_bind (Record env (m_GroupID m) (UserID actor) (m_ID m) ''external_account.created'' ''external_account'' accountID
      ([(''type'', AText (acc_Type normalized)), (''openingBalance'', AFlag (opening \<noteq> None))] @
       (case opening of None \<Rightarrow> [] | Some ob \<Rightarrow> [(''openingAmountMinor'', ANumber (nx_AmountMinor ob))]))) (\<lambda>_.
    listAccounts (m_GroupID m)))))))))"

lemmas create_account_body_run [code] = fun_cong [OF create_account_body_def]

definition create_account_tx ::
  "env \<Rightarrow> principal \<Rightarrow> membership \<Rightarrow> string \<Rightarrow> int \<Rightarrow> account_input \<Rightarrow> normalized_transaction_input option \<Rightarrow> account_collection dbtx" where
  "create_account_tx env actor m key expectedVersion normalized opening =
    (let requestHash = Hash env (ReqCreateAccount normalized opening) in
     tx_bind (requireManualAccess m ''MANAGE_EXTERNAL_ACCOUNTS'') (\<lambda>_.
     tx_bind (Load (m_GroupID m) (UserID actor) key requestHash) (\<lambda>found.
     case found of
       Some (RespAccounts result) \<Rightarrow> ret result
     | Some _ \<Rightarrow> fail decode_error
     | None \<Rightarrow>
       tx_bind (create_account_body env actor m expectedVersion normalized opening) (\<lambda>result.
       tx_bind (Store env (m_GroupID m) (UserID actor) key requestHash 201 (RespAccounts result)) (\<lambda>_.
       ret result)))))"

lemmas create_account_tx_run [code] = fun_cong [OF create_account_tx_def]

definition CreateAccount ::
  "env \<Rightarrow> (string \<Rightarrow> url option) \<Rightarrow> principal \<Rightarrow> membership \<Rightarrow> string \<Rightarrow> int \<Rightarrow> account_input \<Rightarrow> opening_balance_input option \<Rightarrow> db
     \<Rightarrow> account_collection result \<times> db" where
  "CreateAccount env parse_url actor m key expectedVersion input openingBalance s =
    (case prepare_account parse_url m key input openingBalance s of
       Inl e \<Rightarrow> (Inl e, s)
     | Inr ((normalized, opening), _) \<Rightarrow> WithTx (create_account_tx env actor m key expectedVersion normalized opening) s)"

text \<open>The end every configuration command shares: advance the collection version, record, answer the new list.\<close>

definition finish_configuration ::
  "env \<Rightarrow> principal \<Rightarrow> membership \<Rightarrow> int \<Rightarrow> string \<Rightarrow> string \<Rightarrow> string \<Rightarrow> (string \<times> audit_value) list \<Rightarrow> account_collection dbtx" where
  "finish_configuration env actor m expectedVersion action resourceType resource metadata =
    tx_bind (bumpCollectionVersion env (m_GroupID m) expectedVersion) (\<lambda>_.
    tx_bind (Record env (m_GroupID m) (UserID actor) (m_ID m) action resourceType resource metadata) (\<lambda>_.
    listAccounts (m_GroupID m)))"

lemmas finish_configuration_run [code] = fun_cong [OF finish_configuration_def]

definition start_configuration :: "membership \<Rightarrow> int \<Rightarrow> unit dbtx" where
  "start_configuration m expectedVersion =
    tx_bind (requireManualAccess m ''MANAGE_EXTERNAL_ACCOUNTS'') (\<lambda>_.
    requireCollectionVersion (m_GroupID m) expectedVersion)"

lemmas start_configuration_run [code] = fun_cong [OF start_configuration_def]

definition updated_row :: "account_input \<Rightarrow> string \<Rightarrow> external_account_row \<Rightarrow> external_account_row" where
  "updated_row normalized now a = (provider_row normalized a)\<lparr>xa_version := xa_version a + 1, xa_updated_at := now\<rparr>"

definition stored_input :: "external_account_row \<Rightarrow> account_input" where
  "stored_input a = \<lparr>acc_Name = [], acc_Type = xa_type a, acc_PayPalMeHandle = coalesce_text (xa_paypal a),
     acc_SEPARecipientName = coalesce_text (xa_recipient a), acc_SEPAIBAN = coalesce_text (xa_iban a),
     acc_SEPABIC = coalesce_text (xa_bic a)\<rparr>"

definition update_account_tx ::
  "env \<Rightarrow> (string \<Rightarrow> url option) \<Rightarrow> principal \<Rightarrow> membership \<Rightarrow> string \<Rightarrow> account_input \<Rightarrow> string \<Rightarrow> int \<Rightarrow> account_collection dbtx" where
  "update_account_tx env parse_url actor m accountID input currency expectedVersion =
    tx_bind (start_configuration m expectedVersion) (\<lambda>_.
    tx_bind (gets (\<lambda>s. first_row (live_account (m_GroupID m) accountID) (external_accounts s))) (\<lambda>row.
    tx_bind (the_row row ErrNotFound) (\<lambda>a.
    tx_bind (lift_result (normalizeAccountInput parse_url (preserveMaskedProviderDetails input (stored_input a)) currency)) (\<lambda>normalized.
    tx_bind (gets (\<lambda>s. length (filter (\<lambda>r. le_group r = m_GroupID m \<and> le_external_account r = Some accountID) (ledger s)))) (\<lambda>movements.
    tx_bind (reject_if (xa_type a \<noteq> acc_Type normalized \<and> movements \<noteq> 0) ErrConflict) (\<lambda>_.
    tx_bind (Now env) (\<lambda>nowTime.
    tx_bind (mapConstraintError ''name'' (update_accounts (live_account (m_GroupID m) accountID)
      (updated_row normalized (Timestamp nowTime)))) (\<lambda>count.
    tx_bind (reject_if (count \<noteq> 1) ErrNotFound) (\<lambda>_.
    finish_configuration env actor m expectedVersion ''external_account.updated'' ''external_account'' accountID
      [(''previousType'', AText (xa_type a)), (''currentType'', AText (acc_Type normalized))])))))))))"

lemmas update_account_tx_run [code] = fun_cong [OF update_account_tx_def]

definition UpdateAccount ::
  "env \<Rightarrow> (string \<Rightarrow> url option) \<Rightarrow> principal \<Rightarrow> membership \<Rightarrow> string \<Rightarrow> account_input \<Rightarrow> int \<Rightarrow> db \<Rightarrow> account_collection result \<times> db" where
  "UpdateAccount env parse_url actor m accountID input expectedVersion s =
    (case tx_bind (AuthorizeManagement m) (\<lambda>_. groupCurrency (m_GroupID m)) s of
       Inl e \<Rightarrow> (Inl e, s)
     | Inr (currency, _) \<Rightarrow> WithTx (update_account_tx env parse_url actor m accountID input currency expectedVersion) s)"

definition status_row :: "string \<Rightarrow> string \<Rightarrow> external_account_row \<Rightarrow> external_account_row" where
  "status_row target now a = a\<lparr>xa_status := target, xa_version := xa_version a + 1, xa_updated_at := now\<rparr>"

definition detach_methods :: "string \<Rightarrow> string \<Rightarrow> int dbtx" where
  "detach_methods groupID accountID =
    tx_bind (gets (\<lambda>s. int (length (filter (\<lambda>p. pm_group p = groupID \<and> pm_external_account p = Some accountID)
      (payment_methods s))))) (\<lambda>count.
    tx_bind (modify (payment_methods_update (update_rows (\<lambda>p. pm_group p = groupID \<and> pm_external_account p = Some accountID)
      (\<lambda>p. p\<lparr>pm_external_account := None\<rparr>)))) (\<lambda>_.
    ret count))"

lemmas detach_methods_run [code] = fun_cong [OF detach_methods_def]

definition set_archived_tx ::
  "env \<Rightarrow> principal \<Rightarrow> membership \<Rightarrow> string \<Rightarrow> bool \<Rightarrow> int \<Rightarrow> account_collection dbtx" where
  "set_archived_tx env actor m accountID archived expectedVersion =
    (let target = (if archived then ''ARCHIVED'' else ''ACTIVE'');
         action = (if archived then ''external_account.archived'' else ''external_account.reactivated'') in
     tx_bind (start_configuration m expectedVersion) (\<lambda>_.
     tx_bind (if archived then detach_methods (m_GroupID m) accountID else ret 0) (\<lambda>detached.
     tx_bind (Now env) (\<lambda>nowTime.
     tx_bind (update_accounts (\<lambda>a. live_account (m_GroupID m) accountID a \<and> xa_status a \<noteq> target)
       (status_row target (Timestamp nowTime))) (\<lambda>count.
     tx_bind (gets (\<lambda>s. list_ex (live_account (m_GroupID m) accountID) (external_accounts s))) (\<lambda>exists.
     tx_bind (reject_if (count \<noteq> 1) (if exists then ErrConflict else ErrNotFound)) (\<lambda>_.
     finish_configuration env actor m expectedVersion action ''external_account'' accountID
       (if archived then [(''detachedPaymentMethodCount'', ANumber detached)] else []))))))))"

lemmas set_archived_tx_run [code] = fun_cong [OF set_archived_tx_def]

definition SetAccountArchived ::
  "env \<Rightarrow> principal \<Rightarrow> membership \<Rightarrow> string \<Rightarrow> bool \<Rightarrow> int \<Rightarrow> db \<Rightarrow> account_collection result \<times> db" where
  "SetAccountArchived env actor m accountID archived expectedVersion =
    WithTx (set_archived_tx env actor m accountID archived expectedVersion)"

definition delete_row :: "env \<Rightarrow> membership \<Rightarrow> string \<Rightarrow> bool \<Rightarrow> unit dbtx" where
  "delete_row env m accountID used =
    (if used then
       tx_bind (Now env) (\<lambda>nowTime.
       tx_bind (update_accounts (live_account (m_GroupID m) accountID) (\<lambda>a. a\<lparr>xa_deleted_at := Some (Timestamp nowTime),
         xa_version := xa_version a + 1, xa_updated_at := Timestamp nowTime\<rparr>)) (\<lambda>count.
       reject_if (count \<noteq> 1) ErrNotFound))
     else
       tx_bind (gets (\<lambda>s. length (filter (live_account (m_GroupID m) accountID) (external_accounts s)))) (\<lambda>count.
       tx_bind (modify (external_accounts_update (filter (\<lambda>a. \<not> live_account (m_GroupID m) accountID a)))) (\<lambda>_.
       reject_if (count \<noteq> 1) ErrNotFound)))"

lemmas delete_row_run [code] = fun_cong [OF delete_row_def]

definition delete_account_tx :: "env \<Rightarrow> principal \<Rightarrow> membership \<Rightarrow> string \<Rightarrow> int \<Rightarrow> account_collection dbtx" where
  "delete_account_tx env actor m accountID expectedVersion =
    tx_bind (start_configuration m expectedVersion) (\<lambda>_.
    tx_bind (gets (\<lambda>s. first_row (live_account (m_GroupID m) accountID) (external_accounts s))) (\<lambda>row.
    tx_bind (the_row row ErrNotFound) (\<lambda>a.
    tx_bind (reject_if (xa_status a \<noteq> ''ARCHIVED'') ErrConflict) (\<lambda>_.
    tx_bind (gets (\<lambda>s. filter (\<lambda>p. pm_group p = m_GroupID m \<and> pm_external_account p = Some accountID) (payment_methods s))) (\<lambda>links.
    tx_bind (reject_if (links \<noteq> []) ErrConflict) (\<lambda>_.
    tx_bind (gets (has_transactions a)) (\<lambda>used.
    tx_bind (gets (external_balance (m_GroupID m) accountID)) (\<lambda>balanceMinor.
    tx_bind (reject_if (used \<and> balanceMinor \<noteq> 0) ErrConflict) (\<lambda>_.
    tx_bind (delete_row env m accountID used) (\<lambda>_.
    finish_configuration env actor m expectedVersion ''external_account.deleted'' ''external_account'' accountID
      [(''mode'', AText (if used then ''historical'' else ''physical''))]))))))))))"

lemmas delete_account_tx_run [code] = fun_cong [OF delete_account_tx_def]

definition DeleteAccount :: "env \<Rightarrow> principal \<Rightarrow> membership \<Rightarrow> string \<Rightarrow> int \<Rightarrow> db \<Rightarrow> account_collection result \<times> db" where
  "DeleteAccount env actor m accountID expectedVersion = WithTx (delete_account_tx env actor m accountID expectedVersion)"

section \<open>Order and links\<close>

fun check_order :: "string list \<Rightarrow> string list \<Rightarrow> string list \<Rightarrow> unit dbtx" where
  "check_order existing seen [] = ret ()"
| "check_order existing seen (accountID # rest) =
    (if accountID \<in> set seen \<or> accountID \<notin> set existing
     then fail (ValidationError ''accountIds'' ''must contain every account exactly once'')
     else check_order existing (accountID # seen) rest)"

lemmas check_order_run [code] = fun_cong [OF check_order.simps(1)] fun_cong [OF check_order.simps(2)]

fun place_accounts :: "string \<Rightarrow> string \<Rightarrow> int \<Rightarrow> string list \<Rightarrow> unit dbtx" where
  "place_accounts groupID now position [] = ret ()"
| "place_accounts groupID now position (accountID # rest) =
    tx_bind (update_accounts (live_account groupID accountID) (\<lambda>a. a\<lparr>xa_sort_order := position,
      xa_version := xa_version a + 1, xa_updated_at := now\<rparr>)) (\<lambda>_.
    place_accounts groupID now (position + 1) rest)"

lemmas place_accounts_run [code] = fun_cong [OF place_accounts.simps(1)] fun_cong [OF place_accounts.simps(2)]

definition group_accounts :: "string \<Rightarrow> db \<Rightarrow> external_account_row list" where
  "group_accounts groupID s = filter (\<lambda>a. xa_group a = groupID) (external_accounts s)"

definition live_accounts :: "string \<Rightarrow> db \<Rightarrow> external_account_row list" where
  "live_accounts groupID s = filter (\<lambda>a. xa_deleted_at a = None) (group_accounts groupID s)"

definition max_order :: "int \<Rightarrow> external_account_row list \<Rightarrow> int" where
  "max_order least rows = (case rows of [] \<Rightarrow> least | _ \<Rightarrow> foldr max (map xa_sort_order (tl rows)) (xa_sort_order (hd rows)))"

definition reorder_tx :: "env \<Rightarrow> principal \<Rightarrow> membership \<Rightarrow> string list \<Rightarrow> int \<Rightarrow> account_collection dbtx" where
  "reorder_tx env actor m accountIDs expectedVersion =
    tx_bind (start_configuration m expectedVersion) (\<lambda>_.
    tx_bind (gets (\<lambda>s. map xa_id (live_accounts (m_GroupID m) s))) (\<lambda>existing.
    tx_bind (reject_if (length existing \<noteq> length accountIDs)
      (ValidationError ''accountIds'' ''must contain every account exactly once'')) (\<lambda>_.
    tx_bind (check_order existing [] accountIDs) (\<lambda>_.
    tx_bind (Now env) (\<lambda>nowTime.
    tx_bind (gets (\<lambda>s. max_order 0 (group_accounts (m_GroupID m) s))) (\<lambda>maximum.
    tx_bind (gets (\<lambda>s. max_order (- 1) (filter (\<lambda>a. xa_deleted_at a \<noteq> None) (group_accounts (m_GroupID m) s)) + 1)) (\<lambda>visibleBase.
    tx_bind (update_accounts (\<lambda>a. xa_group a = m_GroupID m \<and> xa_deleted_at a = None)
      (\<lambda>a. a\<lparr>xa_sort_order := xa_sort_order a + (maximum + int (length accountIDs) + 1)\<rparr>)) (\<lambda>_.
    tx_bind (place_accounts (m_GroupID m) (Timestamp nowTime) visibleBase accountIDs) (\<lambda>_.
    finish_configuration env actor m expectedVersion ''external_accounts.reordered'' ''group'' (m_GroupID m)
      [(''accountCount'', ANumber (int (length accountIDs)))])))))))))"

lemmas reorder_tx_run [code] = fun_cong [OF reorder_tx_def]

definition ReorderAccounts :: "env \<Rightarrow> principal \<Rightarrow> membership \<Rightarrow> string list \<Rightarrow> int \<Rightarrow> db \<Rightarrow> account_collection result \<times> db" where
  "ReorderAccounts env actor m accountIDs expectedVersion = WithTx (reorder_tx env actor m accountIDs expectedVersion)"

record payment_method_link =
  ln_PaymentMethodID :: string
  ln_ExternalAccountID :: "string option"

definition listPaymentMethodLinks :: "string \<Rightarrow> (payment_method_link list \<times> int) dbtx" where
  "listPaymentMethodLinks groupID =
    tx_bind (gets (settings_of groupID)) (\<lambda>row.
    tx_bind (the_row row ErrNotFound) (\<lambda>r.
    gets (\<lambda>s. (map (\<lambda>p. \<lparr>ln_PaymentMethodID = pm_id p, ln_ExternalAccountID = pm_external_account p\<rparr>) (sorted_methods groupID s),
      st_external_version r))))"

lemmas listPaymentMethodLinks_run [code] = fun_cong [OF listPaymentMethodLinks_def]

definition ListPaymentMethodLinks :: "membership \<Rightarrow> (payment_method_link list \<times> int) dbtx" where
  "ListPaymentMethodLinks m =
    tx_bind (requireManualAccess m ''VIEW_EXTERNAL_ACCOUNTS'') (\<lambda>_. listPaymentMethodLinks (m_GroupID m))"

definition link_target :: "string \<Rightarrow> string option \<Rightarrow> string option dbtx" where
  "link_target groupID externalAccountID =
    (case externalAccountID of
       None \<Rightarrow> ret None
     | Some raw \<Rightarrow>
       (let accountID = TrimSpace raw in
        tx_bind (reject_if (accountID = [])
          (ValidationError ''links.externalAccountId'' ''must be a non-empty account ID or null'')) (\<lambda>_.
        tx_bind (gets (\<lambda>s. first_row (live_account groupID accountID) (external_accounts s))) (\<lambda>row.
        tx_bind (the_row row ErrNotFound) (\<lambda>a.
        tx_bind (reject_if (xa_status a \<noteq> ''ACTIVE'') ErrConflict) (\<lambda>_.
        ret (Some accountID)))))))"

lemmas link_target_run [code] = fun_cong [OF link_target_def]

text \<open>The loop over the submitted links: the number of methods linked to an account.\<close>

fun replace_loop :: "string \<Rightarrow> string list \<Rightarrow> string list \<Rightarrow> payment_method_link list \<Rightarrow> int dbtx" where
  "replace_loop groupID existing seen [] = ret 0"
| "replace_loop groupID existing seen (link # rest) =
    (let methodID = ln_PaymentMethodID link in
     if methodID \<notin> set existing \<or> methodID \<in> set seen
     then fail (ValidationError ''links'' ''must contain every payment method exactly once'')
     else
       tx_bind (link_target groupID (ln_ExternalAccountID link)) (\<lambda>account.
       tx_bind (modify (payment_methods_update (update_rows (\<lambda>p. pm_id p = methodID \<and> pm_group p = groupID)
         (\<lambda>p. p\<lparr>pm_external_account := account\<rparr>)))) (\<lambda>_.
       tx_bind (replace_loop groupID existing (methodID # seen) rest) (\<lambda>n.
       ret (n + (if account = None then 0 else 1))))))"

lemmas replace_loop_run [code] = fun_cong [OF replace_loop.simps(1)] fun_cong [OF replace_loop.simps(2)]

definition replace_links_tx :: "env \<Rightarrow> principal \<Rightarrow> membership \<Rightarrow> payment_method_link list \<Rightarrow> int \<Rightarrow> (payment_method_link list \<times> int) dbtx" where
  "replace_links_tx env actor m links expectedVersion =
    tx_bind (start_configuration m expectedVersion) (\<lambda>_.
    tx_bind (listPaymentMethodLinks (m_GroupID m)) (\<lambda>(current, _).
    tx_bind (reject_if (length links \<noteq> length current)
      (ValidationError ''links'' ''must contain every payment method exactly once'')) (\<lambda>_.
    tx_bind (replace_loop (m_GroupID m) (map ln_PaymentMethodID current) [] links) (\<lambda>linkedCount.
    tx_bind (bumpCollectionVersion env (m_GroupID m) expectedVersion) (\<lambda>_.
    tx_bind (Record env (m_GroupID m) (UserID actor) (m_ID m) ''external_account_links.replaced'' ''group'' (m_GroupID m)
      [(''paymentMethodCount'', ANumber (int (length links))), (''linkedMethodCount'', ANumber linkedCount)]) (\<lambda>_.
    listPaymentMethodLinks (m_GroupID m)))))))"

lemmas replace_links_tx_run [code] = fun_cong [OF replace_links_tx_def]

definition ReplacePaymentMethodLinks ::
  "env \<Rightarrow> principal \<Rightarrow> membership \<Rightarrow> payment_method_link list \<Rightarrow> int \<Rightarrow> db \<Rightarrow> (payment_method_link list \<times> int) result \<times> db" where
  "ReplacePaymentMethodLinks env actor m links expectedVersion = WithTx (replace_links_tx env actor m links expectedVersion)"

end
