(* ===== verification/Finance.thy ===== *)
theory Finance
  imports Bookings ExternalAccounts
begin

text \<open>
  \<open>internal/finance/service.go\<close>: payments of members and what accounts show. \<open>CreatePayment\<close> and
  \<open>CreateOwnPayment\<close> credit the member's receivable against the group cash or the external account linked
  to the payment method, allocate the payment to the oldest claims and store its receipt;
  \<open>ReversePayment\<close> posts the mirrored rows once. The read models that are here: category statistics,
  account summaries, the consolidated account and receipt access. The paged movement and payment
  tables are not modelled.
\<close>

section \<open>Receipts\<close>

definition paymentAttachmentURL :: "string \<Rightarrow> string \<Rightarrow> string" where
  "paymentAttachmentURL groupID paymentID = ''/api/v1/groups/'' @ groupID @ ''/payments/'' @ paymentID @ ''/attachment''"

definition attachmentSummary :: "string \<Rightarrow> string \<Rightarrow> stored_attachment \<Rightarrow> attachment_summary" where
  "attachmentSummary groupID paymentID stored =
    \<lparr>at_FileName = sa_FileName stored, at_MediaType = sa_MediaType stored, at_SizeBytes = sa_SizeBytes stored,
     at_URL = paymentAttachmentURL groupID paymentID\<rparr>"

definition attachment_ok :: "db \<Rightarrow> attachment_row \<Rightarrow> bool" where
  "attachment_ok s r \<longleftrightarrow> stored_ok \<lparr>sa_StorageKey = ar_storage_key r, sa_FileName = ar_filename r,
       sa_MediaType = ar_media_type r, sa_SizeBytes = ar_size r, sa_SHA256 = ar_sha256 r\<rparr> \<and>
     in_group py_group py_id (payments s) (ar_group r) (Some (ar_payment r)) \<and>
     in_group ms_group ms_id (memberships s) (ar_group r) (Some (ar_created_by r))"

definition insert_attachment :: "string \<Rightarrow> string \<Rightarrow> stored_attachment \<Rightarrow> string \<Rightarrow> unit dbtx" where
  "insert_attachment paymentID groupID a createdBy =
    insert_row attachments attachments_update ''payment_attachments'' attachment_ok (\<lambda>x r. ar_payment x = ar_payment r)
      \<lparr>ar_payment = paymentID, ar_group = groupID, ar_storage_key = sa_StorageKey a, ar_filename = sa_FileName a,
       ar_media_type = sa_MediaType a, ar_size = sa_SizeBytes a, ar_sha256 = sa_SHA256 a, ar_created_by = createdBy\<rparr>"

lemmas insert_attachment_run [code] = fun_cong [OF insert_attachment_def]

section \<open>Recording a payment\<close>

definition payment_input_error :: "create_payment_input \<Rightarrow> error option" where
  "payment_input_error input =
    (if length (pi_Reference input) > 120 then Some (ValidationError ''reference'' ''must contain at most 120 characters'')
     else if length (pi_Note input) > 1000 then Some (ValidationError ''note'' ''must contain at most 1000 characters'')
     else if pi_AmountMinor input \<le> 0 \<or> pi_AmountMinor input > 100000000000
     then Some (ValidationError ''amountMinor'' ''must be a positive, reasonable integer'')
     else if pi_Method input = [] \<or> length (pi_Method input) > 120
     then Some (ValidationError ''method'' ''must identify a configured payment method'')
     else None)"

definition trim_payment :: "create_payment_input \<Rightarrow> create_payment_input" where
  "trim_payment input = input\<lparr>pi_MembershipID := TrimSpace (pi_MembershipID input), pi_Method := TrimSpace (pi_Method input),
     pi_Reference := TrimSpace (pi_Reference input), pi_Note := TrimSpace (pi_Note input)\<rparr>"

text \<open>The checks before the transaction: the trimmed input and the time of receipt.\<close>

definition prepare_payment :: "env \<Rightarrow> string \<Rightarrow> create_payment_input \<Rightarrow> (create_payment_input \<times> int) dbtx" where
  "prepare_payment env key input0 =
    (let input = trim_payment input0 in
     tx_bind (lift_result (ValidateKey key)) (\<lambda>_.
     tx_bind (case payment_input_error input of Some e \<Rightarrow> fail e | None \<Rightarrow> ret ()) (\<lambda>_.
     tx_bind (Now env) (\<lambda>now.
     tx_bind (if pi_ReceivedAt input = [] then ret now
       else the_row (parse_rfc3339 (pi_ReceivedAt input)) (ValidationError ''receivedAt'' ''must be an RFC 3339 timestamp'')) (\<lambda>receivedAt.
     ret (input, receivedAt))))))"

lemmas prepare_payment_run [code] = fun_cong [OF prepare_payment_def]

text \<open>The join that a replay reads to refresh the people of a stored payment.\<close>

definition payment_people ::
  "string \<Rightarrow> string \<Rightarrow> db \<Rightarrow> (membership_row \<times> user_row \<times> membership_row \<times> user_row) option" where
  "payment_people paymentID membershipID s =
    (case first_row (\<lambda>p. py_id p = paymentID \<and> py_membership p = membershipID) (payments s) of
       None \<Rightarrow> None
     | Some p \<Rightarrow>
       (case (member_user (py_group p) (py_membership p) s, member_user (py_group p) (py_created_by p) s) of
          (Some (tm, tu), Some (am, au)) \<Rightarrow> Some (tm, tu, am, au)
        | _ \<Rightarrow> None))"

definition refreshPaymentMemberStateTx :: "payment \<Rightarrow> payment dbtx" where
  "refreshPaymentMemberStateTx p =
    tx_bind (reject_if (p_MembershipID p = [] \<or> p_ID p = []) (ValidationError ''payment'' ''requires a membership id'')) (\<lambda>_.
    tx_bind (gets (payment_people (p_ID p) (p_MembershipID p))) (\<lambda>row.
    tx_bind (the_row row ErrNoRows) (\<lambda>(tm, tu, am, au).
    ret (p\<lparr>p_MemberName := us_display_name tu, p_MemberStatus := displayed_status tm, p_MemberAvatarURL := avatar_of tu,
      p_ActorMembershipID := ms_id am, p_ActorDisplayName := us_display_name au,
      p_ActorMembershipStatus := displayed_status am, p_ActorAvatarURL := avatar_of au\<rparr>))))"

lemmas refreshPaymentMemberStateTx_run [code] = fun_cong [OF refreshPaymentMemberStateTx_def]

text \<open>The selected method, revalidated in the transaction: its label.\<close>

definition payment_method_label :: "string \<Rightarrow> string \<Rightarrow> stored_attachment option \<Rightarrow> string dbtx" where
  "payment_method_label groupID method attachment =
    tx_bind (gets (\<lambda>s. first_row (\<lambda>p. pm_group p = groupID \<and> pm_id p = method) (payment_methods s))) (\<lambda>row.
    tx_bind (the_row row (ValidationError ''method'' ''is not configured for this group'')) (\<lambda>p.
    let attachmentMode = pm_attachment_mode p in
    tx_bind (reject_if (\<not> AttachmentMode_Valid attachmentMode) (ErrInternal ''unsupported attachment mode'')) (\<lambda>_.
    tx_bind (reject_if (attachment \<noteq> None \<and> \<not> AttachmentMode_Enabled attachmentMode)
      (ValidationError ''attachment'' ''is not accepted for the selected payment method'')) (\<lambda>_.
    tx_bind (reject_if (attachment = None \<and> AttachmentMode_Required attachmentMode)
      (ValidationError ''attachment'' ''is required for the selected payment method'')) (\<lambda>_.
    ret (pm_label p))))))"

lemmas payment_method_label_run [code] = fun_cong [OF payment_method_label_def]

text \<open>The reference as the reason policy of the group lets it through; \<open>self\<close> is the self-service source.\<close>

definition effective_reference :: "string \<Rightarrow> bool \<Rightarrow> string \<Rightarrow> string dbtx" where
  "effective_reference groupID self reference =
    tx_bind (gets (\<lambda>s. first_row (\<lambda>r. st_group r = groupID) (settings s))) (\<lambda>row.
    tx_bind (the_row row ErrNoRows) (\<lambda>r.
    let reasonMode = (if self then st_own_payment_mode r else st_other_payment_mode r) in
    tx_bind (reject_if (\<not> ReasonMode_Valid reasonMode) (ErrInternal ''unsupported payment reason mode'')) (\<lambda>_.
    tx_bind (reject_if (ReasonMode_Required reasonMode \<and> reference = []) (ValidationError ''reference'' ''is required'')) (\<lambda>_.
    ret (if ReasonMode_Enabled reasonMode then reference else [])))))"

lemmas effective_reference_run [code] = fun_cong [OF effective_reference_def]

text \<open>The payer: self-service needs an active membership, a deleted one may only settle its open balance.\<close>

definition payer :: "string \<Rightarrow> bool \<Rightarrow> string \<Rightarrow> int \<Rightarrow> (membership_row \<times> user_row) dbtx" where
  "payer groupID self membershipID amountMinor =
    tx_bind (gets (member_user groupID membershipID)) (\<lambda>row.
    tx_bind (the_row row ErrNotFound) (\<lambda>(tm, tu).
    tx_bind (gets (member_balance groupID membershipID)) (\<lambda>currentBalance.
    tx_bind (reject_if (self \<and> (ms_status tm \<noteq> ''ACTIVE'' \<or> ms_deleted_at tm \<noteq> None)) ErrNotFound) (\<lambda>_.
    tx_bind (reject_if (ms_deleted_at tm \<noteq> None \<and> (currentBalance \<le> 0 \<or> amountMinor > currentBalance)) ErrConflict) (\<lambda>_.
    ret (tm, tu))))))"

lemmas payer_run [code] = fun_cong [OF payer_def]

definition payment_row_of ::
  "string \<Rightarrow> string \<Rightarrow> create_payment_input \<Rightarrow> string \<Rightarrow> string \<Rightarrow> string \<Rightarrow> string \<Rightarrow> string \<Rightarrow> payment_row" where
  "payment_row_of paymentID groupID input receivedAt label reference createdBy now =
    \<lparr>py_id = paymentID, py_group = groupID, py_membership = pi_MembershipID input, py_amount = pi_AmountMinor input,
     py_received_at = receivedAt, py_method = pi_Method input, py_method_label = label, py_reference = nullable reference,
     py_note = nullable (pi_Note input), py_created_by = createdBy, py_created_at = now, py_reversed_at = None,
     py_reversed_by = None, py_reversal_reason = None\<rparr>"

definition insert_payment :: "payment_row \<Rightarrow> unit dbtx" where
  "insert_payment = insert_row payments payments_update ''payments''
     (\<lambda>s r. 0 < py_amount r \<and> py_method r \<noteq> [] \<and> length (py_method r) \<le> 120 \<and> py_method_label r \<noteq> [] \<and>
        in_group ms_group ms_id (memberships s) (py_group r) (Some (py_membership r)))
     (\<lambda>x r. py_id x = py_id r)"

lemmas insert_payment_run [code] = fun_cong [OF insert_payment_def]

text \<open>The two legs: the receivable of the member against the linked external account or the group cash.\<close>

definition post_payment ::
  "env \<Rightarrow> membership \<Rightarrow> create_payment_input \<Rightarrow> string \<Rightarrow> string \<Rightarrow> string \<Rightarrow> string \<Rightarrow> string \<Rightarrow> unit dbtx" where
  "post_payment env m input currentPeriod paymentID receivedAt reference now =
    (let description = ''Payment received'' @ (if reference \<noteq> [] then '': '' @ reference else []) in
     tx_bind (insertLedger env (m_GroupID m) currentPeriod (pi_MembershipID input) [] [] paymentID [] ''MEMBER_RECEIVABLE''
       (- pi_AmountMinor input) description now) (\<lambda>_.
     tx_bind (PostPaymentTx env (m_GroupID m) (m_ID m) paymentID (pi_Method input) (pi_AmountMinor input) receivedAt
       description reference (pi_Note input) currentPeriod now) (\<lambda>linked.
     if linked then ret ()
     else insertLedger env (m_GroupID m) currentPeriod [] [] [] paymentID [] ''GROUP_CASH'' (pi_AmountMinor input) description now)))"

lemmas post_payment_run [code] = fun_cong [OF post_payment_def]

definition payment_of ::
  "membership \<Rightarrow> create_payment_input \<Rightarrow> string \<Rightarrow> membership_row \<Rightarrow> user_row \<Rightarrow> string \<Rightarrow> string \<Rightarrow> string \<Rightarrow> string \<Rightarrow>
   payment_allocation list \<Rightarrow> stored_attachment option \<Rightarrow> payment" where
  "payment_of m input paymentID tm tu currency receivedAt label reference allocations attachment =
    \<lparr>p_ID = paymentID, p_GroupID = m_GroupID m, p_MembershipID = pi_MembershipID input, p_MemberName = us_display_name tu,
     p_MemberStatus = displayed_status tm, p_MemberAvatarURL = avatar_of tu, p_ActorMembershipID = m_ID m,
     p_ActorDisplayName = m_DisplayName m, p_ActorMembershipStatus = ''ACTIVE'', p_ActorAvatarURL = m_AvatarURL m,
     p_AmountMinor = pi_AmountMinor input, p_Currency = currency, p_ReceivedAt = receivedAt, p_Method = pi_Method input,
     p_MethodLabel = label, p_Reference = reference, p_Note = pi_Note input, p_Status = ''POSTED'',
     p_Allocations = allocations, p_Attachment = map_option (attachmentSummary (m_GroupID m) paymentID) attachment\<rparr>"

definition allocations_of :: "string \<Rightarrow> db \<Rightarrow> payment_allocation list" where
  "allocations_of paymentID s = map (\<lambda>a. \<lparr>pa_PeriodID = al_period a, pa_AmountMinor = al_amount a\<rparr>)
     (filter (\<lambda>a. al_payment a = paymentID) (payment_allocations s))"

definition recorded_notice :: "membership \<Rightarrow> create_payment_input \<Rightarrow> string \<Rightarrow> string \<Rightarrow> string \<Rightarrow> notification_input" where
  "recorded_notice m input currency paymentID now =
    \<lparr>ni_GroupID = m_GroupID m, ni_MembershipID = pi_MembershipID input, ni_Type = ''PAYMENT_RECORDED'',
     ni_Title = ''Zahlung eingegangen'', ni_Body = ''Deinem Konto wurde eine Zahlung gutgeschrieben.'',
     ni_ResourceType = ''payment'', ni_ResourceID = paymentID,
     ni_Context = no_context\<lparr>ActorName := m_DisplayName m, AmountMinor := pi_AmountMinor input, Currency := currency\<rparr>,
     ni_CreatedAt = now\<rparr>"

definition payment_currency :: "string \<Rightarrow> string dbtx" where
  "payment_currency groupID =
    tx_bind (gets (\<lambda>s. first_row (\<lambda>g. gr_id g = groupID) (groups s))) (\<lambda>row.
    tx_bind (the_row row ErrNoRows) (\<lambda>g. ret (gr_currency g)))"

lemmas payment_currency_run [code] = fun_cong [OF payment_currency_def]

text \<open>The body of a first request; the second component is the command's clock reading.\<close>

definition record_payment ::
  "env \<Rightarrow> notification_service \<Rightarrow> principal \<Rightarrow> membership \<Rightarrow> create_payment_input \<Rightarrow> int \<Rightarrow> stored_attachment option \<Rightarrow> bool
     \<Rightarrow> (payment \<times> int) dbtx" where
  "record_payment env svc actor m input receivedTime attachment self =
    tx_bind (payment_method_label (m_GroupID m) (pi_Method input) attachment) (\<lambda>label.
    tx_bind (effective_reference (m_GroupID m) self (pi_Reference input)) (\<lambda>reference.
    tx_bind (payer (m_GroupID m) self (pi_MembershipID input) (pi_AmountMinor input)) (\<lambda>(tm, tu).
    tx_bind (payment_currency (m_GroupID m)) (\<lambda>currency.
    tx_bind (open_period (m_GroupID m)) (\<lambda>currentPeriod.
    tx_bind (NewID env ''pay'') (\<lambda>paymentID.
    tx_bind (Now env) (\<lambda>nowTime.
    let now = Timestamp nowTime; receivedAt = Timestamp receivedTime in
    tx_bind (insert_payment (payment_row_of paymentID (m_GroupID m) input receivedAt label reference (m_ID m) now)) (\<lambda>_.
    tx_bind (post_payment env m input currentPeriod paymentID receivedAt reference now) (\<lambda>_.
    tx_bind (RebuildPaymentAllocations (m_GroupID m) (pi_MembershipID input)) (\<lambda>_.
    tx_bind (case attachment of None \<Rightarrow> ret () | Some a \<Rightarrow> insert_attachment paymentID (m_GroupID m) a (m_ID m)) (\<lambda>_.
    tx_bind (gets (allocations_of paymentID)) (\<lambda>allocations.
    tx_bind (if \<not> self \<and> m_ID m \<noteq> pi_MembershipID input \<and> displayed_status tm \<noteq> ''DELETED''
        then tx_bind (CreateTx env svc (recorded_notice m input currency paymentID now)) (\<lambda>_. ret ())
        else ret ()) (\<lambda>_.
    tx_bind (Record env (m_GroupID m) (UserID actor) (m_ID m) ''payment.created'' ''payment'' paymentID
      [(''membershipId'', AText (pi_MembershipID input)), (''amountMinor'', ANumber (pi_AmountMinor input)),
       (''source'', AText (if self then ''SELF_SERVICE'' else ''FINANCE_WORKSPACE''))]) (\<lambda>_.
    ret (payment_of m input paymentID tm tu currency receivedAt label reference allocations attachment, nowTime)))))))))))))))"

lemmas record_payment_run [code] = fun_cong [OF record_payment_def]

definition create_payment_tx ::
  "env \<Rightarrow> notification_service \<Rightarrow> principal \<Rightarrow> membership \<Rightarrow> string \<Rightarrow> create_payment_input \<Rightarrow> int \<Rightarrow> stored_attachment option \<Rightarrow> bool
     \<Rightarrow> payment dbtx" where
  "create_payment_tx env svc actor m key input receivedTime attachment self =
    (let requestHash = Hash env (ReqCreatePayment input (case attachment of None \<Rightarrow> [] | Some a \<Rightarrow> sa_SHA256 a)) in
     tx_bind (requirePermission m (if self then ''RECORD_OWN_PAYMENT'' else ''FINANCE_MANAGEMENT'')) (\<lambda>_.
     tx_bind (Load (m_GroupID m) (UserID actor) key requestHash) (\<lambda>found.
     case found of
       Some (RespPayment p) \<Rightarrow> refreshPaymentMemberStateTx p
     | Some _ \<Rightarrow> fail decode_error
     | None \<Rightarrow>
       tx_bind (record_payment env svc actor m input receivedTime attachment self) (\<lambda>(p, nowTime).
       tx_bind (store_result (m_GroupID m) (UserID actor) key requestHash (RespPayment p) nowTime) (\<lambda>_.
       ret p)))))"

lemmas create_payment_tx_run [code] = fun_cong [OF create_payment_tx_def]

text \<open>\<open>createPayment\<close>. The upload is the answer of \<open>Attachments.Save\<close>; a self-service key is stored under a
  prefix of its own. The file clean-up after a failed transaction touches no table.\<close>

definition createPayment ::
  "env \<Rightarrow> notification_service \<Rightarrow> principal \<Rightarrow> membership \<Rightarrow> string \<Rightarrow> create_payment_input \<Rightarrow> stored_attachment result option
     \<Rightarrow> bool \<Rightarrow> db \<Rightarrow> payment result \<times> db" where
  "createPayment env svc actor m key input0 upload self s =
    (case prepare_payment env key input0 s of
       Inl e \<Rightarrow> (Inl e, s)
     | Inr ((input, receivedTime), s1) \<Rightarrow>
       (let storedKey = (if self then ''self:'' @ key else key) in
        case upload of
          Some (Inl e) \<Rightarrow> (Inl e, s1)
        | Some (Inr a) \<Rightarrow> WithTx (create_payment_tx env svc actor m storedKey input receivedTime (Some a) self) s1
        | None \<Rightarrow> WithTx (create_payment_tx env svc actor m storedKey input receivedTime None self) s1))"

definition CreatePaymentWithAttachment ::
  "env \<Rightarrow> notification_service \<Rightarrow> principal \<Rightarrow> membership \<Rightarrow> string \<Rightarrow> create_payment_input \<Rightarrow> stored_attachment result option
     \<Rightarrow> db \<Rightarrow> payment result \<times> db" where
  "CreatePaymentWithAttachment env svc actor m key input upload s =
    (case requirePermission m ''FINANCE_MANAGEMENT'' s of
       Inl e \<Rightarrow> (Inl e, s)
     | Inr _ \<Rightarrow> createPayment env svc actor m key input upload False s)"

definition CreatePayment ::
  "env \<Rightarrow> notification_service \<Rightarrow> principal \<Rightarrow> membership \<Rightarrow> string \<Rightarrow> create_payment_input \<Rightarrow> db \<Rightarrow> payment result \<times> db" where
  "CreatePayment env svc actor m key input s = CreatePaymentWithAttachment env svc actor m key input None s"

record create_own_payment_input =
  oi_AmountMinor :: int
  oi_ReceivedAt :: string
  oi_Method :: string
  oi_Reference :: string

definition CreateOwnPaymentWithAttachment ::
  "env \<Rightarrow> notification_service \<Rightarrow> principal \<Rightarrow> membership \<Rightarrow> string \<Rightarrow> create_own_payment_input \<Rightarrow> stored_attachment result option
     \<Rightarrow> db \<Rightarrow> payment result \<times> db" where
  "CreateOwnPaymentWithAttachment env svc actor m key input upload s =
    (case requirePermission m ''RECORD_OWN_PAYMENT'' s of
       Inl e \<Rightarrow> (Inl e, s)
     | Inr _ \<Rightarrow>
       if TrimSpace (oi_ReceivedAt input) = [] then (Inl (ValidationError ''receivedAt'' ''is required''), s)
       else createPayment env svc actor m key
         \<lparr>pi_MembershipID = m_ID m, pi_AmountMinor = oi_AmountMinor input, pi_ReceivedAt = TrimSpace (oi_ReceivedAt input),
          pi_Method = oi_Method input, pi_Reference = TrimSpace (oi_Reference input), pi_Note = []\<rparr> upload True s)"

definition CreateOwnPayment ::
  "env \<Rightarrow> notification_service \<Rightarrow> principal \<Rightarrow> membership \<Rightarrow> string \<Rightarrow> create_own_payment_input \<Rightarrow> db \<Rightarrow> payment result \<times> db" where
  "CreateOwnPayment env svc actor m key input s = CreateOwnPaymentWithAttachment env svc actor m key input None s"

section \<open>Reversing a payment\<close>

definition reversed_row :: "string \<Rightarrow> string \<Rightarrow> string \<Rightarrow> payment_row \<Rightarrow> payment_row" where
  "reversed_row now reversedBy reason p =
    p\<lparr>py_reversed_at := Some now, py_reversed_by := Some reversedBy, py_reversal_reason := Some reason\<rparr>"

definition mark_reversed :: "string \<Rightarrow> string \<Rightarrow> string \<Rightarrow> string \<Rightarrow> unit dbtx" where
  "mark_reversed paymentID now reversedBy reason =
    tx_bind (gets (\<lambda>s. length (filter (\<lambda>p. py_id p = paymentID \<and> py_reversed_at p = None) (payments s)))) (\<lambda>changed.
    tx_bind (modify (payments_update (update_rows (\<lambda>p. py_id p = paymentID \<and> py_reversed_at p = None)
      (reversed_row now reversedBy reason)))) (\<lambda>_.
    reject_if (changed \<noteq> 1) ErrConflict))"

lemmas mark_reversed_run [code] = fun_cong [OF mark_reversed_def]

text \<open>The payment with its group and member, unless it is unknown or reversed before.\<close>

definition payment_to_reverse :: "string \<Rightarrow> string \<Rightarrow> (payment_row \<times> string \<times> membership_row) dbtx" where
  "payment_to_reverse groupID paymentID =
    tx_bind (gets (\<lambda>s. (case first_row (\<lambda>p. py_id p = paymentID \<and> py_group p = groupID) (payments s) of
        None \<Rightarrow> None
      | Some p \<Rightarrow> (case (first_row (\<lambda>g. gr_id g = py_group p) (groups s), first_row (\<lambda>x. ms_id x = py_membership p) (memberships s)) of
          (Some g, Some tm) \<Rightarrow> Some (p, gr_currency g, tm) | _ \<Rightarrow> None)))) (\<lambda>row.
    tx_bind (the_row row ErrNotFound) (\<lambda>(p, currency, tm).
    tx_bind (reject_if (py_reversed_at p \<noteq> None) ErrConflict) (\<lambda>_.
    ret (p, currency, tm))))"

lemmas payment_to_reverse_run [code] = fun_cong [OF payment_to_reverse_def]

definition payment_rows :: "string \<Rightarrow> string \<Rightarrow> db \<Rightarrow> ledger_row list" where
  "payment_rows groupID paymentID s =
    filter (\<lambda>r. le_group r = groupID \<and> le_payment r = Some paymentID \<and> le_reversal_of r = None) (ledger s)"

definition reverse_payment_row :: "env \<Rightarrow> string \<Rightarrow> string \<Rightarrow> string \<Rightarrow> bool \<Rightarrow> string \<Rightarrow> ledger_row \<Rightarrow> unit dbtx" where
  "reverse_payment_row env groupID currentPeriod paymentID externalReversed now entry =
    (if externalReversed \<and> le_account entry = ''EXTERNAL_ACCOUNT'' then ret ()
     else insertLedger env groupID currentPeriod (coalesce_text (le_membership entry)) [] [] paymentID (le_id entry)
       (le_account entry) (- le_amount entry) (''Reversal: '' @ le_description entry) now)"

lemmas reverse_payment_row_run [code] = fun_cong [OF reverse_payment_row_def]

definition payment_reversed_notice :: "membership \<Rightarrow> string \<Rightarrow> int \<Rightarrow> string \<Rightarrow> string \<Rightarrow> string \<Rightarrow> notification_input" where
  "payment_reversed_notice m targetID amount currency paymentID now =
    \<lparr>ni_GroupID = m_GroupID m, ni_MembershipID = targetID, ni_Type = ''PAYMENT_REVERSED'',
     ni_Title = ''Zahlung storniert'', ni_Body = ''Eine Zahlung auf deinem Konto wurde storniert.'',
     ni_ResourceType = ''payment'', ni_ResourceID = paymentID,
     ni_Context = no_context\<lparr>ActorName := m_DisplayName m, AmountMinor := amount, Currency := currency\<rparr>,
     ni_CreatedAt = now\<rparr>"

definition reverse_payment_body ::
  "env \<Rightarrow> notification_service \<Rightarrow> principal \<Rightarrow> membership \<Rightarrow> string \<Rightarrow> string \<Rightarrow> unit dbtx" where
  "reverse_payment_body env svc actor m paymentID reason =
    tx_bind (payment_to_reverse (m_GroupID m) paymentID) (\<lambda>(p, currency, tm).
    tx_bind (open_period (m_GroupID m)) (\<lambda>currentPeriod.
    tx_bind (Now env) (\<lambda>nowTime.
    let now = Timestamp nowTime in
    tx_bind (mark_reversed paymentID now (m_ID m) reason) (\<lambda>_.
    tx_bind (ReversePaymentTx env (m_GroupID m) (UserID actor) (m_ID m) paymentID currentPeriod now reason now) (\<lambda>externalReversed.
    tx_bind (gets (payment_rows (m_GroupID m) paymentID)) (\<lambda>originals.
    tx_bind (each_tx (reverse_payment_row env (m_GroupID m) currentPeriod paymentID externalReversed now) originals) (\<lambda>_.
    tx_bind (RebuildPaymentAllocations (m_GroupID m) (py_membership p)) (\<lambda>_.
    tx_bind (if m_ID m \<noteq> py_membership p \<and> ms_deleted_at tm = None
        then tx_bind (CreateTx env svc (payment_reversed_notice m (py_membership p) (py_amount p) currency paymentID now)) (\<lambda>_. ret ())
        else ret ()) (\<lambda>_.
    Record env (m_GroupID m) (UserID actor) (m_ID m) ''payment.reversed'' ''payment'' paymentID [(''reason'', AText reason)])))))))))"

lemmas reverse_payment_body_run [code] = fun_cong [OF reverse_payment_body_def]

definition reverse_payment_tx ::
  "env \<Rightarrow> notification_service \<Rightarrow> principal \<Rightarrow> membership \<Rightarrow> string \<Rightarrow> string \<Rightarrow> string \<Rightarrow> unit dbtx" where
  "reverse_payment_tx env svc actor m key paymentID reason =
    (let requestHash = Hash env (ReqReversePayment paymentID reason) in
     tx_bind (requirePermission m ''FINANCE_MANAGEMENT'') (\<lambda>_.
     tx_bind (Load (m_GroupID m) (UserID actor) key requestHash) (\<lambda>found.
     case found of
       Some (RespBookings _) \<Rightarrow> fail decode_error
     | Some _ \<Rightarrow> ret ()
     | None \<Rightarrow>
       tx_bind (reverse_payment_body env svc actor m paymentID reason) (\<lambda>_.
       Store env (m_GroupID m) (UserID actor) key requestHash 204 (RespPaymentReversed paymentID)))))"

lemmas reverse_payment_tx_run [code] = fun_cong [OF reverse_payment_tx_def]

definition ReversePayment ::
  "env \<Rightarrow> notification_service \<Rightarrow> principal \<Rightarrow> membership \<Rightarrow> string \<Rightarrow> string \<Rightarrow> string \<Rightarrow> db \<Rightarrow> unit result \<times> db" where
  "ReversePayment env svc actor m key paymentID reason0 s =
    (let reason = TrimSpace reason0 in
     case requirePermission m ''FINANCE_MANAGEMENT'' s of
       Inl e \<Rightarrow> (Inl e, s)
     | Inr _ \<Rightarrow> (case ValidateKey key of
         Inl e \<Rightarrow> (Inl e, s)
       | Inr _ \<Rightarrow>
         if reason = [] then (Inl (ValidationError ''reason'' ''is required''), s)
         else if length reason > 500 then (Inl (ValidationError ''reason'' ''must contain at most 500 characters''), s)
         else WithTx (reverse_payment_tx env svc actor m key paymentID reason) s))"

section \<open>Read models\<close>

definition canViewStatistics :: "membership \<Rightarrow> bool \<Rightarrow> bool dbtx" where
  "canViewStatistics m statisticsEnabled =
    (if \<not> statisticsEnabled then ret False else canPermission m ''VIEW_STATISTICS'')"

lemmas canViewStatistics_run [code] = fun_cong [OF canViewStatistics_def]

definition GroupOutstanding :: "membership \<Rightarrow> int option dbtx" where
  "GroupOutstanding m =
    tx_bind (gets (\<lambda>s. first_row (\<lambda>r. st_group r = m_GroupID m) (settings s))) (\<lambda>row.
    tx_bind (the_row row ErrNoRows) (\<lambda>r.
    tx_bind (canViewStatistics m (st_statistics_enabled r)) (\<lambda>allowed.
    if \<not> allowed then ret None
    else gets (\<lambda>s. Some (ledger_sum (\<lambda>e. le_group e = m_GroupID m \<and> le_account e = ''MEMBER_RECEIVABLE'') s)))))"

lemmas GroupOutstanding_run [code] = fun_cong [OF GroupOutstanding_def]

record category_statistic =
  cs_CategoryID :: string
  cs_CategoryName :: string
  cs_Icon :: string
  cs_Quantity :: int
  cs_GrossMinor :: int
  cs_VoidedMinor :: int
  cs_NetMinor :: int

text \<open>An empty membership or period selects all of them.\<close>

definition statistic_bookings :: "string \<Rightarrow> string \<Rightarrow> string \<Rightarrow> string \<Rightarrow> db \<Rightarrow> booking_row list" where
  "statistic_bookings groupID membershipID periodID categoryID s = filter (\<lambda>b. bk_group b = groupID \<and> bk_category b = categoryID \<and>
     (membershipID = [] \<or> bk_target b = membershipID) \<and> (periodID = [] \<or> bk_period b = periodID)) (bookings s)"

definition statistic_entries :: "string \<Rightarrow> string \<Rightarrow> string \<Rightarrow> string \<Rightarrow> db \<Rightarrow> ledger_row list" where
  "statistic_entries groupID membershipID periodID categoryID s = filter (\<lambda>e. le_group e = groupID \<and>
     le_account e = ''MEMBER_RECEIVABLE'' \<and> le_category e = Some categoryID \<and>
     (membershipID = [] \<or> le_membership e = Some membershipID) \<and> (periodID = [] \<or> le_period e = Some periodID)) (ledger s)"

definition category_statistic_of :: "string \<Rightarrow> string \<Rightarrow> string \<Rightarrow> db \<Rightarrow> category_row \<Rightarrow> category_statistic" where
  "category_statistic_of groupID membershipID periodID s c =
    (let bs = statistic_bookings groupID membershipID periodID (ca_id c) s;
         es = statistic_entries groupID membershipID periodID (ca_id c) s in
     \<lparr>cs_CategoryID = ca_id c, cs_CategoryName = ca_name c, cs_Icon = ca_icon c,
      cs_Quantity = sum_list (map (\<lambda>b. if bk_voided_at b = None then bk_quantity b else 0) bs),
      cs_GrossMinor = sum_list (map bk_total bs),
      cs_VoidedMinor = - sum_list (map (\<lambda>e. if le_reversal_of e \<noteq> None \<and> le_amount e < 0 then le_amount e else 0) es),
      cs_NetMinor = sum_list (map (\<lambda>e. if le_payment e = None then le_amount e else 0) es)\<rparr>)"

definition categoryStatistics :: "string \<Rightarrow> string \<Rightarrow> string \<Rightarrow> db \<Rightarrow> category_statistic list" where
  "categoryStatistics groupID membershipID periodID s =
    map (category_statistic_of groupID membershipID periodID s)
      (sort_key (\<lambda>c. (ca_sort_order c, map lower_char (ca_name c))) (filter (\<lambda>c. ca_group c = groupID) (categories s)))"

record account_summary =
  su_MembershipID :: string
  su_DisplayName :: string
  su_AvatarURL :: string
  su_IsTemporaryGuest :: bool
  su_Status :: string
  su_Currency :: string
  su_BalanceMinor :: int

definition status_rank :: "membership_row \<Rightarrow> nat" where
  "status_rank m = (if ms_deleted_at m \<noteq> None then 2 else if ms_status m = ''ACTIVE'' then 0 else 1)"

definition summary_of :: "string \<Rightarrow> db \<Rightarrow> membership_row \<times> user_row \<Rightarrow> account_summary" where
  "summary_of currency s = (\<lambda>(m, u).
     \<lparr>su_MembershipID = ms_id m, su_DisplayName = us_display_name u,
      su_AvatarURL = (if ms_deleted_at m = None then avatar_of u else UserAvatarURL (us_id u) []),
      su_IsTemporaryGuest = (ms_deleted_at m = None \<and> us_email u = None \<and> us_password_hash u = None),
      su_Status = displayed_status m, su_Currency = currency, su_BalanceMinor = member_balance (ms_group m) (ms_id m) s\<rparr>)"

definition summary_members :: "string \<Rightarrow> db \<Rightarrow> (membership_row \<times> user_row) list" where
  "summary_members groupID s =
    concat (map (\<lambda>m. map (\<lambda>u. (m, u)) (filter (\<lambda>u. us_id u = ms_user m) (users s)))
      (filter (\<lambda>m. ms_group m = groupID \<and> (ms_deleted_at m = None \<or> member_balance groupID (ms_id m) s \<noteq> 0)) (memberships s)))"

definition ListAccountSummaries :: "membership \<Rightarrow> account_summary list dbtx" where
  "ListAccountSummaries m =
    tx_bind (requirePermission m ''FINANCE_MANAGEMENT'') (\<lambda>_.
    gets (\<lambda>s. case first_row (\<lambda>g. gr_id g = m_GroupID m) (groups s) of None \<Rightarrow> []
      | Some g \<Rightarrow> map (summary_of (gr_currency g) s)
          (sort_key (\<lambda>(x, u). (status_rank x, - member_balance (m_GroupID m) (ms_id x) s, map lower_char (us_display_name u), ms_id x))
            (summary_members (m_GroupID m) s))))"

lemmas ListAccountSummaries_run [code] = fun_cong [OF ListAccountSummaries_def]

record ledger_entry_view =
  en_ID :: string
  en_PeriodID :: string
  en_BookingID :: "string option"
  en_PaymentID :: "string option"
  en_ReversalOf :: "string option"
  en_Type :: string
  en_AmountMinor :: int
  en_Description :: string
  en_CreatedAt :: string
  en_Attachment :: "attachment_summary option"

definition movement_type :: "ledger_row \<Rightarrow> string" where
  "movement_type e = (if le_reversal_of e \<noteq> None then ''REVERSAL'' else if le_booking e \<noteq> None then ''BOOKING''
     else if le_payment e \<noteq> None then ''PAYMENT'' else ''ADJUSTMENT'')"

definition receipt_of :: "string \<Rightarrow> string option \<Rightarrow> db \<Rightarrow> attachment_summary option" where
  "receipt_of groupID paymentID s =
    (case paymentID of None \<Rightarrow> None
     | Some p \<Rightarrow> map_option (\<lambda>a. \<lparr>at_FileName = ar_filename a, at_MediaType = ar_media_type a, at_SizeBytes = ar_size a,
           at_URL = paymentAttachmentURL groupID p\<rparr>)
         (first_row (\<lambda>a. ar_group a = groupID \<and> ar_payment a = p) (attachments s)))"

definition entry_view :: "string \<Rightarrow> db \<Rightarrow> ledger_row \<Rightarrow> ledger_entry_view" where
  "entry_view groupID s e = \<lparr>en_ID = le_id e, en_PeriodID = coalesce_text (le_period e), en_BookingID = le_booking e,
     en_PaymentID = le_payment e, en_ReversalOf = le_reversal_of e, en_Type = movement_type e, en_AmountMinor = le_amount e,
     en_Description = le_description e, en_CreatedAt = le_created_at e, en_Attachment = receipt_of groupID (le_payment e) s\<rparr>"

definition recent_entries :: "string \<Rightarrow> string \<Rightarrow> db \<Rightarrow> ledger_entry_view list" where
  "recent_entries groupID membershipID s = map (entry_view groupID s)
     (take 50 (rev (sort_key (\<lambda>e. (le_created_at e, le_id e)) (filter (\<lambda>e. le_group e = groupID \<and>
       le_membership e = Some membershipID \<and> le_account e = ''MEMBER_RECEIVABLE'') (ledger s)))))"

record account_view =
  av_MembershipID :: string
  av_DisplayName :: string
  av_Currency :: string
  av_BalanceMinor :: int
  av_OpenPeriodID :: string
  av_OpenPeriodDue :: int
  av_CategoryStats :: "category_statistic list"
  av_GroupCategoryStats :: "category_statistic list"
  av_RecentEntries :: "ledger_entry_view list"

definition Account :: "membership \<Rightarrow> string \<Rightarrow> account_view dbtx" where
  "Account m target0 =
    (let target = (if target0 = [] then m_ID m else target0); groupID = m_GroupID m in
     tx_bind (if target \<noteq> m_ID m then requirePermission m ''FINANCE_MANAGEMENT'' else ret ()) (\<lambda>_.
     tx_bind (gets (member_user groupID target)) (\<lambda>row.
     tx_bind (gets (\<lambda>s. first_row (\<lambda>g. gr_id g = groupID) (groups s))) (\<lambda>grow.
     tx_bind (the_row row ErrNotFound) (\<lambda>(tm, tu).
     tx_bind (the_row grow ErrNotFound) (\<lambda>g.
     tx_bind (gets (\<lambda>s. (first_row (\<lambda>p. pe_group p = groupID \<and> pe_status p = ''OPEN'') (periods s),
       first_row (\<lambda>r. st_group r = groupID) (settings s)))) (\<lambda>found.
     case found of
       (Some p, Some r) \<Rightarrow>
         (let statisticsPeriod = (if st_settlements r then pe_id p else []) in
          tx_bind (canViewStatistics m (st_statistics_enabled r)) (\<lambda>allowed.
          gets (\<lambda>s. \<lparr>av_MembershipID = target, av_DisplayName = us_display_name tu, av_Currency = gr_currency g,
            av_BalanceMinor = member_balance groupID target s, av_OpenPeriodID = pe_id p,
            av_OpenPeriodDue = ledger_sum (\<lambda>e. le_group e = groupID \<and> le_period e = Some (pe_id p) \<and>
              le_membership e = Some target \<and> le_account e = ''MEMBER_RECEIVABLE'') s,
            av_CategoryStats = categoryStatistics groupID target statisticsPeriod s,
            av_GroupCategoryStats = (if allowed then categoryStatistics groupID [] statisticsPeriod s else []),
            av_RecentEntries = recent_entries groupID target s\<rparr>)))
     | _ \<Rightarrow> fail ErrNoRows)))))))"

lemmas Account_run [code] = fun_cong [OF Account_def]

text \<open>Receipts are disclosed to the payer and to finance managers; every other caller sees \<open>ErrNotFound\<close>.
  The result is the summary with the storage key that \<open>Attachments.Resolve\<close> turns into a path.\<close>

definition GetPaymentAttachment :: "membership \<Rightarrow> string \<Rightarrow> attachment_row dbtx" where
  "GetPaymentAttachment m paymentID0 =
    (let paymentID = TrimSpace paymentID0 in
     tx_bind (reject_if (paymentID = []) ErrNotFound) (\<lambda>_.
     tx_bind (gets (\<lambda>s. (first_row (\<lambda>p. py_group p = m_GroupID m \<and> py_id p = paymentID) (payments s),
       first_row (\<lambda>a. ar_group a = m_GroupID m \<and> ar_payment a = paymentID) (attachments s)))) (\<lambda>found.
     case found of
       (Some p, Some a) \<Rightarrow>
         (if py_membership p = m_ID m then ret a
          else (\<lambda>s. case requirePermission m ''FINANCE_MANAGEMENT'' s of
             Inl ErrForbidden \<Rightarrow> Inl ErrNotFound
           | Inl e \<Rightarrow> Inl e
           | Inr _ \<Rightarrow> Inr (a, s)))
     | _ \<Rightarrow> fail ErrNotFound)))"

definition allocations :: "string \<Rightarrow> db \<Rightarrow> payment_allocation list" where
  "allocations paymentID s = map (\<lambda>a. \<lparr>pa_PeriodID = al_period a, pa_AmountMinor = al_amount a\<rparr>)
     (sort_key al_period (filter (\<lambda>a. al_payment a = paymentID) (payment_allocations s)))"

end
