(* ===== verification/BookingLedger.thy ===== *)
theory BookingLedger
  imports Bookings
begin

text \<open>
  What the booking commands do to the ledger: every booking owns exactly its charge and its revenue
  row, and after a reversal the two mirrored rows; charges are the product price times the quantity
  and land on the target's balance only; a retried command is answered from the store.
\<close>

section \<open>The invariant\<close>

text \<open>The ledger rows that name a booking: its two original rows and, once it is voided, one mirrored
  row for each, all in the booking's group.\<close>

definition posted :: "db \<Rightarrow> booking_row \<Rightarrow> bool" where
  "posted s b \<longleftrightarrow> (\<exists>i1 i2 d. let originals = [charge_row i1 b d, revenue_row i2 b d] in
     (\<exists>ids cp at. (if bk_voided_at b = None then ids = [] else length ids = 2) \<and>
       filter (\<lambda>r. le_booking r = Some (bk_id b)) (ledger s) =
         originals @ map2 (reversal_row (bk_group b) cp (bk_id b) at) ids originals))"

definition booked :: "db \<Rightarrow> bool" where
  "booked s \<longleftrightarrow> distinct (map bk_id (bookings s)) \<and> (\<forall>b\<in>set (bookings s). bk_id b \<noteq> [] \<and> posted s b) \<and>
     (\<forall>r\<in>set (ledger s). le_id r \<noteq> [] \<and>
       (\<forall>i. le_booking r = Some i \<longrightarrow> (\<exists>b\<in>set (bookings s). bk_id b = i)))"

lemma charge_row_sel [simp]:
  "le_id (charge_row i b d) = i" "le_group (charge_row i b d) = bk_group b"
  "le_period (charge_row i b d) = nullable (bk_period b)" "le_membership (charge_row i b d) = nullable (bk_target b)"
  "le_booking (charge_row i b d) = nullable (bk_id b)" "le_reversal_of (charge_row i b d) = None"
  "le_account (charge_row i b d) = ''MEMBER_RECEIVABLE''" "le_amount (charge_row i b d) = bk_total b"
  "le_category (charge_row i b d) = nullable (bk_category b)" "le_description (charge_row i b d) = d"
  "le_payment (charge_row i b d) = None"
  by (simp_all add: charge_row_def nullable_def)

lemma revenue_row_sel [simp]:
  "le_id (revenue_row i b d) = i" "le_group (revenue_row i b d) = bk_group b"
  "le_period (revenue_row i b d) = nullable (bk_period b)" "le_membership (revenue_row i b d) = None"
  "le_booking (revenue_row i b d) = nullable (bk_id b)" "le_reversal_of (revenue_row i b d) = None"
  "le_account (revenue_row i b d) = ''CATEGORY_REVENUE''" "le_amount (revenue_row i b d) = - bk_total b"
  "le_category (revenue_row i b d) = nullable (bk_category b)" "le_description (revenue_row i b d) = d"
  "le_payment (revenue_row i b d) = None"
  by (simp_all add: revenue_row_def nullable_def)

lemma reversal_row_sel [simp]:
  "le_id (reversal_row g cp bid at i e) = i" "le_group (reversal_row g cp bid at i e) = g"
  "le_period (reversal_row g cp bid at i e) = nullable cp"
  "le_booking (reversal_row g cp bid at i e) = nullable bid"
  "le_reversal_of (reversal_row g cp bid at i e) = nullable (le_id e)"
  "le_account (reversal_row g cp bid at i e) = le_account e"
  "le_amount (reversal_row g cp bid at i e) = - le_amount e"
  "le_payment (reversal_row g cp bid at i e) = None"
  by (simp_all add: reversal_row_def nullable_def)

lemma nullable_coalesce: "v \<noteq> Some [] \<Longrightarrow> nullable (coalesce_text v) = v"
  by (auto simp: nullable_def coalesce_text_def split: option.split)

lemma nullable_Some [simp]: "nullable v = Some w \<longleftrightarrow> v = w \<and> w \<noteq> []"
  by (auto simp: nullable_def)

lemma reversal_row_membership:
  "le_membership e \<noteq> Some [] \<Longrightarrow> le_membership (reversal_row g cp bid at i e) = le_membership e"
  by (simp add: reversal_row_def nullable_coalesce)

text \<open>A view of a booking that reversing it does not change.\<close>

lemma rows_void_row [simp]:
  "charge_row i (void_row at mid reason b) d = charge_row i b d"
  "revenue_row i (void_row at mid reason b) d = revenue_row i b d"
  "bk_id (void_row at mid reason b) = bk_id b" "bk_group (void_row at mid reason b) = bk_group b"
  "bk_total (void_row at mid reason b) = bk_total b" "bk_voided_at (void_row at mid reason b) = Some at"
  by (simp_all add: void_row_def charge_row_def revenue_row_def)

lemma posted_cong:
  "filter (\<lambda>r. le_booking r = Some (bk_id b)) (ledger s') = filter (\<lambda>r. le_booking r = Some (bk_id b)) (ledger s) \<Longrightarrow>
   posted s' b = posted s b"
  by (simp add: posted_def)

lemma no_rows: "(\<forall>r\<in>set rows. le_booking r \<noteq> Some i) \<Longrightarrow> filter (\<lambda>r. le_booking r = Some i) rows = []"
  by (simp add: filter_empty_conv)

text \<open>Rows that name no booking, as payments post them, keep the invariant.\<close>

lemma booked_other_rows:
  assumes "booked s" "bookings s' = bookings s" "ledger s' = ledger s @ rows"
    "\<forall>r\<in>set rows. le_booking r = None \<and> le_id r \<noteq> []"
  shows "booked s'"
proof -
  have "filter (\<lambda>r. le_booking r = Some (bk_id b)) (ledger s') = filter (\<lambda>r. le_booking r = Some (bk_id b)) (ledger s)" for b
    using assms(3,4) by (simp add: no_rows)
  then have "posted s' b = posted s b" for b by (rule posted_cong)
  then show ?thesis using assms by (auto simp: booked_def)
qed

lemma booked_books: "books s' = books s \<Longrightarrow> booked s' = booked s"
  by (simp add: booked_def posted_def books_split)

section \<open>Creating keeps the invariant\<close>

lemma booked_add:
  assumes inv: "booked s" and "bookings s' = bookings s @ [b]" "ledger s' = ledger s @ [charge_row i1 b d, revenue_row i2 b d]"
    and new: "bk_id b \<noteq> []" "bk_voided_at b = None" "\<forall>x\<in>set (bookings s). bk_id x \<noteq> bk_id b" "i1 \<noteq> []" "i2 \<noteq> []"
  shows "booked s'"
proof -
  have old: "posted s' x" if "x \<in> set (bookings s)" for x
  proof -
    have "bk_id b \<noteq> bk_id x" using new(3) that by auto
    then have "filter (\<lambda>r. le_booking r = Some (bk_id x)) (ledger s') = filter (\<lambda>r. le_booking r = Some (bk_id x)) (ledger s)"
      using assms(3) by simp
    then have "posted s' x = posted s x" by (rule posted_cong)
    then show ?thesis using inv that by (simp add: booked_def)
  qed
  have none: "filter (\<lambda>r. le_booking r = Some (bk_id b)) (ledger s) = []"
    by (rule no_rows) (use inv new(3) in \<open>auto simp: booked_def\<close>)
  have "filter (\<lambda>r. le_booking r = Some (bk_id b)) (ledger s') = [charge_row i1 b d, revenue_row i2 b d]"
    using assms(3) none new(1) by simp
  then have "posted s' b"
    using new(2) unfolding posted_def Let_def by (intro exI [of _ i1] exI [of _ i2] exI [of _ d] exI [of _ "[]"]) simp
  then show ?thesis
    using assms old by (auto simp: booked_def)
qed

lemma booking_of_sel [simp]:
  "bk_id (booking_of m product q t reason d bid at) = bid" "bk_group (booking_of m product q t reason d bid at) = m_GroupID m"
  "bk_target (booking_of m product q t reason d bid at) = t" "bk_total (booking_of m product q t reason d bid at) = bd_totalMinor d"
  "bk_voided_at (booking_of m product q t reason d bid at) = None" "bk_actor (booking_of m product q t reason d bid at) = m_ID m"
  "bk_period (booking_of m product q t reason d bid at) = bd_periodID d" "bk_quantity (booking_of m product q t reason d bid at) = q"
  "bk_unit_price (booking_of m product q t reason d bid at) = bd_unitPriceMinor d" "bk_product (booking_of m product q t reason d bid at) = product"
  "bk_created_at (booking_of m product q t reason d bid at) = at"
  by (simp_all add: booking_of_def)

lemma booked_create:
  assumes "createBookingForTargetTxWithAllocationRebuild env svc actor m productID quantity targetID reason details
      nowTime rebuild s = Inr (b, s')" "booked s"
  shows "booked s'"
  using assms(1)
proof (rule createBooking_effect)
  fix i1 i2
  let ?row = "booking_of m productID quantity targetID reason details (b_ID b) (Timestamp nowTime)"
  assume "bookings s' = bookings s @ [?row]"
    "ledger s' = ledger s @ [charge_row i1 ?row (bd_ledgerDescription details), revenue_row i2 ?row (bd_ledgerDescription details)]"
    "\<forall>x\<in>set (bookings s). bk_id x \<noteq> bk_id ?row" "i1 \<noteq> []" "i2 \<noteq> []" "b_ID b \<noteq> []"
  then show ?thesis
    by - (rule booked_add [OF assms(2), of s' ?row i1 "bd_ledgerDescription details" i2],
      assumption+, simp_all only: booking_of_sel simp_thms)
qed

lemma preserves_booked [pres_intros]:
  "preserves booked (createBookingForTargetTxWithAllocationRebuild env svc actor m productID quantity targetID reason
     details nowTime rebuild)"
  by (rule validI) (rule booked_create)

lemma keeps_books_booked: "keeps books m \<Longrightarrow> preserves booked m"
proof (rule validI)
  fix s x s'
  assume k: "keeps books m" and inv: "booked s" and run: "m s = Inr (x, s')"
  show "booked s'"
    by (rule iffD2 [OF booked_books [OF keepsD [OF k run]] inv])
qed

text \<open>Creating guests adds users and memberships only.\<close>

lemma preserves_guest [pres_intros]:
  assumes "\<And>s n. P s \<Longrightarrow> P (s\<lparr>random_reads := n\<rparr>)" "\<And>s n. P s \<Longrightarrow> P (s\<lparr>clock_reads := n\<rparr>)"
    "\<And>s rs. P s \<Longrightarrow> P (s\<lparr>audit := rs\<rparr>)" "\<And>s us. P s \<Longrightarrow> P (s\<lparr>users := us\<rparr>)"
    "\<And>s ms. P s \<Longrightarrow> P (s\<lparr>memberships := ms\<rparr>)"
    "\<And>s ps cs. P s \<Longrightarrow> P (s\<lparr>preference_settings := ps, channels := cs\<rparr>)"
  shows "preserves P (CreateTemporaryGuestTx env actor m name now)"
proof -
  have user: "preserves P (insert_user row)" for row
    unfolding insert_user_def by (rule preserves_insert_row) (rule assms(4))
  have ins: "preserves P (insert_membership row)" for row
    unfolding insert_membership_def
    by (intro preserves_bind preserves_insert_row preserves_modify) (erule assms(5), erule assms(6))
  have req: "preserves P (requireCurrentPermission m p)" for p
    unfolding requireCurrentPermission_def Require_def by (rule validI) (auto split: sum.splits if_splits)
  have rec: "preserves P (Record env g u mm a t i md)" for g u mm a t i md
    by (intro pres_intros) (erule assms(1-3))+
  have "preserves P (NewID env p)" for p
    by (intro pres_intros) (erule assms(1))
  with user ins req rec show ?thesis
    unfolding CreateTemporaryGuestTx_def
    by (intro preserves_bind preserves_lift_result preserves_gets preserves_fail preserves_ret preserves_case_option
      preserves_case_prod)
qed

section \<open>Reversing keeps the invariant\<close>

lemma map2_reversal_booking:
  "bid \<noteq> [] \<Longrightarrow> r \<in> set (map2 (reversal_row g cp bid at) ids es) \<Longrightarrow> le_booking r = Some bid"
  by (auto simp: set_zip)

lemma unique_row:
  "distinct (map bk_id bs) \<Longrightarrow> x \<in> set bs \<Longrightarrow> y \<in> set bs \<Longrightarrow> bk_id x = bk_id y \<Longrightarrow> x = y"
  by (auto simp: distinct_map inj_on_def)

text \<open>The row a reversal finds is unvoided, and its ledger rows are exactly its two original ones.\<close>

lemma posted_originals:
  assumes inv: "booked s" and b: "b \<in> set (bookings s)" "bk_voided_at b = None"
  obtains i1 i2 d where "filter (\<lambda>r. le_booking r = Some (bk_id b)) (ledger s) = [charge_row i1 b d, revenue_row i2 b d]"
    "original_rows (bk_id b) s = [charge_row i1 b d, revenue_row i2 b d]"
proof -
  have "posted s b" using inv b(1) by (simp add: booked_def)
  then obtain i1 i2 d where rows: "filter (\<lambda>r. le_booking r = Some (bk_id b)) (ledger s) = [charge_row i1 b d, revenue_row i2 b d]"
    using b(2) by (auto simp: posted_def)
  have "original_rows (bk_id b) s = filter (\<lambda>r. le_reversal_of r = None) (filter (\<lambda>r. le_booking r = Some (bk_id b)) (ledger s))"
    by (simp add: original_rows_def conj_commute)
  then show thesis using rows by (intro that) simp_all
qed

lemma void_target:
  assumes inv: "booked s" and row: "first_row (\<lambda>x. bk_id x = bid \<and> bk_group x = g) (bookings s) = Some row"
    and one: "length (filter (\<lambda>x. bk_id x = bid \<and> bk_voided_at x = None) (bookings s)) = 1"
  shows "row \<in> set (bookings s)" "bk_id row = bid" "bk_group row = g" "bk_voided_at row = None"
proof -
  show r: "row \<in> set (bookings s)" "bk_id row = bid" "bk_group row = g" using first_row_Some [OF row] by auto
  obtain y where "y \<in> set (filter (\<lambda>x. bk_id x = bid \<and> bk_voided_at x = None) (bookings s))"
    using one by (metis length_greater_0_conv less_numeral_extra(1) last_in_set)
  then show "bk_voided_at row = None"
    using inv r unique_row by (fastforce simp: booked_def)
qed

lemma booked_reverse:
  assumes inv: "booked s" and b: "b \<in> set (bookings s)" "bk_voided_at b = None"
    and upd: "bookings s' = update_rows (\<lambda>x. bk_id x = bk_id b \<and> bk_voided_at x = None) (void_row at mid reason) (bookings s)"
    and rows: "ledger s' = ledger s @ map2 (reversal_row (bk_group b) cp (bk_id b) at) ids (original_rows (bk_id b) s)"
    and ids: "length ids = length (original_rows (bk_id b) s)" "[] \<notin> set ids"
  shows "booked s'"
proof -
  have ne: "bk_id b \<noteq> []" using inv b(1) by (simp add: booked_def)
  obtain i1 i2 d where own: "filter (\<lambda>r. le_booking r = Some (bk_id b)) (ledger s) = [charge_row i1 b d, revenue_row i2 b d]"
    "original_rows (bk_id b) s = [charge_row i1 b d, revenue_row i2 b d]"
    using posted_originals [OF inv b] .
  let ?os = "[charge_row i1 b d, revenue_row i2 b d]"
  let ?rev = "map2 (reversal_row (bk_group b) cp (bk_id b) at) ids ?os"
  have bks: "map bk_id (bookings s') = map bk_id (bookings s)" using upd by simp
  have now: "filter (\<lambda>r. le_booking r = Some (bk_id b)) (ledger s') = ?os @ ?rev"
  proof -
    have "filter (\<lambda>r. le_booking r = Some (bk_id b)) ?rev = ?rev"
      using map2_reversal_booking [OF ne] by (simp add: filter_id_conv)
    then show ?thesis using rows own by simp
  qed
  have posted: "posted s' (void_row at mid reason b)"
    unfolding posted_def Let_def using now ids(1) own(2)
    by (intro exI [of _ i1] exI [of _ i2] exI [of _ d] exI [of _ ids] exI [of _ cp] exI [of _ at]) simp
  have other: "posted s' x" if x: "x \<in> set (bookings s)" "x \<noteq> b" for x
  proof -
    have "bk_id x \<noteq> bk_id b" using x b(1) inv unique_row by (auto simp: booked_def)
    then have "filter (\<lambda>r. le_booking r = Some (bk_id x)) ?rev = []"
      using map2_reversal_booking [OF ne] by (intro no_rows) fastforce
    then have "filter (\<lambda>r. le_booking r = Some (bk_id x)) (ledger s') = filter (\<lambda>r. le_booking r = Some (bk_id x)) (ledger s)"
      using rows own(2) by simp
    then have "posted s' x = posted s x" by (rule posted_cong)
    then show ?thesis using inv x(1) by (simp add: booked_def)
  qed
  have each: "bk_id y \<noteq> [] \<and> posted s' y" if "y \<in> set (bookings s')" for y
  proof -
    from that upd obtain x where x: "x \<in> set (bookings s)"
      "y = (if bk_id x = bk_id b \<and> bk_voided_at x = None then void_row at mid reason x else x)"
      by (auto simp: update_rows_def)
    show ?thesis
    proof (cases "x = b")
      case True
      then show ?thesis using x b ne posted by simp
    next
      case False
      then have "bk_id x \<noteq> bk_id b" using x(1) b(1) inv unique_row by (auto simp: booked_def)
      then show ?thesis using x False other inv by (simp add: booked_def)
    qed
  qed
  have led: "le_id r \<noteq> [] \<and> (\<forall>i. le_booking r = Some i \<longrightarrow> i \<in> set (map bk_id (bookings s')))" if "r \<in> set (ledger s')" for r
  proof (cases "r \<in> set (ledger s)")
    case True
    then show ?thesis using inv unfolding bks by (force simp: booked_def)
  next
    case False
    then have "r \<in> set ?rev" using that rows own(2) by simp
    then have "le_id r \<in> set ids" "le_booking r = Some (bk_id b)"
      using map2_reversal_booking [OF ne] by (auto dest: set_zip_leftD)
    then show ?thesis using ids(2) b(1) unfolding bks by auto
  qed
  show ?thesis
    unfolding booked_def bks
  proof (intro conjI ballI allI impI)
    fix r i assume "r \<in> set (ledger s')" "le_booking r = Some i"
    then have "i \<in> bk_id ` set (bookings s')" using led by simp
    then show "\<exists>b\<in>set (bookings s'). bk_id b = i" by auto
  qed (use inv each led in \<open>simp_all add: booked_def\<close>)
qed

lemma booked_void_new:
  assumes "void_new env svc actor m bid reason s = Inr (b, s')" "booked s"
  shows "booked s'"
  using assms(1)
proof (rule void_new_effect)
  fix row cp at ids s1
  assume row: "first_row (\<lambda>x. bk_id x = bid \<and> bk_group x = m_GroupID m) (bookings s) = Some row"
    and one: "length (filter (\<lambda>x. bk_id x = bid \<and> bk_voided_at x = None) (bookings s)) = 1"
    and upd: "bookings s' = update_rows (\<lambda>x. bk_id x = bid \<and> bk_voided_at x = None) (void_row at (m_ID m) reason) (bookings s)"
    and rows: "ledger s' = ledger s @ map2 (reversal_row (m_GroupID m) cp bid at) ids (original_rows bid s)"
    and ids: "length ids = length (original_rows bid s)" "[] \<notin> set ids"
  note t = void_target [OF assms(2) row one]
  show ?thesis
    by (rule booked_reverse [OF assms(2) t(1) t(4), unfolded t(2,3), OF upd rows ids])
qed

text \<open>Every command of the component keeps the invariant.\<close>

lemma preserves_booked_guests [pres_intros]: "preserves booked (create_guests env actor m names now)"
  unfolding create_guests_def
  by (intro pres_intros) (simp_all add: booked_def posted_def)

lemma keeps_books_create:
  assumes "keeps books m" shows "preserves booked m"
  using assms by (rule keeps_books_booked)

lemma preserves_booked_reads [pres_intros]:
  "preserves booked (authorizeBookingTargets m ts reason)" "preserves booked (authorize_batch m ts gs reason)"
  "preserves booked (loadBookingDetails g p v ep q r)" "preserves booked (refreshBookingState env b m)"
  unfolding authorizeBookingTargets_def authorize_batch_def booking_mode_def loadBookingDetails_def refreshBookingState_def
    applyCurrentVoidMetadata_def Let_def
  by (intro pres_intros; simp add: booked_def posted_def)+

lemma preserves_booked_items [pres_intros]: "preserves booked (load_items g ep n i t items)"
  by (induction items arbitrary: i t) (auto simp: Let_def intro!: pres_intros)

lemma preserves_booked_store [pres_intros]:
  "preserves booked (store_result g u k h v now)" "preserves booked (Now env)" "preserves booked (Store env g u k h c v)"
  "preserves booked (RebuildPaymentAllocations g m)"
  unfolding store_result_def by (intro keeps_books_booked keeps_books keeps_books_rebuild)+

lemma preserves_booked_commands:
  "preserves booked (create_tx env svc actor m key input)"
  "preserves booked (create_batch_tx env svc actor m key input2)"
  "preserves booked (create_bulk_tx env svc actor m key input3)"
  "preserves booked (void_tx env svc actor m key bid reason)"
proof -
  have case_resp: "preserves P (case r of RespBooking b \<Rightarrow> f b | RespBookings bs \<Rightarrow> h bs | _ \<Rightarrow> x)"
    if "\<And>b. preserves P (f b)" "\<And>bs. preserves P (h bs)" "preserves P x" for P f h x r
    using that by (cases r) simp_all
  show "preserves booked (create_tx env svc actor m key input)"
    unfolding create_tx_def createBookingForTargetTx_def Let_def by (intro pres_intros) (auto split: response.split intro!: pres_intros)
  show "preserves booked (create_batch_tx env svc actor m key input2)"
    unfolding create_batch_tx_def createBookingForTargetTx_def Let_def by (intro pres_intros) (auto split: response.split intro!: pres_intros)
  show "preserves booked (create_bulk_tx env svc actor m key input3)"
    unfolding create_bulk_tx_def Let_def book_item_def by (intro pres_intros) (auto split: response.split intro!: pres_intros)
  have "preserves booked (void_new env svc actor m bid reason)"
    by (rule validI) (rule booked_void_new)
  then show "preserves booked (void_tx env svc actor m key bid reason)"
    unfolding void_tx_def Let_def by (intro pres_intros) (auto split: response.split intro!: pres_intros)
qed

section \<open>An example\<close>

text \<open>A group with an open period, one fixed-price product, a member that may book for itself and for
  others and may reverse anything, a second member and an administrator-only role assignment.\<close>

definition shop :: db where
  "shop = empty_db\<lparr>
     groups := [\<lparr>gr_id = ''g'', gr_currency = ''EUR'', gr_status = ''ACTIVE''\<rparr>],
     users := [\<lparr>us_id = ''u'', us_email = Some ''u'', us_display_name = ''U'', us_password_hash = Some ''h'',
         us_active = True, us_avatar_key = None\<rparr>,
       \<lparr>us_id = ''w'', us_email = Some ''w'', us_display_name = ''W'', us_password_hash = Some ''h'',
         us_active = True, us_avatar_key = None\<rparr>],
     memberships := [\<lparr>ms_id = ''m'', ms_group = ''g'', ms_user = ''u'', ms_status = ''ACTIVE'', ms_guest_key = None,
         ms_deleted_at = None\<rparr>,
       \<lparr>ms_id = ''n'', ms_group = ''g'', ms_user = ''w'', ms_status = ''ACTIVE'', ms_guest_key = None, ms_deleted_at = None\<rparr>],
     assignments := [\<lparr>as_group = ''g'', as_membership = ''m'', as_role = ''r''\<rparr>],
     grants := map (\<lambda>p. \<lparr>gt_group = ''g'', gt_role = ''r'', gt_permission = p, gt_scope = ''GROUP'', gt_category = None,
         gt_product = None\<rparr>) [''BOOK_FOR_OTHERS'', ''VOID_ANY_BOOKING''],
     settings := [\<lparr>st_group = ''g'', st_settlements = True, st_own_booking_mode = ''OFF'',
       st_foreign_booking_mode = ''OPTIONAL'', st_own_payment_mode = ''OFF'', st_other_payment_mode = ''OFF'',
       st_external_enabled = False, st_external_version = 1, st_planning_enabled = False, st_statistics_enabled = False\<rparr>],
     periods := [\<lparr>pe_id = ''p'', pe_group = ''g'', pe_label = [], pe_status = ''OPEN'', pe_starts_at = ''2025'',
       pe_closed_at = None, pe_due_at = None, pe_closed_by = None\<rparr>],
     categories := [\<lparr>ca_id = ''c'', ca_group = ''g'', ca_name = ''d'', ca_icon = [], ca_sort_order = 0, ca_active = True\<rparr>],
     products := [\<lparr>pr_id = ''x'', pr_group = ''g'', pr_category = ''c'', pr_name = ''k'', pr_price = Some 150,
       pr_pricing_mode = ''FIXED'', pr_active = True, pr_version = 1, pr_deleted_at = None\<rparr>]\<rparr>"

definition uta :: membership where
  "uta = \<lparr>m_ID = ''m'', m_GroupID = ''g'', m_UserID = ''u'', m_DisplayName = ''U'', m_AvatarURL = []\<rparr>"

definition coffee_for :: "string \<Rightarrow> create_booking_input" where
  "coffee_for target = \<lparr>ci_ProductID = ''x'', ci_ProductVersion = 1, ci_ExpectedPeriodID = ''p'', ci_Quantity = 2,
     ci_UnitPriceMinor = None, ci_TargetMembershipID = target, ci_Reason = []\<rparr>"

definition booked_coffee :: "booking result \<times> db" where
  "booked_coffee = Create fixed_env mail_only \<lparr>UserID = ''u''\<rparr> uta ''key-0001'' (coffee_for ''n'') shop"

section \<open>Charging\<close>

lemma loadBookingDetails_Inr:
  assumes "loadBookingDetails g productID v ep q r s = Inr (d, s')"
  shows "s' = s \<and> (\<exists>p x. p \<in> set (products s) \<and> pr_id p = productID \<and> pr_group p = g \<and> pr_active p \<and> pr_version p = v \<and>
      x \<in> set (periods s) \<and> pe_id x = ep \<and> pe_group x = g \<and> pe_status x = ''OPEN'' \<and> bd_periodID d = ep \<and>
      unit_price p r = Inr (bd_unitPriceMinor d)) \<and>
    bd_totalMinor d = bd_unitPriceMinor d * q \<and> (1 \<le> q \<longrightarrow> bd_totalMinor d \<le> max_int64)"
proof -
  from assms obtain p c x gr where offer: "product_offer g productID s = Some (p, c, x, gr)"
    and eq: "pr_version p = v" "pe_id x = ep" "unit_price p r = Inr (bd_unitPriceMinor d)"
      "bd_unitPriceMinor d \<le> max_int64 div q" "bd_periodID d = ep" "bd_totalMinor d = bd_unitPriceMinor d * q" "s' = s"
    by (auto simp: loadBookingDetails_def bind_eq_Inr not_less)
  have "bd_totalMinor d \<le> max_int64" if "1 \<le> q"
  proof -
    have "bd_unitPriceMinor d * q \<le> max_int64 div q * q" using eq(4) that by (intro mult_right_mono) auto
    also have "\<dots> \<le> max_int64" using that div_mult_mod_eq [of max_int64 q] pos_mod_sign [of q max_int64] by linarith
    finally show ?thesis using eq(6) by simp
  qed
  moreover have "p \<in> set (products s) \<and> pr_id p = productID \<and> pr_group p = g \<and> pr_active p"
    "x \<in> set (periods s) \<and> pe_group x = g \<and> pe_status x = ''OPEN''"
    using offer by (auto simp: product_offer_def dest!: first_row_Some split: option.splits)
  ultimately show ?thesis using eq by blast
qed

lemma authorize_state: "authorizeBookingTargets m ts reason s = Inr (r, s') \<Longrightarrow> s' = s"
  by (auto simp: authorizeBookingTargets_def booking_mode_def Let_def bind_eq_Inr requirePermission_Inr split: if_splits)

text \<open>A run of \<open>Create\<close> under a fresh key.\<close>

lemma Create_new:
  assumes run: "Create env svc actor m key input s = (Inr b, s')"
    and new: "\<forall>r\<in>set (idempotency s). \<not> (ir_group r = m_GroupID m \<and> ir_user r = UserID actor \<and> ir_key r = key)"
  obtains i reason details now s1 s2 where
    "validate_create m key input = Inr i"
    "authorizeBookingTargets m [ci_TargetMembershipID i] (ci_Reason i) s = Inr (reason, s)"
    "loadBookingDetails (m_GroupID m) (ci_ProductID i) (ci_ProductVersion i) (ci_ExpectedPeriodID i) (ci_Quantity i)
       (ci_UnitPriceMinor i) s = Inr (details, s)"
    "books s1 = books s" "idempotency s1 = idempotency s"
    "createBookingForTargetTxWithAllocationRebuild env svc actor m (ci_ProductID i) (ci_Quantity i)
       (ci_TargetMembershipID i) reason details now True s1 = Inr (b, s2)"
    "store_result (m_GroupID m) (UserID actor) key (Hash env (ReqCreateBooking i)) (RespBooking b) now s2 = Inr ((), s')"
proof -
  from run obtain i where i: "validate_create m key input = Inr i"
    and tx: "create_tx env svc actor m key i s = Inr (b, s')"
    by (auto simp: Create_def checked_def WithTx_def split: sum.splits prod.splits)
  have load: "Load (m_GroupID m) (UserID actor) key h s = Inr (None, s)" for h
    using new by (simp add: Load_None)
  from tx obtain reason s0 details s3 now s1 s2 where a:
    "authorizeBookingTargets m [ci_TargetMembershipID i] (ci_Reason i) s = Inr (reason, s0)"
    "loadBookingDetails (m_GroupID m) (ci_ProductID i) (ci_ProductVersion i) (ci_ExpectedPeriodID i) (ci_Quantity i)
       (ci_UnitPriceMinor i) s0 = Inr (details, s3)" "Now env s3 = Inr (now, s1)"
    "createBookingForTargetTxWithAllocationRebuild env svc actor m (ci_ProductID i) (ci_Quantity i)
       (ci_TargetMembershipID i) reason details now True s1 = Inr (b, s2)"
    "store_result (m_GroupID m) (UserID actor) key (Hash env (ReqCreateBooking i)) (RespBooking b) now s2 = Inr ((), s')"
    unfolding create_tx_def Let_def createBookingForTargetTx_def
      bind_Inr [where m = "Load (m_GroupID m) (UserID actor) key (Hash env (ReqCreateBooking i))", OF load] by (auto simp: bind_eq_Inr)
  have s0: "s0 = s" using authorize_state [OF a(1)] .
  have s3: "s3 = s" using loadBookingDetails_Inr [OF a(2)] s0 by blast
  show thesis
    by (rule that [OF i, of reason details s1 now s2]) (use a s0 s3 in \<open>simp_all add: Now_def\<close>, use a(3) s3 in \<open>auto simp: Now_def\<close>)
qed

lemma validate_create_target:
  "validate_create m key input = Inr i \<Longrightarrow> m_ID m \<noteq> [] \<Longrightarrow>
     ci_TargetMembershipID i \<noteq> [] \<and> 1 \<le> ci_Quantity i \<and> ci_Quantity i = ci_Quantity input \<and>
     ci_ProductVersion i = ci_ProductVersion input \<and> ci_UnitPriceMinor i = ci_UnitPriceMinor input"
  by (auto simp: validate_create_def trim_create_def Let_def split: sum.splits if_splits)

lemma keeps_books_store [simp, intro]: "keeps books (store_result g u k h v now)"
  unfolding store_result_def by blast

lemma ledger_sum_append: "ledger s' = ledger s @ rows \<Longrightarrow> ledger_sum P s' = ledger_sum P s + rows_sum P rows"
  by (simp add: ledger_sum_rows)

definition member_row :: "string \<Rightarrow> string \<Rightarrow> ledger_row \<Rightarrow> bool" where
  "member_row g x r \<longleftrightarrow> le_group r = g \<and> le_membership r = Some x \<and> le_account r = ''MEMBER_RECEIVABLE''"

lemma member_balance_append:
  "ledger s' = ledger s @ rows \<Longrightarrow> member_balance g x s' = member_balance g x s + rows_sum (member_row g x) rows"
  unfolding member_balance_def member_row_def by (rule ledger_sum_append)

text \<open>C22. Create under a key that was not used before charges the target and nobody else: it appends one
  booking and two ledger rows of opposite amount in the open period, the amount is the price of the
  requested version of the product times the quantity and fits an \<open>int64\<close>, the target's balance grows by
  it and every other balance stays, and no other part of the books changes.\<close>

theorem Create_charges_target:
  assumes run: "Create env svc actor m key input s = (Inr b, s')" and member: "m_ID m \<noteq> []"
    and new: "\<forall>r\<in>set (idempotency s). \<not> (ir_group r = m_GroupID m \<and> ir_user r = UserID actor \<and> ir_key r = key)"
  shows "(\<exists>row i1 i2 d. bookings s' = bookings s @ [row] \<and>
      ledger s' = ledger s @ [charge_row i1 row d, revenue_row i2 row d] \<and> static s' = static s \<and>
      bk_id row = b_ID b \<and> bk_target row = b_TargetMembershipID b \<and> bk_total row = b_TotalMinor b \<and>
      bk_quantity row = ci_Quantity input \<and> bk_total row = bk_unit_price row * bk_quantity row \<and>
      0 < bk_total row \<and> bk_total row \<le> max_int64 \<and>
      (\<exists>x\<in>set (periods s). pe_id x = bk_period row \<and> pe_group x = m_GroupID m \<and> pe_status x = ''OPEN'') \<and>
      (\<exists>p\<in>set (products s). pr_id p = bk_product row \<and> pr_group p = m_GroupID m \<and> pr_version p = ci_ProductVersion input \<and>
         unit_price p (ci_UnitPriceMinor input) = Inr (bk_unit_price row))) \<and>
    (\<forall>x. member_balance (m_GroupID m) x s' =
       member_balance (m_GroupID m) x s + (if x = b_TargetMembershipID b then b_TotalMinor b else 0))"
  using run new
proof (rule Create_new)
  fix i :: create_booking_input and reason details now s1 s2
  let ?row = "booking_of m (ci_ProductID i) (ci_Quantity i) (ci_TargetMembershipID i) reason details (b_ID b) (Timestamp now)"
  assume val: "validate_create m key input = Inr i"
    and det: "loadBookingDetails (m_GroupID m) (ci_ProductID i) (ci_ProductVersion i) (ci_ExpectedPeriodID i) (ci_Quantity i)
       (ci_UnitPriceMinor i) s = Inr (details, s)" and s1: "books s1 = books s"
    and create: "createBookingForTargetTxWithAllocationRebuild env svc actor m (ci_ProductID i) (ci_Quantity i)
       (ci_TargetMembershipID i) reason details now True s1 = Inr (b, s2)"
    and store: "store_result (m_GroupID m) (UserID actor) key (Hash env (ReqCreateBooking i)) (RespBooking b) now s2 = Inr ((), s')"
  have s': "books s' = books s2" using store by (rule keepsD [OF keeps_books_store])
  note v = validate_create_target [OF val member]
  note d = loadBookingDetails_Inr [OF det]
  have same: "ci_ProductVersion i = ci_ProductVersion input" "ci_UnitPriceMinor i = ci_UnitPriceMinor input"
    using v by simp_all
  from create show ?thesis
  proof (rule createBooking_effect)
    fix i1 i2
    assume e: "bookings s2 = bookings s1 @ [?row]"
      "ledger s2 = ledger s1 @ [charge_row i1 ?row (bd_ledgerDescription details), revenue_row i2 ?row (bd_ledgerDescription details)]"
      "static s2 = static s1" "booking_ok s1 ?row" "b_TotalMinor b = bd_totalMinor details"
      "b_TargetMembershipID b = ci_TargetMembershipID i"
    have led: "ledger s' = ledger s @ [charge_row i1 ?row (bd_ledgerDescription details), revenue_row i2 ?row (bd_ledgerDescription details)]"
      and bks: "bookings s' = bookings s @ [?row]" and stat: "static s' = static s"
      using s' s1 e(1-3) by (simp_all add: books_split)
    have pos: "0 < bd_totalMinor details" using e(4) by (simp add: booking_ok_def)
    have part1: "bk_quantity ?row = ci_Quantity input" "bk_total ?row = bk_unit_price ?row * bk_quantity ?row"
      "bk_total ?row \<le> max_int64"
      using v d by simp_all
    have bal: "member_balance (m_GroupID m) x s' =
       member_balance (m_GroupID m) x s + (if x = b_TargetMembershipID b then b_TotalMinor b else 0)" for x
      using member_balance_append [OF led, of "m_GroupID m" x] v e(5,6) by (simp add: member_row_def)
    from d obtain p x where px: "p \<in> set (products s)" "pr_id p = ci_ProductID i" "pr_group p = m_GroupID m"
      "pr_version p = ci_ProductVersion i" "x \<in> set (periods s)" "pe_id x = ci_ExpectedPeriodID i" "pe_group x = m_GroupID m"
      "pe_status x = ''OPEN''" "bd_periodID details = ci_ExpectedPeriodID i"
      "unit_price p (ci_UnitPriceMinor i) = Inr (bd_unitPriceMinor details)" by blast
    show ?thesis
      by (intro conjI allI bal, intro exI [of _ ?row] exI [of _ i1] exI [of _ i2] exI [of _ "bd_ledgerDescription details"] conjI)
        (use led bks stat e(5,6) pos part1 px same in \<open>auto\<close>)
  qed
qed

theorem Create_charges_target_witness:
  "member_balance ''g'' ''n'' (snd booked_coffee) = 300 \<and> member_balance ''g'' ''m'' (snd booked_coffee) = 0"
proof -
  have "case booked_coffee of (r, s) \<Rightarrow> \<not> isl r \<and> b_TotalMinor (projr r) = 300 \<and> b_TargetMembershipID (projr r) = ''n''"
    by code_simp
  then obtain b where ok: "fst booked_coffee = Inr b" "b_TotalMinor b = 300" "b_TargetMembershipID b = ''n''"
    by (cases "fst booked_coffee") (auto simp: case_prod_beta)
  then have run: "Create fixed_env mail_only \<lparr>UserID = ''u''\<rparr> uta ''key-0001'' (coffee_for ''n'') shop = (Inr b, snd booked_coffee)"
    unfolding booked_coffee_def [symmetric] by (simp add: prod_eq_iff)
  have "member_balance (m_GroupID uta) x (snd booked_coffee) = member_balance (m_GroupID uta) x shop + (if x = ''n'' then 300 else 0)" for x
    using Create_charges_target [OF run] unfolding ok(2,3) by (auto simp: uta_def shop_def empty_db_def)
  then show ?thesis by (simp add: uta_def shop_def empty_db_def member_balance_def ledger_sum_def)
qed

section \<open>Reversing\<close>

text \<open>What a booking still owes, per account and member.\<close>

definition booking_net :: "string \<Rightarrow> string \<Rightarrow> string option \<Rightarrow> db \<Rightarrow> int" where
  "booking_net bid account member s =
     ledger_sum (\<lambda>r. le_booking r = Some bid \<and> le_account r = account \<and> le_membership r = member) s"

lemma booking_net_own: "booking_net bid acc mo s =
  rows_sum (\<lambda>r. le_account r = acc \<and> le_membership r = mo) (filter (\<lambda>r. le_booking r = Some bid) (ledger s))"
  by (simp add: booking_net_def ledger_sum_def rows_sum_def conj_commute)

lemma two_ids: "length ids = 2 \<Longrightarrow> \<exists>j1 j2. ids = [j1, j2]"
  by (auto simp: numeral_2_eq_2 length_Suc_conv)

lemma Void_new:
  assumes run: "Void env svc actor m key bid reason s = (Inr b, s')"
    and new: "\<forall>r\<in>set (idempotency s). \<not> (ir_group r = m_GroupID m \<and> ir_user r = UserID actor \<and> ir_key r = key)"
  obtains s1 where "void_new env svc actor m bid (TrimSpace reason) s = Inr (b, s1)" "books s' = books s1"
proof -
  let ?h = "Hash env (ReqVoidBooking bid (TrimSpace reason))"
  have load: "Load (m_GroupID m) (UserID actor) key ?h s = Inr (None, s)"
    using new by (simp add: Load_None)
  from run have "void_tx env svc actor m key bid (TrimSpace reason) s = Inr (b, s')"
    by (auto simp: Void_def Let_def WithTx_def split: sum.splits prod.splits if_splits)
  then obtain s1 where "void_new env svc actor m bid (TrimSpace reason) s = Inr (b, s1)"
    and store: "Store env (m_GroupID m) (UserID actor) key ?h 200 (RespBooking b) s1 = Inr ((), s')"
    unfolding void_tx_def Let_def bind_Inr [where m = "Load (m_GroupID m) (UserID actor) key ?h", OF load]
    by (auto simp: bind_eq_Inr)
  then show thesis using that keepsD [OF keeps_books(5) store] by blast
qed

lemma voided_rows:
  assumes "x \<in> set (update_rows (\<lambda>x. bk_id x = bid \<and> bk_voided_at x = None) (void_row at mid reason) bs)" "bk_id x = bid"
  shows "bk_voided_at x \<noteq> None"
proof -
  obtain y where y: "x = (if bk_id y = bid \<and> bk_voided_at y = None then void_row at mid reason y else y)"
    using assms(1) unfolding update_rows_def set_map by blast
  show ?thesis
  proof (cases "bk_id y = bid \<and> bk_voided_at y = None")
    case True
    then have "x = void_row at mid reason y" by (subst y) (rule if_P)
    then show ?thesis by (simp only: rows_void_row) simp
  next
    case False
    then have eq: "x = y" by (subst y) (rule if_not_P)
    show ?thesis using False assms(2) unfolding eq by simp
  qed
qed

text \<open>A booking that is already voided cannot be reversed again under any other key.\<close>

lemma Void_again:
  assumes voided: "\<forall>x\<in>set (bookings s). bk_id x = bid \<longrightarrow> bk_voided_at x \<noteq> None"
    and new: "\<forall>r\<in>set (idempotency s). \<not> (ir_group r = m_GroupID m \<and> ir_user r = UserID actor \<and> ir_key r = key)"
  shows "isl (fst (Void env svc actor m key bid reason s))"
proof (rule ccontr)
  assume "\<not> isl (fst (Void env svc actor m key bid reason s))"
  then obtain b s' where "Void env svc actor m key bid reason s = (Inr b, s')"
    by (cases "Void env svc actor m key bid reason s"; cases "fst (Void env svc actor m key bid reason s)") auto
  then obtain s1 where "void_new env svc actor m bid (TrimSpace reason) s = Inr (b, s1)" by (rule Void_new [OF _ new])
  then show False
  proof (rule void_new_effect)
    assume "length (filter (\<lambda>x. bk_id x = bid \<and> bk_voided_at x = None) (bookings s)) = 1"
    moreover have "filter (\<lambda>x. bk_id x = bid \<and> bk_voided_at x = None) (bookings s) = []"
      using voided by (auto simp: filter_empty_conv)
    ultimately show False by simp
  qed
qed

text \<open>C5. Void under a fresh key cancels exactly one posted booking: every account the booking touched
  nets to zero for every member, the target's balance falls by the booked total and all other balances
  stay, the original rows are still there in front of the mirrored rows, which lie in the period that is
  open now, and no second reversal under another key can succeed.\<close>

theorem Void_cancels_booking:
  assumes inv: "booked s" and run: "Void env svc actor m key bid reason s = (Inr b, s')"
    and new: "\<forall>r\<in>set (idempotency s). \<not> (ir_group r = m_GroupID m \<and> ir_user r = UserID actor \<and> ir_key r = key)"
  shows "\<exists>row rows. row \<in> set (bookings s) \<and> bk_id row = bid \<and> bk_group row = m_GroupID m \<and> bk_voided_at row = None \<and>
    (\<forall>account member. booking_net bid account member s' = 0) \<and>
    ledger s' = ledger s @ rows \<and> length rows = 2 \<and>
    (\<exists>p\<in>set (periods s). pe_group p = m_GroupID m \<and> pe_status p = ''OPEN'' \<and>
      (\<forall>r\<in>set rows. le_period r = nullable (pe_id p) \<and> le_booking r = Some bid \<and> le_reversal_of r \<noteq> None)) \<and>
    (bk_target row \<noteq> [] \<longrightarrow> (\<forall>x. member_balance (m_GroupID m) x s' =
      member_balance (m_GroupID m) x s - (if x = bk_target row then bk_total row else 0))) \<and>
    (\<forall>env' svc' actor' m' key' reason'.
      (\<forall>r\<in>set (idempotency s'). \<not> (ir_group r = m_GroupID m' \<and> ir_user r = UserID actor' \<and> ir_key r = key')) \<longrightarrow>
      isl (fst (Void env' svc' actor' m' key' bid reason' s')))"
proof -
  obtain s1 where vn: "void_new env svc actor m bid (TrimSpace reason) s = Inr (b, s1)" and s': "books s' = books s1"
    using Void_new [OF run new] .
  from vn show ?thesis
  proof (rule void_new_effect)
    fix row cp at ids s2
    assume e: "first_row (\<lambda>x. bk_id x = bid \<and> bk_group x = m_GroupID m) (bookings s) = Some row"
      "length (filter (\<lambda>x. bk_id x = bid \<and> bk_voided_at x = None) (bookings s)) = 1"
      "bookings s1 = update_rows (\<lambda>x. bk_id x = bid \<and> bk_voided_at x = None) (void_row at (m_ID m) (TrimSpace reason)) (bookings s)"
      "length ids = length (original_rows bid s)" "[] \<notin> set ids"
      "ledger s1 = ledger s @ map2 (reversal_row (m_GroupID m) cp bid at) ids (original_rows bid s)"
      and period: "\<exists>p\<in>set (periods s). pe_id p = cp \<and> pe_group p = m_GroupID m \<and> pe_status p = ''OPEN''"
    note t = void_target [OF inv e(1,2)]
    have ne: "bid \<noteq> []" using inv t(1,2) by (auto simp: booked_def)
    obtain i1 i2 d where own: "filter (\<lambda>r. le_booking r = Some bid) (ledger s) = [charge_row i1 row d, revenue_row i2 row d]"
      "original_rows bid s = [charge_row i1 row d, revenue_row i2 row d]"
      using posted_originals [OF inv t(1,4)] unfolding t(2) by blast
    obtain j1 j2 where ids: "ids = [j1, j2]" using two_ids [of ids] e(4) own(2) by (auto simp: numeral_2_eq_2)
    let ?rev = "[reversal_row (m_GroupID m) cp bid at j1 (charge_row i1 row d), reversal_row (m_GroupID m) cp bid at j2 (revenue_row i2 row d)]"
    have led: "ledger s' = ledger s @ ?rev" using e(6) s' own(2) ids by (simp add: books_split)
    have bks: "bookings s' = update_rows (\<lambda>x. bk_id x = bid \<and> bk_voided_at x = None) (void_row at (m_ID m) (TrimSpace reason)) (bookings s)"
      using e(3) s' by (simp add: books_split)
    have i: "i1 \<noteq> []" "i2 \<noteq> []"
    proof -
      have "charge_row i1 row d \<in> set (ledger s)" "revenue_row i2 row d \<in> set (ledger s)"
        using own(1) filter_is_subset [of "\<lambda>r. le_booking r = Some bid" "ledger s"] by auto
      then have "le_id (charge_row i1 row d) \<noteq> []" "le_id (revenue_row i2 row d) \<noteq> []"
        using inv unfolding booked_def by blast+
      then show "i1 \<noteq> []" "i2 \<noteq> []" by simp_all
    qed
    have mem: "le_membership (reversal_row (m_GroupID m) cp bid at j1 (charge_row i1 row d)) = nullable (bk_target row)"
      "le_membership (reversal_row (m_GroupID m) cp bid at j2 (revenue_row i2 row d)) = None"
      by (simp_all add: reversal_row_membership)
    have net: "booking_net bid acc mo s' = 0" for acc mo
      unfolding booking_net_own led filter_append own(1)
      by (cases "acc = ''MEMBER_RECEIVABLE''"; cases "acc = ''CATEGORY_REVENUE''") (simp_all add: ne mem)
    have bal: "member_balance (m_GroupID m) x s' = member_balance (m_GroupID m) x s - (if x = bk_target row then bk_total row else 0)"
      if "bk_target row \<noteq> []" for x
      using member_balance_append [OF led, of "m_GroupID m" x] that mem by (simp add: member_row_def)
    have voided: "\<forall>x\<in>set (bookings s'). bk_id x = bid \<longrightarrow> bk_voided_at x \<noteq> None"
      unfolding bks using voided_rows by blast
    from period obtain p where p: "p \<in> set (periods s)" "pe_id p = cp" "pe_group p = m_GroupID m" "pe_status p = ''OPEN''" by blast
    show ?thesis
      by (intro exI [of _ row] exI [of _ ?rev] conjI allI impI net bal Void_again [OF voided] bexI [of _ p])
        (use t led p i ne in \<open>simp_all\<close>)
  qed
qed

definition coffee_row :: booking_row where
  "coffee_row = \<lparr>bk_id = ''b'', bk_group = ''g'', bk_period = ''o'', bk_category = ''c'', bk_product = ''x'', bk_actor = ''m'',
     bk_target = ''n'', bk_quantity = 2, bk_unit_price = 150, bk_total = 300, bk_product_name = ''k'', bk_category_name = ''d'',
     bk_reason = None, bk_created_at = ''2025-12-31T00:00:00Z'', bk_voided_at = None, bk_voided_by = None,
     bk_void_reason = None, bk_version = 1\<rparr>"

text \<open>The coffee was booked in a period that has been closed since.\<close>

definition coffee_shop :: db where
  "coffee_shop = shop\<lparr>bookings := [coffee_row], ledger := [charge_row ''1'' coffee_row ''k'', revenue_row ''2'' coffee_row ''k''],
     periods := [\<lparr>pe_id = ''o'', pe_group = ''g'', pe_label = [], pe_status = ''CLOSED'', pe_starts_at = ''2024'',
       pe_closed_at = None, pe_due_at = None, pe_closed_by = None\<rparr>,
       \<lparr>pe_id = ''p'', pe_group = ''g'', pe_label = [], pe_status = ''OPEN'', pe_starts_at = ''2025'',
       pe_closed_at = None, pe_due_at = None, pe_closed_by = None\<rparr>]\<rparr>"

definition voided_coffee :: "booking result \<times> db" where
  "voided_coffee = Void fixed_env mail_only \<lparr>UserID = ''u''\<rparr> uta ''key-0002'' ''b'' ''no'' coffee_shop"

lemma coffee_booked: "booked coffee_shop"
proof -
  have "posted coffee_shop coffee_row"
    unfolding posted_def Let_def
    by (intro exI [of _ "''1''"] exI [of _ "''2''"] exI [of _ "''k''"] exI [of _ "[]"])
      (simp add: coffee_shop_def coffee_row_def)
  then show ?thesis
    by (auto simp: booked_def coffee_shop_def coffee_row_def)
qed

theorem Void_cancels_booking_witness:
  "isl (fst (Void fixed_env mail_only \<lparr>UserID = ''u''\<rparr> uta ''key-0003'' ''b'' ''again'' (snd voided_coffee))) \<and>
   booking_net ''b'' ''MEMBER_RECEIVABLE'' (Some ''n'') (snd voided_coffee) = 0"
proof -
  have "case voided_coffee of (r, s) \<Rightarrow> \<not> isl r \<and> map ir_key (idempotency s) = [''key-0002'']"
    by code_simp
  then obtain b where ok: "fst voided_coffee = Inr b" "map ir_key (idempotency (snd voided_coffee)) = [''key-0002'']"
    by (cases "fst voided_coffee") (auto simp: case_prod_beta)
  then have run: "Void fixed_env mail_only \<lparr>UserID = ''u''\<rparr> uta ''key-0002'' ''b'' ''no'' coffee_shop = (Inr b, snd voided_coffee)"
    unfolding voided_coffee_def [symmetric] by (simp add: prod_eq_iff)
  have keys: "ir_key r = ''key-0002''" if "r \<in> set (idempotency (snd voided_coffee))" for r
  proof -
    have "ir_key ` set (idempotency (snd voided_coffee)) = {''key-0002''}"
      using arg_cong [OF ok(2), of set] by simp
    then show ?thesis using that by blast
  qed
  have "idempotency coffee_shop = []" by (simp add: coffee_shop_def shop_def empty_db_def)
  then obtain row rows where e: "\<forall>account member. booking_net ''b'' account member (snd voided_coffee) = 0"
    "\<forall>env' svc' actor' m' key' reason'.
      (\<forall>r\<in>set (idempotency (snd voided_coffee)). \<not> (ir_group r = m_GroupID m' \<and> ir_user r = UserID actor' \<and> ir_key r = key')) \<longrightarrow>
      isl (fst (Void env' svc' actor' m' key' ''b'' reason' (snd voided_coffee)))"
    using Void_cancels_booking [OF coffee_booked run] by auto
  have "\<forall>r\<in>set (idempotency (snd voided_coffee)). \<not> (ir_group r = m_GroupID uta \<and> ir_user r = ''u'' \<and> ir_key r = ''key-0003'')"
    using keys by fastforce
  then show ?thesis using e by simp
qed

section \<open>Metadata and guards agree\<close>

text \<open>C23. The reversal flags shown with a booking are exactly the rules Void enforces at the same instant:
  Void's guards accept a reason precisely when CanVoid is set and, if VoidReasonRequired is set, the
  reason is not empty.\<close>

theorem void_metadata_agrees:
  fixes env :: env
  assumes view: "b_ActorMembershipID b = bk_actor row" "b_TargetMembershipID b = bk_target row"
      "b_CreatedAt b = bk_created_at row" "b_VoidedAt b = bk_voided_at row"
    and perms: "canPermission m ''VOID_OWN_BOOKING'' s = Inr (own, s)" "canPermission m ''VOID_ANY_BOOKING'' s = Inr (any, s)"
    and stamp: "parse_rfc3339 (bk_created_at row) = Some created"
  defines "shown \<equiv> ApplyVoidMetadata b m own any (env_now env (clock_reads s))"
  shows "\<not> isl (void_guards env m row reason s) \<longleftrightarrow>
    b_CanVoid shown \<and> (b_VoidReasonRequired shown \<longrightarrow> reason \<noteq> [])"
proof -
  let ?involved = "bk_actor row = m_ID m \<or> bk_target row = m_ID m"
  let ?now = "env_now env (clock_reads s)"
  let ?required = "bk_actor row \<noteq> m_ID m \<or> \<not> ?now < created + voidWithoutReasonWindow"
  have req: "requirePermission m (void_permission m row) s
      = (if (?involved \<and> own) \<or> (\<not> ?involved \<and> any) then Inr ((), s) else Inl ErrForbidden)"
    using perms by (simp add: void_permission_def requirePermission_def canPermission_Inr)
  have clock: "\<exists>s'. (if bk_actor row \<noteq> m_ID m then ret True
      else tx_bind (Now env) (\<lambda>now. ret (\<not> now < created + voidWithoutReasonWindow))) s = Inr (?required, s')"
    by (simp add: Now_def tx_bind_def)
  have guards: "\<not> isl (void_guards env m row reason s) \<longleftrightarrow>
      bk_voided_at row = None \<and> ((?involved \<and> own) \<or> (\<not> ?involved \<and> any)) \<and> (?required \<longrightarrow> reason \<noteq> [])"
  proof -
    obtain s' where c: "(if bk_actor row \<noteq> m_ID m then ret True
      else tx_bind (Now env) (\<lambda>now. ret (\<not> now < created + voidWithoutReasonWindow))) s = Inr (?required, s')"
      using clock by blast
    show ?thesis
      unfolding void_guards_def void_permission_def [symmetric]
      by (cases "bk_voided_at row"; cases "(?involved \<and> own) \<or> (\<not> ?involved \<and> any)";
          simp add: tx_bind_def req stamp c reject_if_def del: not_None_eq)
  qed
  have can: "b_CanVoid shown \<longleftrightarrow> bk_voided_at row = None \<and> ((?involved \<and> own) \<or> (\<not> ?involved \<and> any))"
    unfolding shown_def ApplyVoidMetadata_def Let_def by (simp add: view stamp)
  moreover have "b_VoidReasonRequired shown \<longleftrightarrow> ?required" if "b_CanVoid shown"
    using that [unfolded can] unfolding shown_def ApplyVoidMetadata_def Let_def
    by (simp add: view stamp)
  ultimately show ?thesis unfolding guards by blast
qed

theorem void_metadata_agrees_witness:
  "\<not> isl (void_guards fixed_env uta coffee_row ''no'' coffee_shop) \<and> isl (void_guards fixed_env uta coffee_row [] coffee_shop)"
proof -
  let ?b = "ApplyVoidMetadata (new_booking uta ''x'' 2 ''n'' [] \<lparr>bd_categoryID = [], bd_productName = [], bd_categoryName = [],
     bd_periodID = [], bd_currency = [], bd_unitPriceMinor = 150, bd_totalMinor = 300, bd_ledgerDescription = []\<rparr>
     (hd (users shop)) ''b'' ''2025-12-31T00:00:00Z'') uta True True 1767225600000000000"
  let ?rc = "\<lparr>rc_GroupID = m_GroupID uta, rc_CategoryID = [], rc_ProductID = []\<rparr>"
  have can: "Can coffee_shop (m_GroupID uta) (m_ID uta) ''VOID_OWN_BOOKING'' ?rc = Inr True"
    "Can coffee_shop (m_GroupID uta) (m_ID uta) ''VOID_ANY_BOOKING'' ?rc = Inr True"
    by code_simp+
  have perms: "canPermission uta ''VOID_OWN_BOOKING'' coffee_shop = Inr (True, coffee_shop)"
    "canPermission uta ''VOID_ANY_BOOKING'' coffee_shop = Inr (True, coffee_shop)"
    unfolding canPermission_Inr using can by blast+
  have stamp: "parse_rfc3339 (bk_created_at coffee_row) = Some 1767139200000000000"
    by code_simp
  have now: "env_now fixed_env (clock_reads coffee_shop) = 1767225600000000000"
    by (simp add: fixed_env_def coffee_shop_def shop_def empty_db_def)
  have flags: "b_CanVoid ?b" "b_VoidReasonRequired ?b"
    by code_simp+
  have "(\<not> isl (void_guards fixed_env uta coffee_row reason coffee_shop)) = (b_CanVoid ?b \<and> (b_VoidReasonRequired ?b \<longrightarrow> reason \<noteq> []))" for reason
    unfolding now [symmetric]
    by (rule void_metadata_agrees [OF _ _ _ _ perms stamp])
      (simp_all add: new_booking_def uta_def coffee_row_def)
  then show ?thesis using flags by simp
qed

section \<open>Retries\<close>

abbreviation group_resource :: "membership \<Rightarrow> resource_context" where
  "group_resource m \<equiv> \<lparr>rc_GroupID = m_GroupID m, rc_CategoryID = [], rc_ProductID = []\<rparr>"

lemma requirePermission_steps: "requirePermission m p = tx_bind (gets (\<lambda>s. Can s (m_GroupID m) (m_ID m) p (group_resource m)))
    (\<lambda>r. tx_bind (lift_result r) (\<lambda>allowed. reject_if (\<not> allowed) ErrForbidden))"
  by (rule ext) (simp add: requirePermission_def tx_bind_def reject_if_def lift_result_def split: sum.split)

lemma canPermission_steps: "canPermission m p = tx_bind (gets (\<lambda>s. Can s (m_GroupID m) (m_ID m) p (group_resource m))) lift_result"
  by (rule ext) (simp add: canPermission_def tx_bind_def lift_result_def split: sum.split)

lemma reads_permission [reads_intros]: "reads static (requirePermission m p)" "reads static (canPermission m p)"
  unfolding requirePermission_steps canPermission_steps
  by (intro reads_bind reads_simple reads_gets; drule Can_static; simp only:)+

lemma static_tables:
  "static s' = static s \<Longrightarrow> memberships s' = memberships s \<and> users s' = users s \<and> settings s' = settings s"
  unfolding static_def by (elim Pair_inject) (intro conjI)

lemma reads_mode [reads_intros]: "reads static (booking_mode f g)"
  unfolding booking_mode_def by (intro reads_intros) (drule static_tables, simp only:)

lemma reads_found [reads_intros]: "reads static (gets (found_targets g ts))"
  unfolding found_targets_def by (intro reads_intros) (drule static_tables, simp only:)

lemma reads_authorize [reads_intros]: "reads static (authorizeBookingTargets m ts reason)"
  unfolding authorizeBookingTargets_def Let_def by (intro reads_found reads_mode reads_bind reads_permission reads_simple reads_if)

lemma reads_metadata [reads_intros]: "reads static (applyCurrentVoidMetadata b m now)"
  unfolding applyCurrentVoidMetadata_def by (intro reads_intros)

text \<open>The stored answer of \<open>Create\<close> and \<open>CreateBatch\<close> obeys the contract of the idempotency store.\<close>

interpretation cmd: idempotent_store
  "\<lambda>(g, u, k). Load g u k" "\<lambda>(g, u, k) h v. store_result g u k h v now" for now
proof (unfold_locales; clarify)
  fix g u k h s v s'
  show "Load g u k h s = Inr (v, s') \<Longrightarrow> s' = s" by (rule Load_state)
next
  fix g u k h s v s1 r s2
  assume "store_result g u k h v now s1 = Inr (r, s2)" and new: "Load g u k h s1 = Inr (None, s1)"
  then have "first_row (\<lambda>r. ir_group r = g \<and> ir_user r = u \<and> ir_key r = k) (idempotency s1) = None"
    unfolding first_row_None by (simp add: Load_None)
  then show "Load g u k h s2 = Inr (Some v, s2)"
    using \<open>store_result g u k h v now s1 = Inr (r, s2)\<close>
    by (auto simp: store_result_def insert_idempotency_def insert_row_Inr Load_def first_row_append)
next
  fix g u k h s2 v h'
  assume "Load g u k h s2 = Inr (Some v, s2)" "h' \<noteq> h"
  then show "Load g u k h' s2 = Inl ErrIdempotencyReuse"
    by (rule idem.load_reuse [of "(g, u, k)", simplified])
qed

lemma Load_cong: "idempotency s' = idempotency s \<Longrightarrow> Load g u k h s = Inr (None, s) \<Longrightarrow> Load g u k h s' = Inr (None, s')"
  by (simp add: Load_None)



section \<open>Who may be charged\<close>

lemma card_targets: "set xs \<subseteq> set ts \<Longrightarrow> length (remdups xs) = length ts \<Longrightarrow> distinct ts \<and> set xs = set ts"
proof -
  assume sub: "set xs \<subseteq> set ts" and len: "length (remdups xs) = length ts"
  have "card (set xs) = length ts" using len by (metis length_remdups_card_conv)
  moreover have "card (set xs) \<le> card (set ts)" using sub by (intro card_mono) auto
  moreover have "card (set ts) \<le> length ts" by (rule card_length)
  ultimately have "card (set ts) = length ts" "card (set xs) = card (set ts)" by simp_all
  then show ?thesis using sub card_distinct card_subset_eq [of "set ts" "set xs"] by blast
qed

text \<open>C25. The targets that authorizeBookingTargets accepts are pairwise distinct active members of the
  caller's own group, and for each of them the caller holds the permission of its kind: its own bookings,
  those of temporary guests, or those of other members. The effective reason is the given one or, when the
  group's mode is OFF, empty.\<close>

theorem booking_targets_authorised:
  assumes run: "authorizeBookingTargets m ts reason s = Inr (effective, s')"
  shows "s' = s \<and> distinct ts \<and> (effective = reason \<or> effective = []) \<and>
    (\<forall>t\<in>set ts. \<exists>mr u. mr \<in> set (memberships s) \<and> u \<in> set (users s) \<and> ms_id mr = t \<and> ms_group mr = m_GroupID m \<and>
      ms_status mr = ''ACTIVE'' \<and> us_id u = ms_user mr \<and>
      Can s (m_GroupID m) (m_ID m)
        (if t = m_ID m then ''CREATE_OWN_BOOKING'' else if credentialless u then ''BOOK_FOR_GUESTS'' else ''BOOK_FOR_OTHERS'')
        (group_resource m) = Inr True)"
proof -
  let ?found = "found_targets (m_GroupID m) ts s"
  let ?guest = "\<lambda>t. map_of (rev ?found) t = Some True"
  have state: "s' = s" by (rule authorize_state [OF run])
  have len: "length (remdups (map fst ?found)) = length ts"
    and own: "list_ex (\<lambda>t. t = m_ID m) ts \<Longrightarrow> Can s (m_GroupID m) (m_ID m) ''CREATE_OWN_BOOKING'' (group_resource m) = Inr True"
    and others: "list_ex (\<lambda>t. t \<noteq> m_ID m \<and> \<not> ?guest t) ts \<Longrightarrow> Can s (m_GroupID m) (m_ID m) ''BOOK_FOR_OTHERS'' (group_resource m) = Inr True"
    and guests: "list_ex (\<lambda>t. t \<noteq> m_ID m \<and> ?guest t) ts \<Longrightarrow> Can s (m_GroupID m) (m_ID m) ''BOOK_FOR_GUESTS'' (group_resource m) = Inr True"
    and reason: "effective = reason \<or> effective = []"
  proof -
    have perm: "(if c then requirePermission m p else ret ()) x = Inr ((), y) \<Longrightarrow>
        y = x \<and> (c \<longrightarrow> Can x (m_GroupID m) (m_ID m) p (group_resource m) = Inr True)" for c p x y
      by (auto simp: requirePermission_Inr split: if_split_asm)
    from run obtain s1 s2 s3 mode s4 where steps: "length (remdups (map fst ?found)) = length ts"
      "(if list_ex (\<lambda>t. t = m_ID m) ts then requirePermission m ''CREATE_OWN_BOOKING'' else ret ()) s = Inr ((), s1)"
      "(if list_ex (\<lambda>t. t \<noteq> m_ID m \<and> \<not> ?guest t) ts then requirePermission m ''BOOK_FOR_OTHERS'' else ret ()) s1 = Inr ((), s2)"
      "(if list_ex (\<lambda>t. t \<noteq> m_ID m \<and> ?guest t) ts then requirePermission m ''BOOK_FOR_GUESTS'' else ret ()) s2 = Inr ((), s3)"
      "effective = (if \<not> ReasonMode_Enabled mode then [] else reason)"
      unfolding authorizeBookingTargets_def Let_def
      apply (elim bind_InrE)
      subgoal premises prems for x a1 u1 a2 u2 a3 u3 a4 u4 a5 mode a6 u6 a7 u7 a8
      proof -
        have eq: "x = ?found" "a1 = s" "a2 = s" using prems(2,3) by auto
        show thesis
          by (rule prems(1) [of a3 a4 a5 mode])
            (use prems(3-6,10) in \<open>simp_all only: eq reject_if_Inr ret_apply sum.inject prod.inject simp_thms not_not unit_eq\<close>)
      qed
      done
    have s1: "s1 = s" and s2: "s2 = s" using perm [OF steps(2)] perm [OF steps(3)] by simp_all
    show "length (remdups (map fst ?found)) = length ts" by (rule steps(1))
    show "list_ex (\<lambda>t. t = m_ID m) ts \<Longrightarrow> Can s (m_GroupID m) (m_ID m) ''CREATE_OWN_BOOKING'' (group_resource m) = Inr True"
      using perm [OF steps(2)] by blast
    show "list_ex (\<lambda>t. t \<noteq> m_ID m \<and> \<not> ?guest t) ts \<Longrightarrow> Can s (m_GroupID m) (m_ID m) ''BOOK_FOR_OTHERS'' (group_resource m) = Inr True"
      using perm [OF steps(3)] unfolding s1 by blast
    show "list_ex (\<lambda>t. t \<noteq> m_ID m \<and> ?guest t) ts \<Longrightarrow> Can s (m_GroupID m) (m_ID m) ''BOOK_FOR_GUESTS'' (group_resource m) = Inr True"
      using perm [OF steps(4)] unfolding s2 by blast
    show "effective = reason \<or> effective = []" using steps(5) by simp
  qed
  have ids: "set (map fst ?found) \<subseteq> set ts" by (auto simp: found_targets_def)
  note all = card_targets [OF ids len]
  have "\<exists>mr u. mr \<in> set (memberships s) \<and> u \<in> set (users s) \<and> ms_id mr = t \<and> ms_group mr = m_GroupID m \<and>
      ms_status mr = ''ACTIVE'' \<and> us_id u = ms_user mr \<and>
      Can s (m_GroupID m) (m_ID m)
        (if t = m_ID m then ''CREATE_OWN_BOOKING'' else if credentialless u then ''BOOK_FOR_GUESTS'' else ''BOOK_FOR_OTHERS'')
        (group_resource m) = Inr True" if t: "t \<in> set ts" for t
  proof -
    have "t \<in> fst ` set (rev ?found)" using all t by auto
    then obtain c where c: "map_of (rev ?found) t = Some c" by (metis map_of_eq_None_iff not_None_eq)
    then have "(t, c) \<in> set ?found" by (auto dest: map_of_SomeD)
    then obtain mr u where mu: "mr \<in> set (memberships s)" "u \<in> set (users s)" "ms_id mr = t" "ms_group mr = m_GroupID m"
      "ms_status mr = ''ACTIVE''" "us_id u = ms_user mr" "c = credentialless u"
      by (auto simp: found_targets_def)
    have "Can s (m_GroupID m) (m_ID m)
        (if t = m_ID m then ''CREATE_OWN_BOOKING'' else if credentialless u then ''BOOK_FOR_GUESTS'' else ''BOOK_FOR_OTHERS'')
        (group_resource m) = Inr True"
    proof (cases "t = m_ID m")
      case True
      then have "list_ex (\<lambda>t. t = m_ID m) ts" using t by (auto simp: list_ex_iff)
      then show ?thesis using own by (simp add: True)
    next
      case False
      show ?thesis
      proof (cases "credentialless u")
        case True
        then have "list_ex (\<lambda>t. t \<noteq> m_ID m \<and> ?guest t) ts" using t False c mu(7) by (auto simp: list_ex_iff)
        then show ?thesis using guests by (simp add: True False)
      next
        case notguest: False
        then have "list_ex (\<lambda>t. t \<noteq> m_ID m \<and> \<not> ?guest t) ts" using t False c mu(7) by (auto simp: list_ex_iff)
        then show ?thesis using others by (simp add: notguest False)
      qed
    qed
    then show ?thesis using mu by blast
  qed
  then show ?thesis using state all reason by blast
qed

theorem booking_targets_authorised_witness:
  "\<exists>mr u. mr \<in> set (memberships shop) \<and> u \<in> set (users shop) \<and> ms_id mr = ''n'' \<and> us_id u = ms_user mr \<and>
     Can shop ''g'' ''m'' (if credentialless u then ''BOOK_FOR_GUESTS'' else ''BOOK_FOR_OTHERS'') (group_resource uta) = Inr True"
proof -
  have "\<not> isl (authorizeBookingTargets uta [''n''] [] shop)"
    by code_simp
  then have run: "authorizeBookingTargets uta [''n''] [] shop = Inr (fst (projr (authorizeBookingTargets uta [''n''] [] shop)),
      snd (projr (authorizeBookingTargets uta [''n''] [] shop)))"
    by (rule run_Inr)
  have ids: "m_ID uta = ''m''" "m_GroupID uta = ''g''" "(''n'' = ''m'') = False"
    by (simp_all add: uta_def)
  show ?thesis
    using booking_targets_authorised [OF run, THEN conjunct2, THEN conjunct2, THEN conjunct2, THEN bspec, of "''n''"]
    unfolding ids if_False by (simp only: list.set insert_iff simp_thms) blast
qed

section \<open>Carts\<close>

lemma load_items_Inr:
  "load_items g ep n idx tot items s = Inr (ds, s') \<Longrightarrow> 1 \<le> n \<Longrightarrow> tot \<le> max_int64 \<Longrightarrow>
     s' = s \<and> length ds = length items \<and> tot + sum_list (map (\<lambda>d. bd_totalMinor d * n) ds) \<le> max_int64"
proof (induction items arbitrary: idx tot ds)
  case (Cons item items)
  then obtain d s1 rest where d: "loadBookingDetails g (it_ProductID item) (it_ProductVersion item) ep (it_Quantity item)
      (it_UnitPriceMinor item) s = Inr (d, s1)" "\<not> tot > max_int64 - bd_totalMinor d * n"
    and rest: "load_items g ep n (Suc idx) (tot + bd_totalMinor d * n) items s1 = Inr (rest, s')" "ds = d # rest"
    by (auto simp: Let_def bind_eq_Inr)
  have s1: "s1 = s" using loadBookingDetails_Inr [OF d(1)] by blast
  have "s' = s \<and> length rest = length items \<and>
      tot + bd_totalMinor d * n + sum_list (map (\<lambda>d. bd_totalMinor d * n) rest) \<le> max_int64"
    using Cons.IH [OF rest(1) [unfolded s1]] Cons.prems(2) d(2) by simp
  then show ?case using rest(2) by simp
qed simp

text \<open>What booking one product for a list of targets appends.\<close>

definition booked_rows :: "db \<Rightarrow> db \<Rightarrow> booking list \<Rightarrow> (string \<times> int \<times> string \<times> int) list \<Rightarrow> bool" where
  "booked_rows s s' bs lines \<longleftrightarrow> (\<exists>rows entries. bookings s' = bookings s @ rows \<and> ledger s' = ledger s @ entries \<and>
     static s' = static s \<and> idempotency s' = idempotency s \<and> map bk_id rows = map b_ID bs \<and>
     map (\<lambda>r. (bk_product r, bk_quantity r, bk_target r, bk_total r)) rows = lines \<and>
     (\<forall>g x. x \<noteq> [] \<longrightarrow> rows_sum (member_row g x) entries =
        sum_list (map bk_total (filter (\<lambda>r. bk_group r = g \<and> bk_target r = x) rows))))"

lemma booked_rows_refl: "booked_rows s s [] []"
  by (simp add: booked_rows_def)

lemma booked_rows_trans:
  assumes "booked_rows s s1 bs ls" "booked_rows s1 s2 bs' ls'"
  shows "booked_rows s s2 (bs @ bs') (ls @ ls')"
proof -
  from assms(1) obtain rows entries where a: "bookings s1 = bookings s @ rows" "ledger s1 = ledger s @ entries"
     "static s1 = static s" "idempotency s1 = idempotency s" "map bk_id rows = map b_ID bs"
     "map (\<lambda>r. (bk_product r, bk_quantity r, bk_target r, bk_total r)) rows = ls"
     "\<forall>g x. x \<noteq> [] \<longrightarrow> rows_sum (member_row g x) entries =
        sum_list (map bk_total (filter (\<lambda>r. bk_group r = g \<and> bk_target r = x) rows))"
    unfolding booked_rows_def by blast
  from assms(2) obtain rows' entries' where b: "bookings s2 = bookings s1 @ rows'" "ledger s2 = ledger s1 @ entries'"
     "static s2 = static s1" "idempotency s2 = idempotency s1" "map bk_id rows' = map b_ID bs'"
     "map (\<lambda>r. (bk_product r, bk_quantity r, bk_target r, bk_total r)) rows' = ls'"
     "\<forall>g x. x \<noteq> [] \<longrightarrow> rows_sum (member_row g x) entries' =
        sum_list (map bk_total (filter (\<lambda>r. bk_group r = g \<and> bk_target r = x) rows'))"
    unfolding booked_rows_def by blast
  show ?thesis
    unfolding booked_rows_def
    by (intro exI [of _ "rows @ rows'"] exI [of _ "entries @ entries'"]) (use a b in simp)
qed

lemma booked_rows_one:
  assumes "createBookingForTargetTxWithAllocationRebuild env svc actor m productID quantity targetID reason details
      nowTime rebuild s = Inr (b, s')"
  shows "booked_rows s s' [b] [(productID, quantity, targetID, bd_totalMinor details)]"
  using assms
proof (rule createBooking_effect)
  fix i1 i2
  let ?row = "booking_of m productID quantity targetID reason details (b_ID b) (Timestamp nowTime)"
  let ?es = "[charge_row i1 ?row (bd_ledgerDescription details), revenue_row i2 ?row (bd_ledgerDescription details)]"
  assume "bookings s' = bookings s @ [?row]" "ledger s' = ledger s @ ?es" "static s' = static s" "idempotency s' = idempotency s"
  moreover have "\<forall>g x. x \<noteq> [] \<longrightarrow> rows_sum (member_row g x) ?es =
      sum_list (map bk_total (filter (\<lambda>r. bk_group r = g \<and> bk_target r = x) [?row]))"
    by (auto simp: member_row_def)
  ultimately show ?thesis
    unfolding booked_rows_def
    by (intro exI [of _ "[?row]"] exI [of _ ?es]) simp
qed

lemma booked_rows_map:
  assumes "\<And>x s b s'. x \<in> set xs \<Longrightarrow> f x s = Inr (b, s') \<Longrightarrow> booked_rows s s' (view b) (lines x)"
    "map_tx f xs s = Inr (bs, s')"
  shows "booked_rows s s' (concat (map view bs)) (concat (map lines xs))"
  using assms
proof (induction xs arbitrary: s bs)
  case Nil
  then show ?case by (simp add: booked_rows_refl)
next
  case (Cons x xs)
  from Cons.prems(2) obtain b s1 rest where step: "f x s = Inr (b, s1)" "map_tx f xs s1 = Inr (rest, s')" "bs = b # rest"
    by (auto simp: bind_eq_Inr)
  have "booked_rows s s1 (view b) (lines x)" by (rule Cons.prems(1) [OF _ step(1)]) simp
  moreover have "booked_rows s1 s' (concat (map view rest)) (concat (map lines xs))"
    by (rule Cons.IH [OF Cons.prems(1) step(2)]) simp
  ultimately show ?case using step(3) by (simp add: booked_rows_trans)
qed

lemma booked_rows_cong:
  "booked_rows s s1 bs ls \<Longrightarrow> books s0 = books s \<Longrightarrow> books s2 = books s1 \<Longrightarrow>
     \<exists>rows entries. bookings s2 = bookings s0 @ rows \<and> ledger s2 = ledger s0 @ entries \<and> map bk_id rows = map b_ID bs \<and>
     map (\<lambda>r. (bk_product r, bk_quantity r, bk_target r, bk_total r)) rows = ls \<and>
     (\<forall>g x. x \<noteq> [] \<longrightarrow> rows_sum (member_row g x) entries =
        sum_list (map bk_total (filter (\<lambda>r. bk_group r = g \<and> bk_target r = x) rows)))"
  unfolding booked_rows_def books_split by (elim exE conjE) (intro exI conjI; assumption?; simp)

text \<open>The lines a cart expands to: item by item, and for each item target by target.\<close>

definition cart_lines :: "bulk_create_item list \<Rightarrow> booking_details list \<Rightarrow> string list \<Rightarrow> (string \<times> int \<times> string \<times> int) list" where
  "cart_lines items details targets =
     concat (map (\<lambda>(item, d). map (\<lambda>t. (it_ProductID item, it_Quantity item, t, bd_totalMinor d)) targets) (zip items details))"

lemma book_item_rows:
  assumes "book_item env svc actor m targets reason now (item, d) s = Inr (bs, s')"
  shows "booked_rows s s' bs (map (\<lambda>t. (it_ProductID item, it_Quantity item, t, bd_totalMinor d)) targets)"
proof -
  have "booked_rows s s' (concat (map (\<lambda>b. [b]) bs)) (concat (map (\<lambda>t. [(it_ProductID item, it_Quantity item, t, bd_totalMinor d)]) targets))"
    using assms unfolding book_item_def by (intro booked_rows_map [of targets]) (auto intro: booked_rows_one)
  then show ?thesis by simp
qed

lemma cart_total:
  "length details = length items \<Longrightarrow> sum_list (map (\<lambda>(_, _, _, total). total) (cart_lines items details targets))
     = sum_list (map (\<lambda>d. bd_totalMinor d * int (length targets)) details)"
proof (induction items details rule: list_induct2')
  case (4 i items d details)
  have "sum_list (map (\<lambda>t. bd_totalMinor d) targets) = bd_totalMinor d * int (length targets)"
    by (simp add: sum_list_triv)
  then show ?case using 4 by (simp add: cart_lines_def comp_def)
qed (simp_all add: cart_lines_def)

lemma keeps_ledger_guests: "keeps (\<lambda>s. (bookings s, ledger s, idempotency s)) (create_guests env actor m names now)"
  unfolding create_guests_def by (rule keepsI) (intro pres_intros; simp)

lemma map_tx_length: "map_tx f xs s = Inr (ys, s') \<Longrightarrow> length ys = length xs"
  by (induction xs arbitrary: s ys) (auto simp: bind_eq_Inr)

lemma validate_bulk_Inr:
  "validate_bulk key input = Inr i \<Longrightarrow>
     1 \<le> length (ui_TargetMembershipIDs i) + length (ui_TemporaryGuestDisplayNames i) \<and>
     length (ui_Items i) * (length (ui_TargetMembershipIDs i) + length (ui_TemporaryGuestDisplayNames i)) \<le> 500"
  by (auto simp: validate_bulk_def Let_def maxBulkBookingExpansion_def not_less Suc_le_eq split: sum.splits if_split_asm)

lemma keeps_books_each_rebuild [simp, intro]: "keeps books (each_tx (RebuildPaymentAllocations g) ts)"
  by (rule keepsI, intro pres_intros) (rule keeps_preserves [OF keeps_books_rebuild])

text \<open>C26. CreateBulk under a fresh key books the whole cart or nothing: the new bookings are, item by item
  and within an item target by target, exactly the cart's lines, they are returned in that order, there
  are at most 500 of them, their amounts sum to at most the largest int64, and every balance in the group
  grows by the amounts booked for that member.\<close>

theorem CreateBulk_books_cart:
  assumes run: "CreateBulk env svc actor m key input s = (Inr bs, s')"
    and new: "\<forall>r\<in>set (idempotency s). \<not> (ir_group r = m_GroupID m \<and> ir_user r = UserID actor \<and> ir_key r = key)"
  shows "\<exists>i guests details rows. validate_bulk key input = Inr i \<and> length guests = length (ui_TemporaryGuestDisplayNames i) \<and>
    length details = length (ui_Items i) \<and>
    bookings s' = bookings s @ rows \<and> map b_ID bs = map bk_id rows \<and> length rows \<le> 500 \<and>
    map (\<lambda>r. (bk_product r, bk_quantity r, bk_target r, bk_total r)) rows
      = cart_lines (ui_Items i) details (ui_TargetMembershipIDs i @ guests) \<and>
    sum_list (map bk_total rows) \<le> max_int64 \<and>
    (\<forall>g x. x \<noteq> [] \<longrightarrow> member_balance g x s' = member_balance g x s +
       sum_list (map bk_total (filter (\<lambda>r. bk_group r = g \<and> bk_target r = x) rows)))"
proof -
  from run obtain i where i: "validate_bulk key input = Inr i" and tx: "create_bulk_tx env svc actor m key i s = Inr (bs, s')"
    by (auto simp: CreateBulk_def WithTx_def split: sum.splits prod.splits)
  let ?n = "length (ui_TargetMembershipIDs i) + length (ui_TemporaryGuestDisplayNames i)"
  let ?h = "Hash env (ReqCreateBulk i)"
  have load: "Load (m_GroupID m) (UserID actor) key ?h s = Inr (None, s)"
    using new by (simp add: Load_None)
  from tx obtain reason s1 details s2 now s3 guests s4 bss s5 s6 where a:
    "authorize_batch m (ui_TargetMembershipIDs i) (ui_TemporaryGuestDisplayNames i) (ui_Reason i) s = Inr (reason, s1)"
    "load_items (m_GroupID m) (ui_ExpectedPeriodID i) (int ?n) 0 0 (ui_Items i) s1 = Inr (details, s2)"
    "Now env s2 = Inr (now, s3)"
    "create_guests env actor m (ui_TemporaryGuestDisplayNames i) now s3 = Inr (guests, s4)"
    "map_tx (book_item env svc actor m (ui_TargetMembershipIDs i @ guests) reason now) (zip (ui_Items i) details) s4 = Inr (bss, s5)"
    "each_tx (RebuildPaymentAllocations (m_GroupID m)) (ui_TargetMembershipIDs i @ guests) s5 = Inr ((), s6)"
    "Store env (m_GroupID m) (UserID actor) key ?h 201 (RespBookings (concat bss)) s6 = Inr ((), s')" "bs = concat bss"
    unfolding create_bulk_tx_def Let_def bind_Inr [where m = "Load (m_GroupID m) (UserID actor) key ?h", OF load]
    by (auto simp: bind_eq_Inr)
  have s1: "s1 = s"
    using a(1) by (auto simp: authorize_batch_def bind_eq_Inr requirePermission_Inr dest!: authorize_state split: if_split_asm)
  note v = validate_bulk_Inr [OF i]
  have items: "s2 = s1" "length details = length (ui_Items i)"
    "sum_list (map (\<lambda>d. bd_totalMinor d * int ?n) details) \<le> max_int64"
    using load_items_Inr [OF a(2)] v by (simp_all add: max_int64_def)
  have s4: "bookings s4 = bookings s \<and> ledger s4 = ledger s"
    using keepsD [OF keeps_ledger_guests a(4)] a(3) items(1) s1 by (auto simp: Now_def)
  have guests: "length guests = length (ui_TemporaryGuestDisplayNames i)"
    using a(4) unfolding create_guests_def by (rule map_tx_length)
  let ?targets = "ui_TargetMembershipIDs i @ guests"
  have "booked_rows s4 s5 (concat (map (\<lambda>bs. bs) bss))
      (concat (map (\<lambda>(item, d). map (\<lambda>t. (it_ProductID item, it_Quantity item, t, bd_totalMinor d)) ?targets) (zip (ui_Items i) details)))"
    by (rule booked_rows_map [OF _ a(5)]) (auto dest!: book_item_rows)
  then have rows: "booked_rows s4 s5 bs (cart_lines (ui_Items i) details ?targets)"
    using a(8) by (simp add: cart_lines_def)
  have s': "books s' = books s5"
    using keepsD [OF keeps_books(5) a(7)] keepsD [OF keeps_books_each_rebuild a(6)] by simp
  obtain rows entries where r: "bookings s' = bookings s4 @ rows" "ledger s' = ledger s4 @ entries" "map bk_id rows = map b_ID bs"
     "map (\<lambda>r. (bk_product r, bk_quantity r, bk_target r, bk_total r)) rows = cart_lines (ui_Items i) details ?targets"
     "\<forall>g x. x \<noteq> [] \<longrightarrow> rows_sum (member_row g x) entries =
        sum_list (map bk_total (filter (\<lambda>r. bk_group r = g \<and> bk_target r = x) rows))"
    using booked_rows_cong [OF rows refl s'] by blast
  have len: "length rows = length (ui_Items i) * ?n"
  proof -
    have "length (cart_lines (ui_Items i) details ?targets) = length (ui_Items i) * ?n"
      using items(2) guests by (simp add: cart_lines_def length_concat comp_def case_prod_beta sum_list_triv)
    then show ?thesis using arg_cong [OF r(4), of length] by simp
  qed
  have total: "sum_list (map bk_total rows) \<le> max_int64"
  proof -
    have "sum_list (map bk_total rows) = sum_list (map (\<lambda>(_, _, _, total). total) (cart_lines (ui_Items i) details ?targets))"
      unfolding r(4) [symmetric] by (simp add: comp_def)
    then show ?thesis using cart_total [OF items(2), of ?targets] items(3) guests by simp
  qed
  have bal: "member_balance g x s' = member_balance g x s +
       sum_list (map bk_total (filter (\<lambda>r. bk_group r = g \<and> bk_target r = x) rows))" if "x \<noteq> []" for g x
    using member_balance_append [of s' s entries g x] r(2,5) s4 that by simp
  show ?thesis
    by (intro exI [of _ i] exI [of _ guests] exI [of _ details] exI [of _ rows] conjI allI impI bal)
      (use i guests items(2) r s4 len v total in simp_all)
qed

text \<open>A cart with one product for both members of the shop.\<close>

definition cart :: bulk_create_input where
  "cart = \<lparr>ui_ExpectedPeriodID = ''p'', ui_Items = [\<lparr>it_ProductID = ''x'', it_ProductVersion = 1, it_Quantity = 2,
     it_UnitPriceMinor = None\<rparr>], ui_TargetMembershipIDs = [''n''], ui_TemporaryGuestDisplayNames = [], ui_Reason = []\<rparr>"

definition booked_cart :: "booking list result \<times> db" where
  "booked_cart = CreateBulk fixed_env mail_only \<lparr>UserID = ''u''\<rparr> uta ''key-0004'' cart shop"

theorem CreateBulk_books_cart_witness:
  "\<exists>bs rows. booked_cart = (Inr bs, snd booked_cart) \<and> bookings (snd booked_cart) = rows \<and> map b_ID bs = map bk_id rows \<and>
     length rows \<le> 500 \<and> sum_list (map bk_total rows) \<le> max_int64"
proof -
  have "\<not> isl (fst booked_cart)"
    by code_simp
  then obtain bs where ok: "booked_cart = (Inr bs, snd booked_cart)"
    using outcome_Inr by blast
  have run: "CreateBulk fixed_env mail_only \<lparr>UserID = ''u''\<rparr> uta ''key-0004'' cart shop = (Inr bs, snd booked_cart)"
    unfolding booked_cart_def [symmetric] by (rule ok)
  have "idempotency shop = []" "bookings shop = []" by (simp_all add: shop_def empty_db_def)
  then obtain rows where "bookings (snd booked_cart) = rows" "map b_ID bs = map bk_id rows" "length rows \<le> 500"
    "sum_list (map bk_total rows) \<le> max_int64"
    using CreateBulk_books_cart [OF run] by auto
  then show ?thesis using ok by blast
qed

end
