(* ===== verification/Periods.thy ===== *)
theory Periods
  imports Ledger Authorization Allocation Notifications
begin

text \<open>
  \<open>internal/periods/service.go\<close>: closing the open accounting period. \<open>Close\<close> marks it closed, rebuilds
  the allocations of every member of the group, writes one immutable statement per member with an
  account or with activity, notifies the members and opens the next period at the same instant.
\<close>

section \<open>Statements\<close>

definition requireFinanceManagement :: "membership \<Rightarrow> unit dbtx" where
  "requireFinanceManagement m = (\<lambda>s.
     case Can s (m_GroupID m) (m_ID m) ''FINANCE_MANAGEMENT''
            \<lparr>rc_GroupID = m_GroupID m, rc_CategoryID = [], rc_ProductID = []\<rparr> of
       Inl e \<Rightarrow> Inl e
     | Inr allowed \<Rightarrow> if \<not> allowed then Inl ErrForbidden else Inr ((), s))"

definition statementStatus :: "int \<Rightarrow> int \<Rightarrow> string" where
  "statementStatus charges paid =
    (let due = charges - paid in
     if due < 0 then ''CREDIT'' else if due = 0 then ''PAID'' else if paid > 0 then ''PARTIAL'' else ''OPEN'')"

text \<open>The four sums of the snapshot query for one member.\<close>

definition charges_in :: "string \<Rightarrow> string \<Rightarrow> string \<Rightarrow> db \<Rightarrow> int" where
  "charges_in groupID periodID membershipID s = sum_list (map le_amount (filter (\<lambda>le. le_group le = groupID \<and>
     le_period le = Some periodID \<and> le_membership le = Some membershipID \<and> le_account le = ''MEMBER_RECEIVABLE'' \<and>
     le_payment le = None) (ledger s)))"

definition paid_in :: "string \<Rightarrow> string \<Rightarrow> db \<Rightarrow> int" where
  "paid_in periodID membershipID s = sum_list (map al_amount (filter (\<lambda>a. al_period a = periodID \<and>
     list_ex (\<lambda>p. py_id p = al_payment a \<and> py_membership p = membershipID \<and> py_reversed_at p = None) (payments s))
     (payment_allocations s)))"

definition applied_in :: "string \<Rightarrow> string \<Rightarrow> db \<Rightarrow> int" where
  "applied_in periodID membershipID s = sum_list (map aj_amount (filter (\<lambda>a. aj_target a = periodID \<and>
     aj_membership a = membershipID) (adjustments s)))"

definition provided_in :: "string \<Rightarrow> string \<Rightarrow> db \<Rightarrow> int" where
  "provided_in periodID membershipID s = sum_list (map aj_amount (filter (\<lambda>a. aj_source a = periodID \<and>
     aj_membership a = membershipID) (adjustments s)))"

text \<open>The members that receive a statement: registered ones and those with activity in the period.\<close>

definition has_activity :: "string \<Rightarrow> membership_row \<Rightarrow> db \<Rightarrow> bool" where
  "has_activity periodID m s \<longleftrightarrow>
     list_ex (\<lambda>le. le_group le = ms_group m \<and> le_period le = Some periodID \<and> le_membership le = Some (ms_id m)) (ledger s) \<or>
     list_ex (\<lambda>a. al_period a = periodID \<and> list_ex (\<lambda>p. py_id p = al_payment a \<and> py_group p = ms_group m \<and>
       py_membership p = ms_id m) (payments s)) (payment_allocations s) \<or>
     list_ex (\<lambda>a. (aj_target a = periodID \<or> aj_source a = periodID) \<and> aj_membership a = ms_id m) (adjustments s)"

record snapshot =
  sn_membershipID :: string
  sn_displayName :: string
  sn_email :: "string option"
  sn_charges :: int
  sn_paid :: int
  sn_applied :: int
  sn_provided :: int

definition snapshot_of :: "string \<Rightarrow> string \<Rightarrow> db \<Rightarrow> membership_row \<times> user_row \<Rightarrow> snapshot" where
  "snapshot_of groupID periodID s = (\<lambda>(m, u). \<lparr>sn_membershipID = ms_id m, sn_displayName = us_display_name u,
     sn_email = us_email u, sn_charges = charges_in groupID periodID (ms_id m) s, sn_paid = paid_in periodID (ms_id m) s,
     sn_applied = applied_in periodID (ms_id m) s, sn_provided = provided_in periodID (ms_id m) s\<rparr>)"

definition statement_members :: "string \<Rightarrow> string \<Rightarrow> db \<Rightarrow> (membership_row \<times> user_row) list" where
  "statement_members groupID periodID s =
    concat (map (\<lambda>m. map (\<lambda>u. (m, u)) (filter (\<lambda>u. us_id u = ms_user m \<and> (us_email u \<noteq> None \<or> has_activity periodID m s))
      (users s))) (filter (\<lambda>m. ms_group m = groupID) (memberships s)))"

definition snapshots :: "string \<Rightarrow> string \<Rightarrow> db \<Rightarrow> snapshot list" where
  "snapshots groupID periodID s = map (snapshot_of groupID periodID s) (statement_members groupID periodID s)"

definition statement_ok :: "db \<Rightarrow> statement_row \<Rightarrow> bool" where
  "statement_ok s r \<longleftrightarrow> sm_status r \<in> set [''OPEN'', ''PARTIAL'', ''PAID'', ''CREDIT''] \<and>
     in_group pe_group pe_id (periods s) (sm_group r) (Some (sm_period r)) \<and>
     in_group ms_group ms_id (memberships s) (sm_group r) (Some (sm_membership r))"

definition insert_statement :: "statement_row \<Rightarrow> unit dbtx" where
  "insert_statement = insert_row statements statements_update ''period_statements'' statement_ok
     (\<lambda>x r. sm_id x = sm_id r \<or> sm_period x = sm_period r \<and> sm_membership x = sm_membership r)"

definition sn_due :: "snapshot \<Rightarrow> int" where
  "sn_due item = sn_charges item + sn_provided item - sn_paid item - sn_applied item"

definition statement_of :: "string \<Rightarrow> string \<Rightarrow> string \<Rightarrow> string \<Rightarrow> snapshot \<Rightarrow> statement_row" where
  "statement_of groupID periodID now statementID item = \<lparr>sm_id = statementID, sm_group = groupID, sm_period = periodID,
     sm_membership = sn_membershipID item, sm_display_name = sn_displayName item, sm_email = sn_email item,
     sm_charges = sn_charges item, sm_paid = sn_paid item, sm_applied = sn_applied item, sm_provided = sn_provided item,
     sm_due = sn_due item,
     sm_status = statementStatus (sn_charges item + sn_provided item) (sn_paid item + sn_applied item),
     sm_created_at = now\<rparr>"

definition statement_body :: "int \<Rightarrow> string" where
  "statement_body due =
    (if due > 0 then ''Deine Abrechnung ist bereit. Es ist noch eine Zahlung offen.''
     else if due < 0 then ''Deine Abrechnung ist bereit. Sie enth'' @ [CHR 0xC3, CHR 0xA4] @ ''lt ein Guthaben.''
     else ''Deine Abrechnung ist bereit. Es ist keine Zahlung offen.'')"

definition statement_notice ::
  "string \<Rightarrow> string \<Rightarrow> string \<Rightarrow> string \<Rightarrow> string \<Rightarrow> string \<Rightarrow> snapshot \<Rightarrow> notification_input" where
  "statement_notice groupID currency dueAt periodLabel now statementID item =
    \<lparr>ni_GroupID = groupID, ni_MembershipID = sn_membershipID item, ni_Type = ''SETTLEMENT_CREATED'', ni_Title = ''Neue Abrechnung'',
     ni_Body = statement_body (sn_due item), ni_ResourceType = ''statement'', ni_ResourceID = statementID,
     ni_Context = no_context\<lparr>AmountMinor := sn_due item, Currency := currency, PeriodLabel := periodLabel, DueAt := dueAt\<rparr>,
     ni_CreatedAt = now\<rparr>"

definition write_statement ::
  "env \<Rightarrow> notification_service \<Rightarrow> string \<Rightarrow> string \<Rightarrow> string \<Rightarrow> string \<Rightarrow> string \<Rightarrow> string \<Rightarrow> snapshot \<Rightarrow> unit dbtx" where
  "write_statement env svc groupID periodID currency dueAt periodLabel now item =
    tx_bind (NewID env ''stm'') (\<lambda>statementID.
    tx_bind (insert_statement (statement_of groupID periodID now statementID item)) (\<lambda>_.
    tx_bind (CreateTx env svc (statement_notice groupID currency dueAt periodLabel now statementID item)) (\<lambda>_.
    ret ())))"

lemmas write_statement_run [code] = fun_cong [OF write_statement_def]

definition snapshotStatements ::
  "env \<Rightarrow> notification_service \<Rightarrow> string \<Rightarrow> string \<Rightarrow> string \<Rightarrow> string \<Rightarrow> int dbtx" where
  "snapshotStatements env svc groupID periodID periodLabel now =
    tx_bind (gets (\<lambda>s. first_row (\<lambda>p. pe_id p = periodID \<and> pe_group p = groupID) (periods s))) (\<lambda>prow.
    tx_bind (the_row prow ErrNoRows) (\<lambda>p.
    tx_bind (gets (\<lambda>s. first_row (\<lambda>g. gr_id g = groupID) (groups s))) (\<lambda>grow.
    tx_bind (the_row grow ErrNoRows) (\<lambda>g.
    tx_bind (the_row (pe_due_at p) (ErrInternal ''converting NULL to string is unsupported'')) (\<lambda>dueAt.
    tx_bind (gets (snapshots groupID periodID)) (\<lambda>items.
    tx_bind (each_tx (write_statement env svc groupID periodID (gr_currency g) dueAt periodLabel now) items) (\<lambda>_.
    ret (int (length items)))))))))"

lemmas snapshotStatements_run [code] = fun_cong [OF snapshotStatements_def]

section \<open>Closing\<close>

text \<open>The checks before the transaction: permission, key, labels and the due date, which may lie at most
  one day in the past.\<close>

definition prepare_close :: "env \<Rightarrow> membership \<Rightarrow> string \<Rightarrow> close_input \<Rightarrow> (close_input \<times> int) dbtx" where
  "prepare_close env m key input0 =
    (let input = input0\<lparr>cl_Label := TrimSpace (cl_Label input0), cl_NextPeriodLabel :=
           (let next = TrimSpace (cl_NextPeriodLabel input0) in if next = [] then DefaultOpenPeriodLabel else next)\<rparr> in
     tx_bind (requireFinanceManagement m) (\<lambda>_.
     tx_bind (lift_result (ValidateKey key)) (\<lambda>_.
     tx_bind (reject_if (cl_Label input = [] \<or> length (cl_Label input) > 120)
       (ValidationError ''label'' ''must contain 1 to 120 characters'')) (\<lambda>_.
     tx_bind (reject_if (length (cl_NextPeriodLabel input) > 120)
       (ValidationError ''nextPeriodLabel'' ''must contain at most 120 characters'')) (\<lambda>_.
     tx_bind (the_row (parse_date (cl_DueAt input))
       (ValidationError ''dueAt'' ''must be a date in YYYY-MM-DD format'')) (\<lambda>due.
     tx_bind (Now env) (\<lambda>now.
     tx_bind (reject_if (due * day_ns < now - day_ns) (ValidationError ''dueAt'' ''must not be in the past'')) (\<lambda>_.
     ret (input, due)))))))))"

lemmas prepare_close_run [code] = fun_cong [OF prepare_close_def]

definition period_to_close :: "string \<Rightarrow> string \<Rightarrow> period_row dbtx" where
  "period_to_close groupID periodID = (\<lambda>s.
     case first_row (\<lambda>p. pe_id p = periodID \<and> pe_group p = groupID \<and> pe_status p = ''OPEN'') (periods s) of
       Some p \<Rightarrow> Inr (p, s)
     | None \<Rightarrow>
       if filter (\<lambda>p. pe_id p = periodID \<and> pe_group p = groupID) (periods s) = [] then Inl ErrNotFound else Inl ErrConflict)"

lemmas period_to_close_run [code] = fun_cong [OF period_to_close_def]

definition close_row :: "string \<Rightarrow> string \<Rightarrow> string \<Rightarrow> string \<Rightarrow> period_row \<Rightarrow> period_row" where
  "close_row label now dueAt closedBy p = p\<lparr>pe_label := label, pe_status := ''CLOSED'', pe_closed_at := Some now,
     pe_due_at := Some dueAt, pe_closed_by := Some closedBy\<rparr>"

definition mark_closed :: "string \<Rightarrow> string \<Rightarrow> string \<Rightarrow> string \<Rightarrow> string \<Rightarrow> unit dbtx" where
  "mark_closed periodID label now dueAt closedBy = modify (periods_update
     (update_rows (\<lambda>p. pe_id p = periodID \<and> pe_status p = ''OPEN'') (close_row label now dueAt closedBy)))"

lemmas mark_closed_run [code] = fun_cong [OF mark_closed_def]

definition insert_period :: "period_row \<Rightarrow> unit dbtx" where
  "insert_period = insert_row periods periods_update ''periods''
     (\<lambda>s r. list_ex (\<lambda>g. gr_id g = pe_group r) (groups s) \<and> pe_status r \<in> set [''OPEN'', ''CLOSED''])
     (\<lambda>x r. pe_id x = pe_id r \<or> pe_group x = pe_group r \<and> pe_status x = ''OPEN'' \<and> pe_status r = ''OPEN'')"

lemmas insert_period_run [code] = fun_cong [OF insert_period_def]

definition open_row :: "string \<Rightarrow> string \<Rightarrow> string \<Rightarrow> string \<Rightarrow> period_row" where
  "open_row nextID groupID label now = \<lparr>pe_id = nextID, pe_group = groupID, pe_label = label, pe_status = ''OPEN'',
     pe_starts_at = now, pe_closed_at = None, pe_due_at = None, pe_closed_by = None\<rparr>"

definition settlements_enabled :: "string \<Rightarrow> bool dbtx" where
  "settlements_enabled groupID =
    tx_bind (gets (\<lambda>s. first_row (\<lambda>r. st_group r = groupID) (settings s))) (\<lambda>row.
    tx_bind (the_row row ErrNotFound) (\<lambda>r. ret (st_settlements r)))"

lemmas settlements_enabled_run [code] = fun_cong [OF settlements_enabled_def]

definition close_period ::
  "env \<Rightarrow> notification_service \<Rightarrow> principal \<Rightarrow> membership \<Rightarrow> string \<Rightarrow> close_input \<Rightarrow> int \<Rightarrow> close_result dbtx" where
  "close_period env svc actor m periodID input due =
    tx_bind (settlements_enabled (m_GroupID m)) (\<lambda>settlementsEnabled.
    tx_bind (reject_if (\<not> settlementsEnabled) ErrConflict) (\<lambda>_.
    tx_bind (period_to_close (m_GroupID m) periodID) (\<lambda>p.
    tx_bind (Now env) (\<lambda>nowTime.
    let now = Timestamp nowTime; dueAt = format_date due in
    tx_bind (mark_closed periodID (cl_Label input) now dueAt (m_ID m)) (\<lambda>_.
    tx_bind (gets (\<lambda>s. map ms_id (filter (\<lambda>x. ms_group x = m_GroupID m) (memberships s)))) (\<lambda>memberIDs.
    tx_bind (each_tx (RebuildPaymentAllocations (m_GroupID m)) memberIDs) (\<lambda>_.
    tx_bind (snapshotStatements env svc (m_GroupID m) periodID (cl_Label input) now) (\<lambda>statementCount.
    tx_bind (NewID env ''per'') (\<lambda>nextID.
    tx_bind (insert_period (open_row nextID (m_GroupID m) (cl_NextPeriodLabel input) now)) (\<lambda>_.
    tx_bind (Record env (m_GroupID m) (UserID actor) (m_ID m) ''period.closed'' ''period'' periodID
      [(''dueAt'', AText dueAt), (''nextPeriodId'', AText nextID), (''statementCount'', ANumber statementCount)]) (\<lambda>_.
    ret \<lparr>ClosedPeriod = \<lparr>per_ID = periodID, per_GroupID = m_GroupID m, per_Label = cl_Label input, per_Status = ''CLOSED'',
        per_StartsAt = pe_starts_at p, per_ClosedAt = Some now, per_DueAt = Some dueAt\<rparr>,
      OpenPeriod = \<lparr>per_ID = nextID, per_GroupID = m_GroupID m, per_Label = cl_NextPeriodLabel input, per_Status = ''OPEN'',
        per_StartsAt = now, per_ClosedAt = None, per_DueAt = None\<rparr>,
      StatementCount = statementCount\<rparr>)))))))))))"

lemmas close_period_run [code] = fun_cong [OF close_period_def]

definition close_tx ::
  "env \<Rightarrow> notification_service \<Rightarrow> principal \<Rightarrow> membership \<Rightarrow> string \<Rightarrow> string \<Rightarrow> close_input \<Rightarrow> int \<Rightarrow> close_result dbtx" where
  "close_tx env svc actor m key periodID input due =
    (let requestHash = Hash env (ReqClosePeriod periodID input) in
     tx_bind (requireFinanceManagement m) (\<lambda>_.
     tx_bind (Load (m_GroupID m) (UserID actor) key requestHash) (\<lambda>found.
     case found of
       Some (RespClose result) \<Rightarrow> ret result
     | Some _ \<Rightarrow> fail decode_error
     | None \<Rightarrow>
       tx_bind (close_period env svc actor m periodID input due) (\<lambda>result.
       tx_bind (Store env (m_GroupID m) (UserID actor) key requestHash 200 (RespClose result)) (\<lambda>_.
       ret result)))))"

lemmas close_tx_run [code] = fun_cong [OF close_tx_def]

definition Close ::
  "env \<Rightarrow> notification_service \<Rightarrow> principal \<Rightarrow> membership \<Rightarrow> string \<Rightarrow> string \<Rightarrow> close_input \<Rightarrow> db \<Rightarrow> close_result result \<times> db" where
  "Close env svc actor m key periodID input0 s =
    (case prepare_close env m key input0 s of
       Inl e \<Rightarrow> (Inl e, s)
     | Inr ((input, due), s1) \<Rightarrow> WithTx (close_tx env svc actor m key periodID input due) s1)"

section \<open>Queries\<close>

definition period_of :: "period_row \<Rightarrow> period" where
  "period_of p = \<lparr>per_ID = pe_id p, per_GroupID = pe_group p, per_Label = pe_label p, per_Status = pe_status p,
     per_StartsAt = pe_starts_at p, per_ClosedAt = pe_closed_at p, per_DueAt = pe_due_at p\<rparr>"

definition List :: "string \<Rightarrow> period list dbtx" where
  "List groupID = gets (\<lambda>s. map period_of (rev (sort_key pe_starts_at (filter (\<lambda>p. pe_group p = groupID) (periods s)))))"

definition EnsurePeriodInGroup :: "string \<Rightarrow> string \<Rightarrow> unit dbtx" where
  "EnsurePeriodInGroup groupID periodID =
    tx_bind (gets (\<lambda>s. length (filter (\<lambda>p. pe_id p = periodID \<and> pe_group p = groupID) (periods s)))) (\<lambda>count.
    reject_if (count = 0) ErrNotFound)"

record statement =
  s_ID :: string
  s_PeriodID :: string
  s_MembershipID :: string
  s_MembershipStatus :: string
  s_DisplayName :: string
  s_Email :: "string option"
  s_ChargesMinor :: int
  s_PaymentsAllocatedMinor :: int
  s_AdjustmentsAppliedMinor :: int
  s_AdjustmentsProvidedMinor :: int
  s_AmountDueMinor :: int
  s_Currency :: string
  s_Status :: string

definition current_statement :: "db \<Rightarrow> statement_row \<Rightarrow> membership_row \<Rightarrow> group_row \<Rightarrow> statement" where
  "current_statement s r m g =
    (let paid = paid_in (sm_period r) (sm_membership r) s; applied = applied_in (sm_period r) (sm_membership r) s;
         provided = provided_in (sm_period r) (sm_membership r) s in
     \<lparr>s_ID = sm_id r, s_PeriodID = sm_period r, s_MembershipID = sm_membership r, s_MembershipStatus = ms_status m,
      s_DisplayName = sm_display_name r, s_Email = sm_email r, s_ChargesMinor = sm_charges r,
      s_PaymentsAllocatedMinor = paid, s_AdjustmentsAppliedMinor = applied, s_AdjustmentsProvidedMinor = provided,
      s_AmountDueMinor = sm_charges r + provided - paid - applied, s_Currency = gr_currency g,
      s_Status = statementStatus (sm_charges r + provided) (paid + applied)\<rparr>)"

definition Statements :: "membership \<Rightarrow> string \<Rightarrow> statement list dbtx" where
  "Statements m periodID =
    tx_bind (canPermission m ''FINANCE_MANAGEMENT'') (\<lambda>viewAll.
    gets (\<lambda>s. concat (map (\<lambda>r.
        (case (first_row (\<lambda>g. gr_id g = sm_group r) (groups s),
               first_row (\<lambda>x. ms_id x = sm_membership r \<and> ms_group x = sm_group r) (memberships s)) of
           (Some g, Some x) \<Rightarrow> [current_statement s r x g]
         | _ \<Rightarrow> []))
      (rev (sort_key sm_created_at (rev (sort_key (\<lambda>r. map lower_char (sm_display_name r))
        (filter (\<lambda>r. sm_group r = m_GroupID m \<and> (periodID = [] \<or> sm_period r = periodID) \<and>
           (viewAll \<or> sm_membership r = m_ID m)) (statements s)))))))))"

end
