(* ===== verification/PeriodLaws.thy ===== *)
theory PeriodLaws
  imports Periods
begin

text \<open>
  What closing a period guarantees: the group again has exactly one open period that starts where the
  closed one ends, closed periods and earlier statements are never touched, and the new statements
  account for every charge posted to the period.
\<close>

section \<open>Effect of closing\<close>

text \<open>Everything closing a period leaves alone, apart from the period rows and the statements.\<close>

definition unclosed :: "db \<Rightarrow> _" where
  "unclosed s = (groups s, users s, memberships s, settings s, bookings s, ledger s, payments s)"

definition allocated :: "db \<Rightarrow> _" where
  "allocated s = (payment_allocations s, adjustments s)"

lemma notice_frame [simp]:
  "unclosed (s\<lparr>random_reads := n, notifications := ns, jobs := js\<rparr>) = unclosed s" "unclosed (s\<lparr>random_reads := n\<rparr>) = unclosed s"
  "unclosed (s\<lparr>clock_reads := n\<rparr>) = unclosed s" "unclosed (s\<lparr>audit := as\<rparr>) = unclosed s"
  "unclosed (s\<lparr>idempotency := is\<rparr>) = unclosed s" "unclosed (s\<lparr>periods := ps\<rparr>) = unclosed s"
  "unclosed (s\<lparr>statements := ss\<rparr>) = unclosed s"
  by (simp_all add: unclosed_def)

lemma keeps_notice [simp, intro]:
  "keeps unclosed (CreateTx env svc input)" "keeps periods (CreateTx env svc input)" "keeps statements (CreateTx env svc input)"
  "keeps allocated (CreateTx env svc input)" "keeps idempotency (CreateTx env svc input)"
  by (rule keepsI; intro pres_intros; simp add: allocated_def)+

lemma keeps_record [simp, intro]:
  "keeps unclosed (Record env g u m a t i md)" "keeps periods (Record env g u m a t i md)"
  "keeps statements (Record env g u m a t i md)" "keeps idempotency (Record env g u m a t i md)"
  "keeps unclosed (Store env g u k h c v)" "keeps periods (Store env g u k h c v)" "keeps statements (Store env g u k h c v)"
  "keeps allocated (Store env g u k h c v)"
  by (rule keepsI; intro pres_intros; simp add: allocated_def)+

lemma keeps_rebuild [simp, intro]:
  "keeps unclosed (RebuildPaymentAllocations g m)" "keeps periods (RebuildPaymentAllocations g m)"
  "keeps statements (RebuildPaymentAllocations g m)" "keeps idempotency (RebuildPaymentAllocations g m)"
  by (rule keepsI, rule validI, auto dest!: rebuild_result simp: rebuilt_def unclosed_def)+

lemma keeps_each: "(\<And>x. keeps f (m x)) \<Longrightarrow> keeps f (each_tx m xs)"
proof -
  assume k: "\<And>x. keeps f (m x)"
  show ?thesis by (rule keepsI, intro pres_intros) (rule keeps_preserves [OF k])
qed

lemma write_statement_effect:
  assumes "write_statement env svc g p currency dueAt label now item s = Inr (u, s')"
  obtains i where "statements s' = statements s @ [statement_of g p now i item]" "i \<noteq> []"
    "\<forall>x\<in>set (statements s). sm_id x \<noteq> i \<and> \<not> (sm_period x = p \<and> sm_membership x = sn_membershipID item)"
    "unclosed s' = unclosed s" "periods s' = periods s" "allocated s' = allocated s" "idempotency s' = idempotency s"
proof -
  from assms obtain i r s1 s2 where a: "NewID env ''stm'' s = Inr (i, s1)"
    "insert_statement (statement_of g p now i item) s1 = Inr ((), s2)"
    "CreateTx env svc (statement_notice g currency dueAt label now i item) s2 = Inr (r, s')"
    by (auto simp: write_statement_def bind_eq_Inr)
  have s1: "s1 = s\<lparr>random_reads := Suc (random_reads s)\<rparr>" "i \<noteq> []" using a(1) by (auto simp: NewID_def)
  have s2: "s2 = s1\<lparr>statements := statements s1 @ [statement_of g p now i item]\<rparr>"
    "\<forall>x\<in>set (statements s1). sm_id x \<noteq> i \<and> \<not> (sm_period x = p \<and> sm_membership x = sn_membershipID item)"
    using a(2) by (auto simp: insert_statement_def insert_row_Inr statement_of_def)
  note k = keepsD [OF keeps_notice(1) a(3)] keepsD [OF keeps_notice(2) a(3)] keepsD [OF keeps_notice(3) a(3)]
    keepsD [OF keeps_notice(4) a(3)] keepsD [OF keeps_notice(5) a(3)]
  show thesis by (rule that [of i]) (use k s1 s2 in \<open>simp_all add: allocated_def\<close>)
qed

lemma statement_of_sel [simp]:
  "sm_id (statement_of g p now i item) = i" "sm_group (statement_of g p now i item) = g" "sm_period (statement_of g p now i item) = p"
  "sm_membership (statement_of g p now i item) = sn_membershipID item" "sm_charges (statement_of g p now i item) = sn_charges item"
  "sm_paid (statement_of g p now i item) = sn_paid item" "sm_applied (statement_of g p now i item) = sn_applied item"
  "sm_provided (statement_of g p now i item) = sn_provided item" "sm_due (statement_of g p now i item) = sn_due item"
  "sm_status (statement_of g p now i item) = statementStatus (sn_charges item + sn_provided item) (sn_paid item + sn_applied item)"
  by (simp_all add: statement_of_def)

lemma write_statements_effect:
  "each_tx (write_statement env svc g p currency dueAt label now) items s = Inr (u, s') \<Longrightarrow>
     \<exists>ids. length ids = length items \<and> statements s' = statements s @ map2 (statement_of g p now) ids items \<and>
       distinct (map sn_membershipID items) \<and>
       (\<forall>x\<in>set (statements s). \<forall>item\<in>set items. \<not> (sm_period x = p \<and> sm_membership x = sn_membershipID item)) \<and>
       unclosed s' = unclosed s \<and> periods s' = periods s \<and> allocated s' = allocated s \<and> idempotency s' = idempotency s"
proof (induction items arbitrary: s)
  case (Cons item items)
  then obtain s1 where one: "write_statement env svc g p currency dueAt label now item s = Inr ((), s1)"
    and rest: "each_tx (write_statement env svc g p currency dueAt label now) items s1 = Inr (u, s')" by (auto simp: bind_eq_Inr)
  obtain i where i: "statements s1 = statements s @ [statement_of g p now i item]"
    "\<forall>x\<in>set (statements s). sm_id x \<noteq> i \<and> \<not> (sm_period x = p \<and> sm_membership x = sn_membershipID item)"
    "unclosed s1 = unclosed s" "periods s1 = periods s" "allocated s1 = allocated s" "idempotency s1 = idempotency s"
    using write_statement_effect [OF one] by metis
  obtain ids where ids: "length ids = length items" "statements s' = statements s1 @ map2 (statement_of g p now) ids items"
    "distinct (map sn_membershipID items)"
    "\<forall>x\<in>set (statements s1). \<forall>item\<in>set items. \<not> (sm_period x = p \<and> sm_membership x = sn_membershipID item)"
    "unclosed s' = unclosed s1" "periods s' = periods s1" "allocated s' = allocated s1" "idempotency s' = idempotency s1"
    using Cons.IH [OF rest] by blast
  have "sn_membershipID item \<notin> set (map sn_membershipID items)" using ids(4) i(1) by auto
  then show ?case
    using ids i by (intro exI [of _ "i # ids"]) auto
qed simp

lemma requireFinance_Inr:
  "requireFinanceManagement m s = Inr r \<longleftrightarrow> r = ((), s) \<and>
     Can s (m_GroupID m) (m_ID m) ''FINANCE_MANAGEMENT'' \<lparr>rc_GroupID = m_GroupID m, rc_CategoryID = [], rc_ProductID = []\<rparr> = Inr True"
  by (auto simp: requireFinanceManagement_def split: sum.splits if_splits)

lemma periods_field: "periods_update f s = s\<lparr>periods := f (periods s)\<rparr>"
  by (cases s) simp

lemma period_to_close_Inr:
  "period_to_close g pid s = Inr (p, s') \<Longrightarrow> s' = s \<and> p \<in> set (periods s) \<and> pe_id p = pid \<and> pe_group p = g \<and> pe_status p = ''OPEN''"
  by (auto simp: period_to_close_def dest!: first_row_Some split: option.splits if_splits)

lemma close_period_effect:
  assumes "close_period env svc actor m pid input due s = Inr (r, s')"
  obtains p now nid ids s1 where
    "p \<in> set (periods s)" "pe_id p = pid" "pe_group p = m_GroupID m" "pe_status p = ''OPEN''"
    "periods s' = update_rows (\<lambda>p. pe_id p = pid \<and> pe_status p = ''OPEN'') (close_row (cl_Label input) now (format_date due) (m_ID m))
       (periods s) @ [open_row nid (m_GroupID m) (cl_NextPeriodLabel input) now]"
    "\<forall>x\<in>set (periods s). pe_id x \<noteq> nid"
    "\<forall>x\<in>set (update_rows (\<lambda>p. pe_id p = pid \<and> pe_status p = ''OPEN'') (close_row (cl_Label input) now (format_date due) (m_ID m)) (periods s)).
       \<not> (pe_group x = m_GroupID m \<and> pe_status x = ''OPEN'')"
    "per_ID (ClosedPeriod r) = pid" "per_ID (OpenPeriod r) = nid" "per_StartsAt (OpenPeriod r) = now"
    "per_ClosedAt (ClosedPeriod r) = Some now" "StatementCount r = int (length (snapshots (m_GroupID m) pid s1))"
    "length ids = length (snapshots (m_GroupID m) pid s1)"
    "statements s' = statements s @ map2 (statement_of (m_GroupID m) pid now) ids (snapshots (m_GroupID m) pid s1)"
    "distinct (map sn_membershipID (snapshots (m_GroupID m) pid s1))"
    "unclosed s1 = unclosed s" "unclosed s' = unclosed s" "idempotency s' = idempotency s" "allocated s' = allocated s1"
    "\<exists>s0. each_tx (RebuildPaymentAllocations (m_GroupID m)) (map ms_id (filter (\<lambda>x. ms_group x = m_GroupID m) (memberships s))) s0 = Inr ((), s1)
      \<and> unclosed s0 = unclosed s \<and> allocated s0 = allocated s"
proof -
  let ?g = "m_GroupID m"
  from assms obtain e s0 p s2 t s3 s4 s5 n s6 nid s7 s8 where a:
    "settlements_enabled ?g s = Inr (e, s0)" "period_to_close ?g pid s0 = Inr (p, s2)" "Now env s2 = Inr (t, s3)"
    "mark_closed pid (cl_Label input) (Timestamp t) (format_date due) (m_ID m) s3 = Inr ((), s4)"
    "each_tx (RebuildPaymentAllocations ?g) (map ms_id (filter (\<lambda>x. ms_group x = ?g) (memberships s4))) s4 = Inr ((), s5)"
    "snapshotStatements env svc ?g pid (cl_Label input) (Timestamp t) s5 = Inr (n, s6)"
    "NewID env ''per'' s6 = Inr (nid, s7)"
    "insert_period (open_row nid ?g (cl_NextPeriodLabel input) (Timestamp t)) s7 = Inr ((), s8)"
    "Record env ?g (UserID actor) (m_ID m) ''period.closed'' ''period'' pid
      [(''dueAt'', AText (format_date due)), (''nextPeriodId'', AText nid), (''statementCount'', ANumber n)] s8 = Inr ((), s')"
    "per_ID (ClosedPeriod r) = pid" "per_ID (OpenPeriod r) = nid" "per_StartsAt (OpenPeriod r) = Timestamp t"
    "per_ClosedAt (ClosedPeriod r) = Some (Timestamp t)" "StatementCount r = n"
    unfolding close_period_def Let_def by (auto simp: bind_eq_Inr)
  have s0: "s0 = s" using a(1) by (auto simp: settlements_enabled_def bind_eq_Inr)
  note p = period_to_close_Inr [OF a(2)]
  have s4: "s4 = s3\<lparr>periods := update_rows (\<lambda>p. pe_id p = pid \<and> pe_status p = ''OPEN'')
      (close_row (cl_Label input) (Timestamp t) (format_date due) (m_ID m)) (periods s3)\<rparr>"
    using a(4) unfolding mark_closed_def modify_apply by (subst periods_field [symmetric]) blast
  have s3: "s3 = s2\<lparr>clock_reads := Suc (clock_reads s2)\<rparr>" using a(3) by (simp add: Now_def)
  have k5: "unclosed s5 = unclosed s4" "periods s5 = periods s4" "statements s5 = statements s4" "idempotency s5 = idempotency s4"
    by (rule keepsD [OF keeps_each a(5)], rule keeps_rebuild)+
  obtain currency dueAt where w: "each_tx (write_statement env svc ?g pid currency dueAt (cl_Label input) (Timestamp t)) (snapshots ?g pid s5) s5
      = Inr ((), s6)" "n = int (length (snapshots ?g pid s5))"
    using a(6) unfolding snapshotStatements_def by (auto simp: bind_eq_Inr)
  obtain ids where ids: "length ids = length (snapshots ?g pid s5)"
    "statements s6 = statements s5 @ map2 (statement_of ?g pid (Timestamp t)) ids (snapshots ?g pid s5)"
    "distinct (map sn_membershipID (snapshots ?g pid s5))"
    "unclosed s6 = unclosed s5" "periods s6 = periods s5" "allocated s6 = allocated s5" "idempotency s6 = idempotency s5"
    using write_statements_effect [OF w(1)] by blast
  have s7: "s7 = s6\<lparr>random_reads := Suc (random_reads s6)\<rparr>" using a(7) by (simp add: NewID_def)
  have s8: "s8 = s7\<lparr>periods := periods s7 @ [open_row nid ?g (cl_NextPeriodLabel input) (Timestamp t)]\<rparr>"
    "\<forall>x\<in>set (periods s7). pe_id x \<noteq> nid" "\<forall>x\<in>set (periods s7). \<not> (pe_group x = ?g \<and> pe_status x = ''OPEN'')"
    using a(8) by (auto simp: insert_period_def insert_row_Inr open_row_def)
  have k: "unclosed s' = unclosed s8" "periods s' = periods s8" "statements s' = statements s8" "idempotency s' = idempotency s8"
    "allocated s' = allocated s8"
    using keepsD [OF keeps_record(1) a(9)] keepsD [OF keeps_record(2) a(9)] keepsD [OF keeps_record(3) a(9)]
      keepsD [OF keeps_record(4) a(9)] a(9)
    by (auto simp: Record_def NewID_def Now_def bind_eq_Inr insert_audit_def insert_row_Inr allocated_def)
  have mem: "memberships s4 = memberships s" and un: "unclosed s4 = unclosed s" "allocated s4 = allocated s"
    using s4 s3 p s0 by (simp_all add: allocated_def)
  have per: "periods s7 = update_rows (\<lambda>p. pe_id p = pid \<and> pe_status p = ''OPEN'')
      (close_row (cl_Label input) (Timestamp t) (format_date due) (m_ID m)) (periods s)"
    using s7 ids(5) k5(2) s4 s3 p s0 by simp
  then have "map pe_id (periods s7) = map pe_id (periods s)" by (simp add: close_row_def)
  then have "pe_id ` set (periods s7) = pe_id ` set (periods s)" by (metis list.set_map)
  moreover have "nid \<notin> pe_id ` set (periods s7)" using s8(2) by blast
  ultimately have ids_old: "\<forall>x\<in>set (periods s). pe_id x \<noteq> nid" by blast
  have un5: "unclosed s5 = unclosed s" using k5(1) un(1) by simp
  have fin: "unclosed s' = unclosed s" "allocated s' = allocated s5" "idempotency s' = idempotency s"
    using k ids(4,6,7) k5 un s8(1) s7 s4 s3 p s0 by (simp_all add: allocated_def)
  have st: "statements s' = statements s @ map2 (statement_of ?g pid (Timestamp t)) ids (snapshots ?g pid s5)"
    using k(3) s8(1) s7 ids(2) k5(3) s4 s3 p s0 by simp
  show thesis
  proof (rule that [of p "Timestamp t" nid s5 ids])
    show "p \<in> set (periods s)" "pe_id p = pid" "pe_group p = ?g" "pe_status p = ''OPEN''" using p s0 by blast+
    show "periods s' = update_rows (\<lambda>p. pe_id p = pid \<and> pe_status p = ''OPEN'')
       (close_row (cl_Label input) (Timestamp t) (format_date due) (m_ID m)) (periods s) @
       [open_row nid ?g (cl_NextPeriodLabel input) (Timestamp t)]"
      using k(2) s8(1) per by simp
    show "\<forall>x\<in>set (update_rows (\<lambda>p. pe_id p = pid \<and> pe_status p = ''OPEN'')
       (close_row (cl_Label input) (Timestamp t) (format_date due) (m_ID m)) (periods s)). \<not> (pe_group x = ?g \<and> pe_status x = ''OPEN'')"
      using s8(3) per by simp
    show "\<exists>s0. each_tx (RebuildPaymentAllocations ?g) (map ms_id (filter (\<lambda>x. ms_group x = ?g) (memberships s))) s0 = Inr ((), s5)
      \<and> unclosed s0 = unclosed s \<and> allocated s0 = allocated s"
      using a(5) mem un by (intro exI [of _ s4]) simp
  qed (use a(10-14) w(2) ids(1,3) un5 fin st ids_old in \<open>simp_all\<close>)
qed

lemma Close_new:
  assumes run: "Close env svc actor m key pid input s = (Inr r, s')"
    and new: "\<forall>x\<in>set (idempotency s). \<not> (ir_group x = m_GroupID m \<and> ir_user x = UserID actor \<and> ir_key x = key)"
  obtains i due s1 s2 where
    "close_period env svc actor m pid i due s1 = Inr (r, s2)" "unclosed s1 = unclosed s" "periods s1 = periods s"
    "statements s1 = statements s" "allocated s1 = allocated s" "unclosed s' = unclosed s2" "periods s' = periods s2" "statements s' = statements s2"
    "allocated s' = allocated s2"
    "Can s (m_GroupID m) (m_ID m) ''FINANCE_MANAGEMENT'' \<lparr>rc_GroupID = m_GroupID m, rc_CategoryID = [], rc_ProductID = []\<rparr> = Inr True"
proof -
  from run obtain i due s1 where prep: "prepare_close env m key input s = Inr ((i, due), s1)"
    and tx: "close_tx env svc actor m key pid i due s1 = Inr (r, s')"
    by (auto simp: Close_def WithTx_def split: sum.splits prod.splits)
  have s1: "s1 = s\<lparr>clock_reads := Suc (clock_reads s)\<rparr>"
    and can: "Can s (m_GroupID m) (m_ID m) ''FINANCE_MANAGEMENT'' \<lparr>rc_GroupID = m_GroupID m, rc_CategoryID = [], rc_ProductID = []\<rparr> = Inr True"
    using prep by (auto simp: prepare_close_def Let_def bind_eq_Inr requireFinance_Inr Now_def)
  let ?h = "Hash env (ReqClosePeriod pid i)"
  have load: "Load (m_GroupID m) (UserID actor) key ?h s1 = Inr (None, s1)"
    using new s1 by (simp add: Load_None)
  from tx obtain s2 where "close_period env svc actor m pid i due s1 = Inr (r, s2)"
    and store: "Store env (m_GroupID m) (UserID actor) key ?h 200 (RespClose r) s2 = Inr ((), s')"
    unfolding close_tx_def Let_def
    by (auto simp: bind_eq_Inr requireFinance_Inr load)
  moreover have "unclosed s' = unclosed s2" "periods s' = periods s2" "statements s' = statements s2" "allocated s' = allocated s2"
    using keepsD [OF keeps_record(5) store] keepsD [OF keeps_record(6) store] keepsD [OF keeps_record(7) store]
      keepsD [OF keeps_record(8) store] by simp_all
  ultimately show thesis using that s1 can by (simp add: allocated_def)
qed

section \<open>One open period\<close>

definition one_open :: "db \<Rightarrow> bool" where
  "one_open s \<longleftrightarrow> distinct (map pe_id (periods s)) \<and>
     (\<forall>g. length (filter (\<lambda>p. pe_group p = g \<and> pe_status p = ''OPEN'') (periods s)) \<le> 1)"

lemma close_row_sel [simp]:
  "pe_id (close_row l now due by p) = pe_id p" "pe_group (close_row l now due by p) = pe_group p"
  "pe_status (close_row l now due by p) = ''CLOSED''" "pe_label (close_row l now due by p) = l"
  "pe_closed_at (close_row l now due by p) = Some now" "pe_starts_at (close_row l now due by p) = pe_starts_at p"
  by (simp_all add: close_row_def)

lemma update_rows_open:
  "length (filter (\<lambda>p. pe_group p = g \<and> pe_status p = ''OPEN'')
      (update_rows (\<lambda>p. pe_id p = pid \<and> pe_status p = ''OPEN'') (close_row l now due by) ps))
   \<le> length (filter (\<lambda>p. pe_group p = g \<and> pe_status p = ''OPEN'') ps)"
  by (induction ps) auto

lemma one_open_close:
  assumes inv: "one_open s" and cp: "close_period env svc actor m pid i due s = Inr (r, s')"
  shows "one_open s'"
  using cp
proof (rule close_period_effect)
  fix p now nid
  let ?g = "m_GroupID m" and ?f = "close_row (cl_Label i) now (format_date due) (m_ID m)"
  let ?U = "update_rows (\<lambda>p. pe_id p = pid \<and> pe_status p = ''OPEN'') ?f (periods s)"
  let ?new = "open_row nid ?g (cl_NextPeriodLabel i) now"
  assume per: "periods s' = ?U @ [?new]" and fresh: "\<forall>x\<in>set (periods s). pe_id x \<noteq> nid"
    and none: "\<forall>x\<in>set ?U. \<not> (pe_group x = ?g \<and> pe_status x = ''OPEN'')"
  have ids: "map pe_id ?U = map pe_id (periods s)" by simp
  show "one_open s'"
    unfolding one_open_def
  proof (intro conjI allI)
    show "distinct (map pe_id (periods s'))"
      unfolding per map_append ids using inv fresh by (auto simp: one_open_def open_row_def)
    fix h
    show "length (filter (\<lambda>p. pe_group p = h \<and> pe_status p = ''OPEN'') (periods s')) \<le> 1"
    proof (cases "h = ?g")
      case True
      then show ?thesis using per none by (simp add: open_row_def filter_empty_conv)
    next
      case False
      have "length (filter (\<lambda>p. pe_group p = h \<and> pe_status p = ''OPEN'') ?U) \<le> 1"
        using inv update_rows_open [of h pid _ _ _ _ "periods s"] unfolding one_open_def by (meson order_trans)
      then show ?thesis using per False by (simp add: open_row_def)
    qed
  qed
qed

text \<open>C27. Closing rolls the period over: afterwards the group has exactly one open period, the new one,
  which starts at the instant the old one was closed; the old period is closed, every period that was
  closed before is still there unchanged, and no group ever has two open periods.\<close>

theorem Close_rolls_period:
  assumes inv: "one_open s" and run: "Close env svc actor m key pid input s = (Inr r, s')"
    and new: "\<forall>x\<in>set (idempotency s). \<not> (ir_group x = m_GroupID m \<and> ir_user x = UserID actor \<and> ir_key x = key)"
  shows "one_open s' \<and>
    (\<exists>p old. filter (\<lambda>p. pe_group p = m_GroupID m \<and> pe_status p = ''OPEN'') (periods s') = [p] \<and>
      pe_id p = per_ID (OpenPeriod r) \<and> old \<in> set (periods s') \<and> pe_id old = pid \<and> pe_status old = ''CLOSED'' \<and>
      pe_closed_at old = Some (pe_starts_at p) \<and>
      (\<exists>before\<in>set (periods s). pe_id before = pid \<and> pe_status before = ''OPEN'' \<and> pe_starts_at before = pe_starts_at old)) \<and>
    (\<forall>p\<in>set (periods s). pe_status p \<noteq> ''OPEN'' \<longrightarrow> p \<in> set (periods s')) \<and>
    (\<forall>p\<in>set (periods s'). pe_group p \<noteq> m_GroupID m \<longrightarrow> p \<in> set (periods s))"
  using run new
proof (rule Close_new)
  fix i :: close_input and due s1 s2
  assume cp: "close_period env svc actor m pid i due s1 = Inr (r, s2)" and eq: "periods s1 = periods s" "periods s' = periods s2"
  let ?g = "m_GroupID m"
  from cp show ?thesis
  proof (rule close_period_effect)
    fix p now nid
    let ?f = "close_row (cl_Label i) now (format_date due) (m_ID m)"
    let ?U = "update_rows (\<lambda>p. pe_id p = pid \<and> pe_status p = ''OPEN'') ?f (periods s)"
    let ?new = "open_row nid ?g (cl_NextPeriodLabel i) now"
    assume p1: "p \<in> set (periods s1)" "pe_id p = pid" "pe_group p = ?g" "pe_status p = ''OPEN''"
      and u1: "periods s2 = update_rows (\<lambda>p. pe_id p = pid \<and> pe_status p = ''OPEN'') ?f (periods s1) @ [?new]"
        "\<forall>x\<in>set (periods s1). pe_id x \<noteq> nid"
        "\<forall>x\<in>set (update_rows (\<lambda>p. pe_id p = pid \<and> pe_status p = ''OPEN'') ?f (periods s1)). \<not> (pe_group x = ?g \<and> pe_status x = ''OPEN'')"
      and o: "per_ID (OpenPeriod r) = nid"
    have p: "p \<in> set (periods s)" using p1(1) eq(1) by simp
    have per: "periods s' = ?U @ [?new]" and fresh: "\<forall>x\<in>set (periods s). pe_id x \<noteq> nid"
      and none: "filter (\<lambda>p. pe_group p = ?g \<and> pe_status p = ''OPEN'') ?U = []"
      using u1 eq by (simp_all add: filter_empty_conv)
    have open_one: "filter (\<lambda>p. pe_group p = ?g \<and> pe_status p = ''OPEN'') (periods s') = [?new]"
      using per none by (simp add: open_row_def)
    have unique: "x = p" if "x \<in> set (periods s)" "pe_id x = pid" for x
      using inv that p p1(2) by (auto simp: one_open_def distinct_map inj_on_def)
    have "one_open s1" using inv eq(1) by (simp add: one_open_def)
    then have "one_open s2" by (rule one_open_close [OF _ cp])
    then have "one_open s'" using eq(2) by (simp add: one_open_def)
    moreover have "?f p \<in> set (periods s')"
      unfolding per update_rows_def using p p1(2,4) by (auto simp: image_iff intro!: bexI [of _ p])
    moreover have "x \<in> set (periods s')" if "x \<in> set (periods s)" "pe_status x \<noteq> ''OPEN''" for x
      unfolding per update_rows_def using that by (auto simp: image_iff intro!: bexI [of _ x])
    moreover have "x \<in> set (periods s)" if x: "x \<in> set (periods s')" "pe_group x \<noteq> ?g" for x
    proof -
      have "x \<noteq> ?new" using x(2) by (auto simp: open_row_def)
      then have "x \<in> set ?U" using x(1) per by simp
      then obtain y where y: "y \<in> set (periods s)" "x = (if pe_id y = pid \<and> pe_status y = ''OPEN'' then ?f y else y)"
        unfolding update_rows_def set_map by blast
      have "y \<noteq> p" using y x(2) p1(2,3,4) by auto
      then have "x = y" using y unique by auto
      then show ?thesis using y(1) by simp
    qed
    ultimately show ?thesis
      using open_one o p p1
      by (intro conjI exI [of _ ?new] exI [of _ "?f p"] bexI [of _ p] ballI impI) (simp_all add: open_row_def)
  qed
qed

section \<open>Statements account for every charge\<close>

text \<open>The foreign keys the snapshot relies on: every member has one user, and every member receivable
  names a member of its group.\<close>

definition accountable :: "string \<Rightarrow> db \<Rightarrow> bool" where
  "accountable g s \<longleftrightarrow> distinct (map ms_id (memberships s)) \<and> distinct (map us_id (users s)) \<and>
     (\<forall>m\<in>set (memberships s). ms_user m \<in> us_id ` set (users s)) \<and>
     (\<forall>r\<in>set (ledger s). le_group r = g \<longrightarrow> le_account r = ''MEMBER_RECEIVABLE'' \<longrightarrow>
        (\<exists>m\<in>set (memberships s). ms_group m = g \<and> le_membership r = Some (ms_id m)))"

definition receivable_row :: "string \<Rightarrow> string \<Rightarrow> ledger_row \<Rightarrow> bool" where
  "receivable_row g pid r \<longleftrightarrow> le_group r = g \<and> le_period r = Some pid \<and> le_account r = ''MEMBER_RECEIVABLE'' \<and> le_payment r = None"

lemma charges_in_rows: "charges_in g pid m s = rows_sum (\<lambda>r. receivable_row g pid r \<and> le_membership r = Some m) (ledger s)"
  unfolding charges_in_def rows_sum_def receivable_row_def
  by (rule arg_cong [of _ _ sum_list], rule arg_cong [of _ _ "map _"], rule filter_cong) auto

lemma sum_over_members:
  assumes "distinct (map ms_id ms)" "\<forall>r\<in>set rows. P r \<longrightarrow> (\<exists>m\<in>set ms. le_membership r = Some (ms_id m))"
  shows "sum_list (map (\<lambda>m. rows_sum (\<lambda>r. P r \<and> le_membership r = Some (ms_id m)) rows) ms) = rows_sum P rows"
  using assms(2)
proof (induction rows)
  case (Cons r rows)
  have one: "sum_list (map (\<lambda>m. if P r \<and> le_membership r = Some (ms_id m) then le_amount r else 0) ms) = (if P r then le_amount r else 0)"
  proof (cases "P r")
    case True
    then obtain m where m: "m \<in> set ms" "le_membership r = Some (ms_id m)" using Cons.prems by auto
    have "sum_list (map (\<lambda>x. if ms_id x = ms_id m then a else 0) xs) = (if ms_id m \<in> ms_id ` set xs then a else 0)"
      if "distinct (map ms_id xs)" for xs and a :: int
      using that by (induction xs) auto
    from this [OF assms(1)] show ?thesis using True m by (simp add: eq_commute)
  qed simp
  have "sum_list (map (\<lambda>m. rows_sum (\<lambda>r. P r \<and> le_membership r = Some (ms_id m)) (r # rows)) ms)
    = sum_list (map (\<lambda>m. if P r \<and> le_membership r = Some (ms_id m) then le_amount r else 0) ms)
      + sum_list (map (\<lambda>m. rows_sum (\<lambda>r. P r \<and> le_membership r = Some (ms_id m)) rows) ms)"
    by (simp add: sum_list_addf)
  then show ?case using one Cons by simp
qed simp

lemma one_user:
  "distinct (map us_id us) \<Longrightarrow> x \<in> us_id ` set us \<Longrightarrow> length (filter (\<lambda>u. us_id u = x) us) = 1"
proof (induction us)
  case (Cons u us)
  then show ?case
    by (cases "us_id u = x") (auto simp: filter_empty_conv image_iff)
qed simp

lemma sum_concat: "sum_list (map f (concat xss)) = sum_list (map (\<lambda>xs. sum_list (map f xs)) xss)" for f :: "'a \<Rightarrow> int"
  by (induction xss) simp_all

lemma snapshot_charges:
  assumes acc: "accountable g s"
  shows "sum_list (map sn_charges (snapshots g pid s)) = rows_sum (receivable_row g pid) (ledger s)"
proof -
  let ?ms = "filter (\<lambda>m. ms_group m = g) (memberships s)"
  let ?us = "\<lambda>m. filter (\<lambda>u. us_id u = ms_user m \<and> (us_email u \<noteq> None \<or> has_activity pid m s)) (users s)"
  have each: "sum_list (map (\<lambda>u. charges_in g pid (ms_id m) s) (?us m)) = charges_in g pid (ms_id m) s"
    if m: "m \<in> set ?ms" for m
  proof (cases "has_activity pid m s")
    case True
    have "ms_user m \<in> us_id ` set (users s)" "distinct (map us_id (users s))"
      using acc m by (auto simp: accountable_def)
    then have "length (filter (\<lambda>u. us_id u = ms_user m) (users s)) = 1" by (intro one_user)
    then show ?thesis using True by (simp add: sum_list_triv)
  next
    case False
    then have "charges_in g pid (ms_id m) s = 0"
      using m unfolding charges_in_rows by (intro rows_sum_zero) (auto simp: has_activity_def receivable_row_def list_ex_iff)
    then show ?thesis by simp
  qed
  have "sum_list (map sn_charges (snapshots g pid s)) = sum_list (map (\<lambda>m. sum_list (map (\<lambda>u. charges_in g pid (ms_id m) s) (?us m))) ?ms)"
    by (simp add: sum_concat snapshots_def statement_members_def snapshot_of_def comp_def case_prod_beta)
  also have "\<dots> = sum_list (map (\<lambda>m. charges_in g pid (ms_id m) s) ?ms)"
    by (rule arg_cong [of _ _ sum_list]) (use each in \<open>simp cong: map_cong\<close>)
  also have "\<dots> = rows_sum (receivable_row g pid) (ledger s)"
    unfolding charges_in_rows
  proof (rule sum_over_members)
    show "distinct (map ms_id ?ms)" using acc by (simp add: accountable_def distinct_map_filter)
    show "\<forall>r\<in>set (ledger s). receivable_row g pid r \<longrightarrow> (\<exists>m\<in>set ?ms. le_membership r = Some (ms_id m))"
      using acc by (auto simp: accountable_def receivable_row_def)
  qed
  finally show ?thesis .
qed

lemma snapshot_charges_each:
  "item \<in> set (snapshots g pid s) \<Longrightarrow> sn_charges item = charges_in g pid (sn_membershipID item) s"
  by (auto simp: snapshots_def snapshot_of_def)

lemma map2_snd: "length ids = length items \<Longrightarrow> (\<And>i x. f (h i x) = k x) \<Longrightarrow> map f (map2 h ids items) = map k items"
  by (induction ids items rule: list_induct2) simp_all

text \<open>Who receives a statement, said on the tables: a member with an email address, or one with anything in the
  period (a ledger row, a payment allocated to it, a correction taken from or applied to it). A temporary guest
  without activity receives none.\<close>

definition active_in :: "string \<Rightarrow> string \<Rightarrow> string \<Rightarrow> db \<Rightarrow> bool" where
  "active_in g pid member s \<longleftrightarrow>
     (\<exists>le\<in>set (ledger s). le_group le = g \<and> le_period le = Some pid \<and> le_membership le = Some member) \<or>
     (\<exists>a\<in>set (payment_allocations s). al_period a = pid \<and>
        (\<exists>p\<in>set (payments s). py_id p = al_payment a \<and> py_group p = g \<and> py_membership p = member)) \<or>
     (\<exists>a\<in>set (adjustments s). (aj_target a = pid \<or> aj_source a = pid) \<and> aj_membership a = member)"

definition billed :: "string \<Rightarrow> string \<Rightarrow> db \<Rightarrow> membership_row \<Rightarrow> bool" where
  "billed g pid s mr \<longleftrightarrow> ms_group mr = g \<and>
     ((\<exists>u\<in>set (users s). us_id u = ms_user mr \<and> us_email u \<noteq> None) \<or> active_in g pid (ms_id mr) s)"

text \<open>The money that reached a period: live payments and corrections.\<close>

definition paid_into :: "string \<Rightarrow> string \<Rightarrow> db \<Rightarrow> int" where
  "paid_into pid member s = sum_list (map al_amount (filter (\<lambda>a. al_period a = pid \<and>
     (\<exists>p\<in>set (payments s). py_id p = al_payment a \<and> py_membership p = member \<and> py_reversed_at p = None))
     (payment_allocations s)))"

definition corrected :: "(adjustment_row \<Rightarrow> string) \<Rightarrow> string \<Rightarrow> string \<Rightarrow> db \<Rightarrow> int" where
  "corrected side pid member s =
     sum_list (map aj_amount (filter (\<lambda>a. side a = pid \<and> aj_membership a = member) (adjustments s)))"

lemma billed_members:
  assumes "accountable g s"
  shows "set (map sn_membershipID (snapshots g pid s)) = ms_id ` {mr \<in> set (memberships s). billed g pid s mr}"
proof -
  have active: "has_activity pid mr s \<longleftrightarrow> active_in g pid (ms_id mr) s" if "ms_group mr = g" for mr
    using that by (auto simp: has_activity_def active_in_def list_ex_iff)
  have "\<exists>u\<in>set (users s). us_id u = ms_user mr" if "mr \<in> set (memberships s)" for mr
    using assms that unfolding accountable_def by (metis imageE)
  then show ?thesis
    by (auto simp: snapshots_def snapshot_of_def statement_members_def billed_def active image_iff) blast+
qed

lemma snapshot_sums:
  assumes "item \<in> set (snapshots g pid s)" "unclosed s' = unclosed s" "allocated s' = allocated s"
  shows "sn_charges item = claim_in g (sn_membershipID item) pid s'" "sn_paid item = paid_into pid (sn_membershipID item) s'"
    "sn_applied item = corrected aj_target pid (sn_membershipID item) s'"
    "sn_provided item = corrected aj_source pid (sn_membershipID item) s'"
  using assms by (auto simp: snapshots_def snapshot_of_def unclosed_def allocated_def claim_in_def charges_in_def paid_into_def
      paid_in_def corrected_def applied_in_def provided_in_def list_ex_iff)

lemma billed_frame: "unclosed s' = unclosed s \<Longrightarrow> allocated s' = allocated s \<Longrightarrow> billed g pid s' = billed g pid s"
  by (rule ext) (simp add: billed_def active_in_def unclosed_def allocated_def)


section \<open>An example\<close>

text \<open>A group with three members: a treasurer who owes 30 in the open period and has paid 10, a temporary guest who
  owes 20, and a guest who did nothing.\<close>

definition tab :: db where
  "tab = empty_db\<lparr>
     groups := [\<lparr>gr_id = ''g'', gr_currency = ''E'', gr_status = ''ACTIVE''\<rparr>],
     users := [\<lparr>us_id = ''u'', us_email = Some ''u'', us_display_name = ''U'', us_password_hash = Some ''h'', us_active = True, us_avatar_key = None\<rparr>,
       \<lparr>us_id = ''v'', us_email = None, us_display_name = ''V'', us_password_hash = None, us_active = True, us_avatar_key = None\<rparr>,
       \<lparr>us_id = ''w'', us_email = None, us_display_name = ''W'', us_password_hash = None, us_active = True, us_avatar_key = None\<rparr>],
     memberships := [\<lparr>ms_id = ''m'', ms_group = ''g'', ms_user = ''u'', ms_status = ''ACTIVE'', ms_guest_key = None, ms_deleted_at = None\<rparr>,
       \<lparr>ms_id = ''n'', ms_group = ''g'', ms_user = ''v'', ms_status = ''ACTIVE'', ms_guest_key = Some ''v'', ms_deleted_at = None\<rparr>,
       \<lparr>ms_id = ''o'', ms_group = ''g'', ms_user = ''w'', ms_status = ''ACTIVE'', ms_guest_key = Some ''w'', ms_deleted_at = None\<rparr>],
     assignments := [\<lparr>as_group = ''g'', as_membership = ''m'', as_role = ''r''\<rparr>],
     grants := [\<lparr>gt_group = ''g'', gt_role = ''r'', gt_permission = ''FINANCE_MANAGEMENT'', gt_scope = ''GROUP'', gt_category = None, gt_product = None\<rparr>],
     settings := [\<lparr>st_group = ''g'', st_settlements = True, st_own_booking_mode = [], st_foreign_booking_mode = [], st_own_payment_mode = [],
       st_other_payment_mode = [], st_external_enabled = False, st_external_version = 1, st_planning_enabled = False, st_statistics_enabled = False\<rparr>],
     periods := [\<lparr>pe_id = ''p'', pe_group = ''g'', pe_label = [], pe_status = ''OPEN'', pe_starts_at = ''2025'',
       pe_closed_at = None, pe_due_at = None, pe_closed_by = None\<rparr>],
     payments := [\<lparr>py_id = ''y'', py_group = ''g'', py_membership = ''m'', py_amount = 10, py_received_at = ''2025'', py_method = ''CASH'',
       py_method_label = ''Bar'', py_reference = None, py_note = None, py_created_by = ''m'', py_created_at = ''2025'',
       py_reversed_at = None, py_reversed_by = None, py_reversal_reason = None\<rparr>],
     ledger := [ledger_entry ''1'' ''g'' ''p'' ''m'' [] ''b'' [] [] ''MEMBER_RECEIVABLE'' 30 [] ''t'',
       ledger_entry ''2'' ''g'' ''p'' ''n'' [] ''b'' [] [] ''MEMBER_RECEIVABLE'' 20 [] ''t'']\<rparr>"

definition treasurer :: membership where
  "treasurer = \<lparr>m_ID = ''m'', m_GroupID = ''g'', m_UserID = ''u'', m_DisplayName = ''U'', m_AvatarURL = []\<rparr>"

definition closed_tab :: "close_result result \<times> db" where
  "closed_tab = Close fixed_env mail_only \<lparr>UserID = ''u''\<rparr> treasurer ''key-0001'' ''p'' \<lparr>cl_Label = ''L'', cl_DueAt = ''2026-01-31'', cl_NextPeriodLabel = ''N''\<rparr> tab"

lemma tab_facts: "one_open tab" "accountable (m_GroupID treasurer) tab" "idempotency tab = []"
  by (auto simp: one_open_def accountable_def tab_def empty_db_def treasurer_def nullable_def ledger_entry_def)

theorem Close_rolls_period_witness:
  "one_open (snd closed_tab) \<and> length (filter (\<lambda>p. pe_group p = ''g'' \<and> pe_status p = ''OPEN'') (periods (snd closed_tab))) = 1"
proof -
  have "\<not> isl (fst closed_tab)"
    by code_simp
  then obtain r where ok: "closed_tab = (Inr r, snd closed_tab)" using outcome_Inr by blast
  have run: "Close fixed_env mail_only \<lparr>UserID = ''u''\<rparr> treasurer ''key-0001'' ''p'' \<lparr>cl_Label = ''L'', cl_DueAt = ''2026-01-31'', cl_NextPeriodLabel = ''N''\<rparr> tab
      = (Inr r, snd closed_tab)"
    unfolding closed_tab_def [symmetric] by (rule ok)
  have "m_GroupID treasurer = ''g''" by (simp add: treasurer_def)
  then show ?thesis using Close_rolls_period [OF tab_facts(1) run] tab_facts(3) by auto
qed

lemma closed_tab_facts:
  "\<not> isl (fst closed_tab)"
  "map ms_id (filter (billed ''g'' ''p'' (snd closed_tab)) (memberships (snd closed_tab))) = [''m'', ''n'']"
  "map (\<lambda>x. paid_into ''p'' x (snd closed_tab)) [''m'', ''n''] = [10, 0]"
  "map (\<lambda>x. claim_in ''g'' x ''p'' (snd closed_tab)) [''m'', ''n''] = [30, 20]"
  by code_simp+


end
