(* ===== verification/ExternalLaws.thy ===== *)
theory ExternalLaws
  imports ExternalAccounts
begin

text \<open>
  What the external-account operations touch (frame rules in \<open>pres_intros\<close>) and what they append to the
  journal: the two legs of a movement, its mirrored legs, and the postings on behalf of a payment.
\<close>

section \<open>Frames\<close>

lemma requireManualAccess_state: "requireManualAccess m p s = Inr (u, s') \<Longrightarrow> s' = s"
  by (auto simp: requireManualAccess_def Require_def bind_eq_Inr split: sum.splits if_splits)

lemma preserves_access [pres_intros]:
  "preserves P (requireManualAccess m p)" "preserves P (requireCollectionVersion g v)" "preserves P (groupCurrency g)"
  "preserves P (requireActiveAccounts g a c)" "preserves P (ensureExternalAccountBalanceDelta g a d)"
  "preserves P (externalAccountBalances g)" "preserves P (open_period_currency g)" "preserves P (reversible_transaction g t)"
  "preserves P (getTransactionView g t)" "preserves P (open_period g)"
proof -
  have req: "preserves P (Require g i p r)" for g i p r
    by (rule validI) (auto simp: Require_def split: sum.splits if_splits)
  show "preserves P (requireManualAccess m p)"
    unfolding requireManualAccess_def by (intro pres_intros req)
  show "preserves P (open_period_currency g)"
    unfolding open_period_currency_def
    by (intro pres_intros)
  show "preserves P (externalAccountBalances g)" "preserves P (getTransactionView g t)"
    by (rule validI, auto simp: externalAccountBalances_def getTransactionView_def split: if_splits option.splits prod.splits)+
  show "preserves P (requireCollectionVersion g v)"
    unfolding requireCollectionVersion_def by (intro pres_intros)
  show "preserves P (groupCurrency g)"
    unfolding groupCurrency_def by (intro pres_intros)
  show "preserves P (requireActiveAccounts g a c)"
    unfolding requireActiveAccounts_def by (intro pres_intros)
  show "preserves P (ensureExternalAccountBalanceDelta g a d)"
    unfolding ensureExternalAccountBalanceDelta_def by (intro pres_intros)
  show "preserves P (reversible_transaction g t)"
    unfolding reversible_transaction_def by (intro pres_intros)
  show "preserves P (open_period g)"
    unfolding open_period_def by (intro pres_intros)
qed

text \<open>A table update written as the replacement of the table.\<close>

lemma table_fields:
  "settings_update f s = s\<lparr>settings := f (settings s)\<rparr>"
  "external_accounts_update g s = s\<lparr>external_accounts := g (external_accounts s)\<rparr>"
  "payment_methods_update h s = s\<lparr>payment_methods := h (payment_methods s)\<rparr>"
  "payments_update k s = s\<lparr>payments := k (payments s)\<rparr>"
  by (cases s, simp)+

lemma preserves_tables:
  "(\<And>s rs. P s \<Longrightarrow> P (s\<lparr>settings := rs\<rparr>)) \<Longrightarrow> preserves P (modify (settings_update f))"
  "(\<And>s rs. P s \<Longrightarrow> P (s\<lparr>external_accounts := rs\<rparr>)) \<Longrightarrow> preserves P (modify (external_accounts_update g))"
  "(\<And>s rs. P s \<Longrightarrow> P (s\<lparr>payment_methods := rs\<rparr>)) \<Longrightarrow> preserves P (modify (payment_methods_update h))"
  "(\<And>s rs. P s \<Longrightarrow> P (s\<lparr>payments := rs\<rparr>)) \<Longrightarrow> preserves P (modify (payments_update k))"
  by (rule preserves_modify, subst table_fields, assumption)+

lemma preserves_bump [pres_intros]:
  assumes "\<And>s n. P s \<Longrightarrow> P (s\<lparr>clock_reads := n\<rparr>)" "\<And>s rs. P s \<Longrightarrow> P (s\<lparr>settings := rs\<rparr>)"
  shows "preserves P (bumpCollectionVersion env g v)"
  unfolding bumpCollectionVersion_def
  by (intro pres_intros preserves_tables) (erule assms)+

lemma preserves_constraint [pres_intros]: "preserves P m \<Longrightarrow> preserves P (mapConstraintError f m)"
  unfolding valid_def mapConstraintError_Inr .

lemma preserves_insert_ledger:
  assumes "\<And>s. P s \<Longrightarrow> ledger_ok s row \<Longrightarrow> \<forall>x\<in>set (ledger s). le_id x \<noteq> le_id row \<Longrightarrow> P (s\<lparr>ledger := ledger s @ [row]\<rparr>)"
  shows "preserves P (insert_ledger row)"
  unfolding insert_ledger_def by (rule preserves_insert_row) (use assms in auto)

lemma preserves_external_ledger [pres_intros]:
  assumes "\<And>s n. P s \<Longrightarrow> P (s\<lparr>random_reads := n\<rparr>)" "\<And>s rows. P s \<Longrightarrow> P (s\<lparr>ledger := ledger s @ rows\<rparr>)"
  shows "preserves P (insertExternalLedger env g p a t pay rv amount d at)" "preserves P (insertOffsetLedgerReversal env g p t rv amount d at)"
    "preserves P (insertOffsetLedger env g p t amount d at)"
  unfolding insertExternalLedger_def insertOffsetLedger_def insertOffsetLedgerReversal_def
  by (intro pres_intros preserves_insert_ledger assms; assumption)+

lemma preserves_update_accounts:
  assumes "\<And>s rs. P s \<Longrightarrow> P (s\<lparr>external_accounts := rs\<rparr>)"
  shows "preserves P (update_accounts Q f)"
proof (rule validI)
  fix s x s'
  assume p: "P s" and run: "update_accounts Q f s = Inr (x, s')"
  have "s' = s\<lparr>external_accounts := update_rows Q f (external_accounts s)\<rparr>"
    using run table_fields(2) by (auto simp: update_accounts_def split: if_split_asm)
  then show "P s'" using assms [OF p] by simp
qed

lemma preserves_restore_loop:
  assumes "\<And>a. preserves P (restore_account env g u m now a)"
  shows "preserves P (restore_loop env g u m now seen ids)"
  by (induction ids arbitrary: seen) (auto intro!: pres_intros assms)

lemma preserves_restore [pres_intros]:
  assumes "\<And>s n. P s \<Longrightarrow> P (s\<lparr>clock_reads := n\<rparr>)" "\<And>s n. P s \<Longrightarrow> P (s\<lparr>random_reads := n\<rparr>)"
    "\<And>s rs. P s \<Longrightarrow> P (s\<lparr>audit := rs\<rparr>)" "\<And>s rs. P s \<Longrightarrow> P (s\<lparr>settings := rs\<rparr>)"
    "\<And>s rs. P s \<Longrightarrow> P (s\<lparr>external_accounts := rs\<rparr>)"
  shows "preserves P (restoreDeletedAccountsAfterReversalTx env g u m ids)"
proof -
  have "preserves P (restore_account env g u m now a)" for now a
    unfolding restore_account_def by (intro pres_intros preserves_update_accounts) (erule assms)+
  then show ?thesis
    unfolding restoreDeletedAccountsAfterReversalTx_def
    by (intro pres_intros preserves_tables preserves_restore_loop) (assumption | erule assms)+
qed

lemma preserves_insert_transaction [pres_intros]:
  "(\<And>s rs. P s \<Longrightarrow> P (s\<lparr>external_transactions := rs\<rparr>)) \<Longrightarrow> preserves P (insert_transaction row)"
  unfolding insert_transaction_def by (rule preserves_insert_row) auto

lemma preserves_insert_transaction_attachment [pres_intros]:
  "(\<And>s rs. P s \<Longrightarrow> P (s\<lparr>transaction_attachments := rs\<rparr>)) \<Longrightarrow> preserves P (insert_transaction_attachment t g a c)"
  unfolding insert_transaction_attachment_def by (rule preserves_insert_row) auto

section \<open>What is appended to the journal\<close>

lemma NewID_Inr: "NewID env p s = Inr (i, s') \<Longrightarrow> i \<noteq> [] \<and> s' = s\<lparr>random_reads := Suc (random_reads s)\<rparr>"
  by (auto simp: NewID_def)

lemma insert_ledger_Inr:
  "insert_ledger row s = Inr (u, s') \<longleftrightarrow> ledger_ok s row \<and>
     (\<forall>x\<in>set (ledger s). \<not> (le_id x = le_id row \<or> le_reversal_of row \<noteq> None \<and> le_reversal_of x = le_reversal_of row)) \<and>
     s' = s\<lparr>ledger := ledger s @ [row]\<rparr>"
  by (auto simp: insert_ledger_def insert_row_Inr)

lemma insert_transaction_Inr:
  "insert_transaction row s = Inr (u, s') \<longleftrightarrow> transaction_ok s row \<and>
     (\<forall>x\<in>set (external_transactions s). \<not> transaction_clash x row) \<and>
     s' = s\<lparr>external_transactions := external_transactions s @ [row]\<rparr>"
  by (auto simp: insert_transaction_def insert_row_Inr)

lemma insertExternalLedger_Inr:
  assumes "insertExternalLedger env g p a t pay rv amount d at s = Inr (u, s')"
  obtains i where "i \<noteq> []" "s' = s\<lparr>random_reads := Suc (random_reads s),
      ledger := ledger s @ [external_entry i g p a t pay rv amount d at]\<rparr>"
    "is_int64 (external_total g a s + amount)" "\<forall>x\<in>set (ledger s). le_id x \<noteq> i"
  using assms
  by (auto simp: insertExternalLedger_def ensureExternalAccountBalanceDelta_def bind_eq_Inr insert_ledger_Inr external_entry_def
      dest!: NewID_Inr)

lemma insertOffsetLedgerReversal_Inr:
  assumes "insertOffsetLedgerReversal env g p t rv amount d at s = Inr (u, s')"
  obtains i where "i \<noteq> []" "s' = s\<lparr>random_reads := Suc (random_reads s), ledger := ledger s @ [offset_entry i g p t rv amount d at]\<rparr>"
    "\<forall>x\<in>set (ledger s). le_id x \<noteq> i"
  using assms
  by (auto simp: insertOffsetLedgerReversal_def bind_eq_Inr insert_ledger_Inr offset_entry_def dest!: NewID_Inr)

lemma external_entry_sel [simp]:
  "le_id (external_entry i g p a t pay rv amount d at) = i" "le_group (external_entry i g p a t pay rv amount d at) = g"
  "le_period (external_entry i g p a t pay rv amount d at) = Some p" "le_membership (external_entry i g p a t pay rv amount d at) = None"
  "le_booking (external_entry i g p a t pay rv amount d at) = None" "le_payment (external_entry i g p a t pay rv amount d at) = nullable pay"
  "le_external_account (external_entry i g p a t pay rv amount d at) = Some a"
  "le_external_transaction (external_entry i g p a t pay rv amount d at) = Some t"
  "le_reversal_of (external_entry i g p a t pay rv amount d at) = nullable rv"
  "le_account (external_entry i g p a t pay rv amount d at) = ''EXTERNAL_ACCOUNT''"
  "le_amount (external_entry i g p a t pay rv amount d at) = amount" "le_category (external_entry i g p a t pay rv amount d at) = None"
  by (simp_all add: external_entry_def)

lemma offset_entry_sel [simp]:
  "le_id (offset_entry i g p t rv amount d at) = i" "le_group (offset_entry i g p t rv amount d at) = g"
  "le_period (offset_entry i g p t rv amount d at) = Some p" "le_membership (offset_entry i g p t rv amount d at) = None"
  "le_booking (offset_entry i g p t rv amount d at) = None" "le_payment (offset_entry i g p t rv amount d at) = None"
  "le_external_account (offset_entry i g p t rv amount d at) = None"
  "le_external_transaction (offset_entry i g p t rv amount d at) = Some t"
  "le_reversal_of (offset_entry i g p t rv amount d at) = nullable rv"
  "le_account (offset_entry i g p t rv amount d at) = ''EXTERNAL_OFFSET''"
  "le_amount (offset_entry i g p t rv amount d at) = amount" "le_category (offset_entry i g p t rv amount d at) = None"
  by (simp_all add: offset_entry_def)

section \<open>Postings\<close>

text \<open>What a body appends to the ledger and to the movements, while bookings, payments, periods and stored
  results stay as they are.\<close>

definition entries :: "db \<Rightarrow> _" where
  "entries s = (ledger s, external_transactions s, payments s, bookings s, periods s, memberships s, groups s, idempotency s)"

definition posts :: "db \<Rightarrow> db \<Rightarrow> ledger_row list \<Rightarrow> external_transaction_row list \<Rightarrow> bool" where
  "posts s s' rows txns \<longleftrightarrow> entries s' = (ledger s @ rows, external_transactions s @ txns, payments s, bookings s, periods s,
     memberships s, groups s, idempotency s)"

lemma entries_frame [simp]:
  "entries (s\<lparr>clock_reads := n\<rparr>) = entries s" "entries (s\<lparr>random_reads := n\<rparr>) = entries s"
  "entries (s\<lparr>audit := as\<rparr>) = entries s" "entries (s\<lparr>settings := ss\<rparr>) = entries s"
  "entries (s\<lparr>external_accounts := es\<rparr>) = entries s" "entries (s\<lparr>transaction_attachments := ts\<rparr>) = entries s"
  "entries (s\<lparr>payment_methods := ps\<rparr>) = entries s" "entries (s\<lparr>attachments := ats\<rparr>) = entries s"
  by (simp_all add: entries_def)

lemma posts_refl [simp]: "posts s s [] []"
  by (simp add: posts_def entries_def)

lemma posts_entries: "entries s' = entries s \<Longrightarrow> posts s s' [] []"
  by (simp add: posts_def entries_def)

lemma posts_trans: "posts s s1 rows txns \<Longrightarrow> posts s1 s2 rows' txns' \<Longrightarrow> posts s s2 (rows @ rows') (txns @ txns')"
  by (simp add: posts_def entries_def)

lemma posts_split: "posts s s' rows txns \<longleftrightarrow> ledger s' = ledger s @ rows \<and> external_transactions s' = external_transactions s @ txns \<and>
    payments s' = payments s \<and> bookings s' = bookings s \<and> periods s' = periods s \<and> memberships s' = memberships s \<and>
    groups s' = groups s \<and> idempotency s' = idempotency s"
  by (simp add: posts_def entries_def)

lemma posts_keeps: "keeps entries m \<Longrightarrow> m s = Inr (x, s') \<Longrightarrow> posts s s' [] []"
  by (rule posts_entries) (rule keepsD)

lemma keeps_entries [simp, intro]:
  "keeps entries (Now env)" "keeps entries (NewID env p)" "keeps entries (Record env g u m a t i md)"
  "keeps entries (bumpCollectionVersion env g v)" "keeps entries (restoreDeletedAccountsAfterReversalTx env g u m ids)"
  "keeps entries (insert_transaction_attachment t g att c)" "keeps entries (update_accounts Q f)"
  by (rule keepsI; intro pres_intros preserves_update_accounts; simp)+

lemma access_state:
  "requireManualAccess m p s = Inr (u, s') \<Longrightarrow> s' = s"
  "requireActiveAccounts g a c s = Inr (u, s') \<Longrightarrow> s' = s"
  "open_period_currency g s = Inr (pc, s') \<Longrightarrow> s' = s"
  "reversible_transaction g t s = Inr (row, s') \<Longrightarrow> s' = s"
  "open_period g s = Inr (p, s') \<Longrightarrow> s' = s"
  "getTransactionView g t s = Inr (v, s') \<Longrightarrow> s' = s"
  "requireCollectionVersion g v' s = Inr (u, s') \<Longrightarrow> s' = s"
  by (rule requireManualAccess_state, assumption)
    (rule validD [of "\<lambda>x. x = s" _ "\<lambda>_ x. x = s", OF _ refl]; (rule preserves_access)?; assumption)+

text \<open>The legs of a movement name it and nothing else, and they are no reversals.\<close>

definition movement_row :: "string \<Rightarrow> string \<Rightarrow> ledger_row \<Rightarrow> bool" where
  "movement_row g t r \<longleftrightarrow> le_group r = g \<and> le_external_transaction r = Some t \<and> le_reversal_of r = None \<and>
     le_payment r = None \<and> le_booking r = None \<and> le_membership r = None \<and> le_id r \<noteq> []"

lemma post_movement_effect:
  assumes "post_movement env g p t input now s = Inr (u, s')"
  obtains r1 r2 where "posts s s' [r1, r2] []" "movement_row g t r1" "movement_row g t r2"
    "le_external_account r1 = Some (nx_PrimaryAccountID input)" "le_account r1 = ''EXTERNAL_ACCOUNT''"
    "le_amount r1 = nx_AmountMinor input" "le_amount r2 = - nx_AmountMinor input"
    "if nx_Kind input = ''TRANSFER''
     then le_external_account r2 = Some (coalesce_text (nx_CounterpartyAccountID input)) \<and> le_account r2 = ''EXTERNAL_ACCOUNT''
     else le_external_account r2 = None \<and> le_account r2 = ''EXTERNAL_OFFSET''"
proof -
  let ?t = "nx_Kind input = ''TRANSFER''"
  from assms obtain s1 where a: "insertExternalLedger env g p (nx_PrimaryAccountID input) t [] [] (nx_AmountMinor input) (nx_Reason input) now s
      = Inr ((), s1)"
    and b: "(if ?t then insertExternalLedger env g p (coalesce_text (nx_CounterpartyAccountID input)) t [] [] (- nx_AmountMinor input) (nx_Reason input) now
      else insertOffsetLedger env g p t (- nx_AmountMinor input) (nx_Reason input) now) s1 = Inr ((), s')"
    by (auto simp: post_movement_def bind_eq_Inr)
  obtain i1 where i1: "i1 \<noteq> []" "s1 = s\<lparr>random_reads := Suc (random_reads s),
      ledger := ledger s @ [external_entry i1 g p (nx_PrimaryAccountID input) t [] [] (nx_AmountMinor input) (nx_Reason input) now]\<rparr>"
    using insertExternalLedger_Inr [OF a] by metis
  let ?r1 = "external_entry i1 g p (nx_PrimaryAccountID input) t [] [] (nx_AmountMinor input) (nx_Reason input) now"
  show thesis
  proof (cases ?t)
    case True
    let ?r2 = "\<lambda>i2. external_entry i2 g p (coalesce_text (nx_CounterpartyAccountID input)) t [] [] (- nx_AmountMinor input) (nx_Reason input) now"
    obtain i2 where i2: "i2 \<noteq> []" "s' = s1\<lparr>random_reads := Suc (random_reads s1), ledger := ledger s1 @ [?r2 i2]\<rparr>"
      using b insertExternalLedger_Inr [of env g p "coalesce_text (nx_CounterpartyAccountID input)" t "[]" "[]"] True by (simp, metis)
    show thesis
      by (rule that [of ?r1 "?r2 i2"]) (use i1 i2 True in \<open>simp_all add: posts_split movement_row_def nullable_def\<close>)
  next
    case False
    let ?r2 = "\<lambda>i2. offset_entry i2 g p t [] (- nx_AmountMinor input) (nx_Reason input) now"
    obtain i2 where i2: "i2 \<noteq> []" "s' = s1\<lparr>random_reads := Suc (random_reads s1), ledger := ledger s1 @ [?r2 i2]\<rparr>"
      using b insertOffsetLedgerReversal_Inr [of env g p t "[]"] False unfolding insertOffsetLedger_def by (simp, metis)
    show thesis
      by (rule that [of ?r1 "?r2 i2"]) (use i1 i2 False in \<open>simp_all add: posts_split movement_row_def nullable_def\<close>)
  qed
qed

text \<open>A manual movement: a new row of the history and its two legs.\<close>

lemma createManual_effect:
  assumes "createManualTransactionTx env m input att s = Inr (x, s')"
  obtains t r1 r2 where "posts s s' [r1, r2] [t]" "xr_id t = xt_ID x" "xr_group t = m_GroupID m" "xr_kind t = nx_Kind input"
    "xr_amount t = nx_AmountMinor input" "xr_payment t = None" "xr_reversal_of t = None" "transaction_ok s t"
    "\<forall>y\<in>set (external_transactions s). \<not> transaction_clash y t"
    "movement_row (m_GroupID m) (xr_id t) r1" "movement_row (m_GroupID m) (xr_id t) r2"
    "le_external_account r1 = Some (nx_PrimaryAccountID input)" "le_account r1 = ''EXTERNAL_ACCOUNT''"
    "le_amount r1 = nx_AmountMinor input" "le_amount r2 = - nx_AmountMinor input"
    "if nx_Kind input = ''TRANSFER''
     then le_external_account r2 = Some (coalesce_text (nx_CounterpartyAccountID input)) \<and> le_account r2 = ''EXTERNAL_ACCOUNT''
     else le_external_account r2 = None \<and> le_account r2 = ''EXTERNAL_OFFSET''"
proof -
  from assms obtain s0 i s1 now s2 s3 s4 p c s5 where a:
    "requireActiveAccounts (m_GroupID m) (nx_PrimaryAccountID input) (nx_CounterpartyAccountID input) s = Inr ((), s0)"
    "NewID env ''ext'' s0 = Inr (i, s1)" "Now env s1 = Inr (now, s2)"
    "insert_transaction (transaction_row i (m_GroupID m) (nx_Kind input) (nx_PrimaryAccountID input)
      (nx_CounterpartyAccountID input) None (nx_AmountMinor input) (nx_BookedAt input) (nx_Reason input)
      (nx_Reference input) (nx_Note input) None (m_ID m) (Timestamp now)) s2 = Inr ((), s3)"
    "(case att of None \<Rightarrow> ret () | Some a \<Rightarrow> insert_transaction_attachment i (m_GroupID m) a (m_ID m)) s3 = Inr ((), s4)"
    "open_period_currency (m_GroupID m) s4 = Inr ((p, c), s5)"
    "post_movement env (m_GroupID m) p i input (Timestamp now) s5 = Inr ((), s')" "xt_ID x = i"
    unfolding createManualTransactionTx_def Let_def by (auto simp: bind_eq_Inr split: prod.splits)
  let ?t = "transaction_row i (m_GroupID m) (nx_Kind input) (nx_PrimaryAccountID input)
      (nx_CounterpartyAccountID input) None (nx_AmountMinor input) (nx_BookedAt input) (nx_Reason input)
      (nx_Reference input) (nx_Note input) None (m_ID m) (Timestamp now)"
  have s0: "s0 = s" by (rule access_state(2) [OF a(1)])
  have s5: "s5 = s4" by (rule access_state(3) [OF a(6)])
  have s2: "s2 = s\<lparr>random_reads := Suc (random_reads s), clock_reads := Suc (clock_reads s)\<rparr>"
    using a(2,3) s0 by (auto simp: NewID_def Now_def)
  have frame: "transaction_ok (z\<lparr>random_reads := n, clock_reads := k\<rparr>) row = transaction_ok z row" for z n k row
    by (simp add: transaction_ok_def)
  have t: "transaction_ok s ?t" "\<forall>y\<in>set (external_transactions s). \<not> transaction_clash y ?t"
    "s3 = s2\<lparr>external_transactions := external_transactions s2 @ [?t]\<rparr>"
    using a(4) unfolding insert_transaction_Inr s2 frame by simp_all
  have "posts s s3 [] [?t]" using t(3) s2 by (simp add: posts_split)
  moreover have "posts s3 s4 [] []"
  proof (cases att)
    case None
    then show ?thesis using a(5) by simp
  next
    case (Some y)
    then show ?thesis using a(5) posts_keeps [OF keeps_entries(6)] by simp
  qed
  ultimately have pre: "posts s s5 [] [?t]" using posts_trans s5 by fastforce
  show thesis
  proof (rule post_movement_effect [OF a(7)])
    fix r1 r2
    assume e: "posts s5 s' [r1, r2] []" "movement_row (m_GroupID m) i r1" "movement_row (m_GroupID m) i r2"
     "le_external_account r1 = Some (nx_PrimaryAccountID input)" "le_account r1 = ''EXTERNAL_ACCOUNT''"
     "le_amount r1 = nx_AmountMinor input" "le_amount r2 = - nx_AmountMinor input"
     "if nx_Kind input = ''TRANSFER''
      then le_external_account r2 = Some (coalesce_text (nx_CounterpartyAccountID input)) \<and> le_account r2 = ''EXTERNAL_ACCOUNT''
      else le_external_account r2 = None \<and> le_account r2 = ''EXTERNAL_OFFSET''"
    have "posts s s' [r1, r2] [?t]" using posts_trans [OF pre e(1)] by simp
    then show thesis
      by (rule that) (use e(2-8) t a(8) in \<open>simp_all add: transaction_row_def\<close>)
  qed
qed

text \<open>A mirrored row: it cancels the row it names, in the same group.\<close>

definition mirrors :: "string \<Rightarrow> ledger_row \<Rightarrow> ledger_row \<Rightarrow> bool" where
  "mirrors g r leg \<longleftrightarrow> le_group r = g \<and> le_reversal_of r = nullable (le_id leg) \<and> le_amount r = - le_amount leg \<and>
     le_booking r = None \<and> le_id r \<noteq> []"

lemma each_posts:
  assumes "\<And>x s u s'. x \<in> set xs \<Longrightarrow> f x s = Inr (u, s') \<Longrightarrow> \<exists>rs. posts s s' rs [] \<and> Q x rs"
    "each_tx f xs s = Inr (u, s')"
  shows "\<exists>rss. posts s s' (concat rss) [] \<and> list_all2 Q xs rss"
  using assms
proof (induction xs arbitrary: s)
  case Nil
  then show ?case by (intro exI [of _ "[]"]) simp
next
  case (Cons x xs)
  from Cons.prems(2) obtain s1 where step: "f x s = Inr ((), s1)" "each_tx f xs s1 = Inr (u, s')"
    by (auto simp: bind_eq_Inr)
  obtain rs where rs: "posts s s1 rs []" "Q x rs" using Cons.prems(1) [OF _ step(1)] by auto
  have "\<exists>rss. posts s1 s' (concat rss) [] \<and> list_all2 Q xs rss"
    by (rule Cons.IH [OF Cons.prems(1) step(2)]) simp
  then obtain rss where "posts s1 s' (concat rss) []" "list_all2 Q xs rss" by blast
  then show ?case using posts_trans [OF rs(1)] rs(2)
    by (intro exI [of _ "rs # rss"]) fastforce
qed

lemma reverse_leg_effect:
  assumes "reverse_leg env g p t now leg s = Inr (u, s')"
  shows "\<exists>r. posts s s' [r] [] \<and> mirrors g r leg \<and> le_external_transaction r = Some t \<and> le_payment r = None \<and> le_membership r = None
    \<and> le_external_account r = le_external_account leg"
proof (cases "le_external_account leg")
  case None
  obtain i where "i \<noteq> []" "s' = s\<lparr>random_reads := Suc (random_reads s),
      ledger := ledger s @ [offset_entry i g p t (le_id leg) (- le_amount leg) (''Reversal: '' @ le_description leg) now]\<rparr>"
    using assms None insertOffsetLedgerReversal_Inr [of env g p t "le_id leg"] unfolding reverse_leg_def by (simp, metis)
  then show ?thesis using None
    by (intro exI [of _ "offset_entry i g p t (le_id leg) (- le_amount leg) (''Reversal: '' @ le_description leg) now"])
      (simp add: posts_split mirrors_def)
next
  case (Some a)
  obtain i where "i \<noteq> []" "s' = s\<lparr>random_reads := Suc (random_reads s),
      ledger := ledger s @ [external_entry i g p a t [] (le_id leg) (- le_amount leg) (''Reversal: '' @ le_description leg) now]\<rparr>"
    using assms Some insertExternalLedger_Inr [of env g p a t "[]" "le_id leg"] unfolding reverse_leg_def by (simp, metis)
  then show ?thesis using Some
    by (intro exI [of _ "external_entry i g p a t [] (le_id leg) (- le_amount leg) (''Reversal: '' @ le_description leg) now"])
      (simp add: posts_split mirrors_def nullable_def)
qed

lemma list_all2_singles: "list_all2 (\<lambda>x rs. \<exists>r. rs = [r] \<and> Q x r) xs rss \<Longrightarrow> list_all2 Q xs (concat rss)"
  by (induction rule: list_all2_induct) auto

lemma reversible_Inr:
  assumes "reversible_transaction g tid s = Inr (t, s')"
  shows "t \<in> set (external_transactions s) \<and> xr_id t = tid \<and> xr_group t = g \<and> xr_kind t \<noteq> ''PAYMENT'' \<and> xr_kind t \<noteq> ''REVERSAL'' \<and>
    (\<forall>x\<in>set (external_transactions s). \<not> (xr_group x = g \<and> xr_reversal_of x = Some tid))"
proof -
  from assms have row: "first_row (\<lambda>t. xr_id t = tid \<and> xr_group t = g) (external_transactions s) = Some t"
    and kinds: "xr_kind t \<noteq> ''PAYMENT''" "xr_kind t \<noteq> ''REVERSAL''"
    and none: "filter (\<lambda>x. xr_group x = g \<and> xr_reversal_of x = Some tid) (external_transactions s) = []"
    by (auto simp: reversible_transaction_def bind_eq_Inr)
  show ?thesis using first_row_Some [OF row] kinds none by (auto simp: filter_empty_conv)
qed

lemma reverseTransaction_effect:
  assumes "reverseTransactionTx env m tid bookedAt reason s = Inr (x, s')"
  obtains t rv rows where "posts s s' rows [rv]"
    "t \<in> set (external_transactions s)" "xr_id t = tid" "xr_group t = m_GroupID m" "xr_kind t \<noteq> ''PAYMENT''" "xr_kind t \<noteq> ''REVERSAL''"
    "\<forall>y\<in>set (external_transactions s). \<not> (xr_group y = m_GroupID m \<and> xr_reversal_of y = Some tid)"
    "xr_kind rv = ''REVERSAL''" "xr_reversal_of rv = Some tid" "xr_group rv = m_GroupID m" "xr_amount rv = - xr_amount t"
    "xr_id rv = xt_ID x" "transaction_ok s rv" "\<forall>y\<in>set (external_transactions s). \<not> transaction_clash y rv"
    "list_all2 (\<lambda>leg r. mirrors (m_GroupID m) r leg \<and> le_external_transaction r = Some (xr_id rv) \<and> le_payment r = None \<and>
       le_membership r = None \<and> le_external_account r = le_external_account leg) (movement_legs (m_GroupID m) tid s) rows"
proof -
  let ?g = "m_GroupID m"
  from assms obtain t s0 p c s1 i s2 now s3 s4 where a:
    "reversible_transaction ?g tid s = Inr (t, s0)" "open_period_currency ?g s0 = Inr ((p, c), s1)"
    "NewID env ''ext'' s1 = Inr (i, s2)" "Now env s2 = Inr (now, s3)"
    "insert_transaction (transaction_row i ?g ''REVERSAL''
      (xr_primary t) (nullable (coalesce_text (xr_counterparty t))) (nullable (coalesce_text (xr_payment t)))
      (- xr_amount t) bookedAt reason [] [] (Some tid) (m_ID m) (Timestamp now)) s3 = Inr ((), s4)"
    "each_tx (reverse_leg env ?g p i (Timestamp now)) (movement_legs ?g tid s4) s4 = Inr ((), s')" "xt_ID x = i"
    unfolding reverseTransactionTx_def Let_def by (auto simp: bind_eq_Inr mapConstraintError_Inr split: prod.splits)
  let ?rv = "transaction_row i ?g ''REVERSAL''
      (xr_primary t) (nullable (coalesce_text (xr_counterparty t))) (nullable (coalesce_text (xr_payment t)))
      (- xr_amount t) bookedAt reason [] [] (Some tid) (m_ID m) (Timestamp now)"
  have s1: "s0 = s" "s1 = s" using access_state(4) [OF a(1)] access_state(3) [OF a(2)] by simp_all
  have s3: "s3 = s\<lparr>random_reads := Suc (random_reads s), clock_reads := Suc (clock_reads s)\<rparr>"
    using a(3,4) s1 by (auto simp: NewID_def Now_def)
  have frame: "transaction_ok (z\<lparr>random_reads := n, clock_reads := k\<rparr>) row = transaction_ok z row" for z n k row
    by (simp add: transaction_ok_def)
  have rv: "transaction_ok s ?rv" "\<forall>y\<in>set (external_transactions s). \<not> transaction_clash y ?rv"
    "s4 = s3\<lparr>external_transactions := external_transactions s3 @ [?rv]\<rparr>"
    using a(5) unfolding insert_transaction_Inr s3 frame by simp_all
  have legs: "movement_legs ?g tid s4 = movement_legs ?g tid s" using rv(3) s3 by (simp add: movement_legs_def)
  have pre: "posts s s4 [] [?rv]" using rv(3) s3 by (simp add: posts_split)
  let ?Q = "\<lambda>leg r. mirrors ?g r leg \<and> le_external_transaction r = Some i \<and> le_payment r = None \<and>
       le_membership r = None \<and> le_external_account r = le_external_account leg"
  have "\<exists>rss. posts s4 s' (concat rss) [] \<and> list_all2 (\<lambda>leg rs. \<exists>r. rs = [r] \<and> ?Q leg r) (movement_legs ?g tid s) rss"
    by (rule each_posts [OF _ a(6) [unfolded legs]]) (drule reverse_leg_effect, blast)
  then obtain rss where rss: "posts s4 s' (concat rss) []"
      "list_all2 (\<lambda>leg rs. \<exists>r. rs = [r] \<and> ?Q leg r) (movement_legs ?g tid s) rss" by blast
  have "posts s s' (concat rss) [?rv]" using posts_trans [OF pre rss(1)] by simp
  then show thesis
    by (rule that [of "concat rss" ?rv t])
      (use reversible_Inr [OF a(1)] rv(1,2) a(7) list_all2_singles [OF rss(2)] in \<open>simp_all add: transaction_row_def\<close>)
qed

section \<open>Payments through an external account\<close>

lemma PostPayment_unlinked:
  "PostPaymentTx env g am pid method amount bookedAt reason ref note p at s = Inr (False, s') \<Longrightarrow> s' = s"
  unfolding PostPaymentTx_def Let_def by (auto simp: bind_eq_Inr split: if_split_asm)

lemma PostPayment_linked:
  assumes "PostPaymentTx env g am pid method amount bookedAt reason ref note p at s = Inr (True, s')" "pid \<noteq> []"
  obtains t r where "posts s s' [r] [t]" "transaction_ok s t" "\<forall>y\<in>set (external_transactions s). \<not> transaction_clash y t"
    "xr_group t = g" "xr_kind t = ''PAYMENT''" "xr_payment t = Some pid" "xr_amount t = amount"
    "le_id r \<noteq> []" "le_group r = g" "le_payment r = Some pid" "le_external_transaction r = Some (xr_id t)"
    "le_external_account r = Some (xr_primary t)" "le_account r = ''EXTERNAL_ACCOUNT''" "le_amount r = amount"
    "le_reversal_of r = None" "le_membership r = None" "le_booking r = None"
proof -
  from assms(1) obtain row :: payment_method_row and s1 i s2 where a:
    "NewID env ''ext'' s = Inr (i, s1)"
    "insert_transaction (transaction_row i g ''PAYMENT'' (coalesce_text (pm_external_account row)) None (Some pid)
        amount bookedAt reason ref note None am at) s1 = Inr ((), s2)"
    "insertExternalLedger env g p (coalesce_text (pm_external_account row)) i pid [] amount reason at s2 = Inr ((), s')"
    unfolding PostPaymentTx_def Let_def by (auto simp: bind_eq_Inr split: if_split_asm)
  let ?a = "coalesce_text (pm_external_account row)"
  let ?t = "transaction_row i g ''PAYMENT'' ?a None (Some pid) amount bookedAt reason ref note None am at"
  have s1: "s1 = s\<lparr>random_reads := Suc (random_reads s)\<rparr>" using a(1) by (simp add: NewID_def)
  have frame: "transaction_ok (z\<lparr>random_reads := n\<rparr>) row = transaction_ok z row" for z n row
    by (simp add: transaction_ok_def)
  have t: "transaction_ok s ?t" "\<forall>y\<in>set (external_transactions s). \<not> transaction_clash y ?t"
    "s2 = s1\<lparr>external_transactions := external_transactions s1 @ [?t]\<rparr>"
    using a(2) unfolding insert_transaction_Inr s1 frame by simp_all
  obtain j where j: "j \<noteq> []" "s' = s2\<lparr>random_reads := Suc (random_reads s2),
      ledger := ledger s2 @ [external_entry j g p ?a i pid [] amount reason at]\<rparr>"
    using insertExternalLedger_Inr [OF a(3)] by metis
  have "posts s s' [external_entry j g p ?a i pid [] amount reason at] [?t]"
    using j(2) t(3) s1 by (simp add: posts_split)
  then show thesis
    by (rule that) (use t(1,2) j(1) assms(2) in \<open>simp_all add: transaction_row_def nullable_def\<close>)
qed

lemma ReversePayment_none:
  "ReversePaymentTx env g au am pid p bookedAt reason at s = Inr (False, s') \<Longrightarrow> s' = s \<and> payment_leg g pid s = None"
  unfolding ReversePaymentTx_def by (auto simp: bind_eq_Inr split: option.splits)

lemma ReversePayment_external:
  assumes "ReversePaymentTx env g au am pid p bookedAt reason at s = Inr (True, s')" "pid \<noteq> []"
  obtains t leg rv r where "payment_leg g pid s = Some (t, leg)" "posts s s' [r] [rv]" "transaction_ok s rv"
    "\<forall>y\<in>set (external_transactions s). \<not> transaction_clash y rv"
    "xr_kind rv = ''REVERSAL''" "xr_group rv = g" "xr_reversal_of rv = Some (xr_id t)" "xr_payment rv = Some pid"
    "le_group r = g" "le_reversal_of r = nullable (le_id leg)" "le_amount r = - xr_amount t" "le_id r \<noteq> []"
    "le_payment r = Some pid" "le_external_account r = Some (xr_primary t)" "le_membership r = None" "le_booking r = None"
    "le_account r = ''EXTERNAL_ACCOUNT''" "le_external_transaction r = Some (xr_id rv)"
proof -
  from assms(1) obtain t leg i s1 s2 s3 where a: "payment_leg g pid s = Some (t, leg)" "NewID env ''ext'' s = Inr (i, s1)"
    "insert_transaction (transaction_row i g ''REVERSAL''
        (xr_primary t) None (Some pid) (- xr_amount t) bookedAt reason [] [] (Some (xr_id t)) am at) s1 = Inr ((), s2)"
    "insertExternalLedger env g p (xr_primary t) i pid (le_id leg) (- xr_amount t) reason at s2 = Inr ((), s3)"
    "restoreDeletedAccountsAfterReversalTx env g au am [xr_primary t] s3 = Inr ((), s')"
    unfolding ReversePaymentTx_def by (auto simp: bind_eq_Inr mapConstraintError_Inr split: option.splits)
  let ?rv = "transaction_row i g ''REVERSAL'' (xr_primary t) None (Some pid) (- xr_amount t) bookedAt reason [] [] (Some (xr_id t)) am at"
  have s1: "s1 = s\<lparr>random_reads := Suc (random_reads s)\<rparr>" using a(2) by (simp add: NewID_def)
  have frame: "transaction_ok (z\<lparr>random_reads := n\<rparr>) row = transaction_ok z row" for z n row
    by (simp add: transaction_ok_def)
  have rv: "transaction_ok s ?rv" "\<forall>y\<in>set (external_transactions s). \<not> transaction_clash y ?rv"
    "s2 = s1\<lparr>external_transactions := external_transactions s1 @ [?rv]\<rparr>"
    using a(3) unfolding insert_transaction_Inr s1 frame by simp_all
  obtain j where j: "j \<noteq> []" "s3 = s2\<lparr>random_reads := Suc (random_reads s2),
      ledger := ledger s2 @ [external_entry j g p (xr_primary t) i pid (le_id leg) (- xr_amount t) reason at]\<rparr>"
    using insertExternalLedger_Inr [OF a(4)] by metis
  let ?r = "external_entry j g p (xr_primary t) i pid (le_id leg) (- xr_amount t) reason at"
  have "posts s s3 [?r] [?rv]" using j(2) rv(3) s1 by (simp add: posts_split)
  then have "posts s s' [?r] [?rv]" using posts_trans posts_keeps [OF keeps_entries(5) a(5)] by fastforce
  then show thesis
    by (rule that [OF a(1)]) (use rv(1,2) j(1) assms(2) in \<open>simp_all add: transaction_row_def nullable_def\<close>)
qed

end
