(* ===== verification/FinanceLaws.thy ===== *)
theory FinanceLaws
  imports Finance BookingLedger PeriodLaws ExternalLaws
begin

text \<open>
  What recording and reversing a payment do to the books: a payment owns two rows that cancel, the credit
  of the payer and the debit of the group cash or of the external account behind the payment method; its
  reversal mirrors them once.
\<close>

section \<open>Frames\<close>

lemma keeps_entries_services [simp, intro]:
  "keeps entries (CreateTx env svc input)" "keeps entries (RebuildPaymentAllocations g m)"
  "keeps entries (insert_attachment pid g att c)"
proof -
  show "keeps entries (CreateTx env svc input)"
    by (rule keepsI) (intro pres_intros; simp add: entries_def)
  show "keeps entries (RebuildPaymentAllocations g m)"
    by (rule keepsI, rule validI, auto dest!: rebuild_result simp: rebuilt_def entries_def)
  show "keeps entries (insert_attachment pid g att c)"
    unfolding insert_attachment_def by (rule keepsI) (intro preserves_insert_row; simp add: entries_def)
qed

lemma payer_Inr:
  assumes "payer g self mid amount s = Inr ((tm, tu), s')"
  shows "s' = s \<and> member_user g mid s = Some (tm, tu) \<and>
    (self \<longrightarrow> ms_status tm = ''ACTIVE'' \<and> ms_deleted_at tm = None) \<and>
    (ms_deleted_at tm \<noteq> None \<longrightarrow> amount \<le> member_balance g mid s)"
  using assms by (auto simp: payer_def bind_eq_Inr not_le not_less split: prod.splits)

lemma payment_reads_state:
  "payment_method_label g method att s = Inr (label, s') \<Longrightarrow> s' = s"
  "effective_reference g self reference s = Inr (ref, s') \<Longrightarrow> s' = s"
  "payment_currency g s = Inr (c, s') \<Longrightarrow> s' = s"
  by (auto simp: payment_method_label_def effective_reference_def payment_currency_def Let_def bind_eq_Inr)

section \<open>Recording\<close>

text \<open>The rows and movements that a payment posts.\<close>

definition payment_row_shape :: "payment_row \<Rightarrow> ledger_row \<Rightarrow> bool" where
  "payment_row_shape p r \<longleftrightarrow> le_group r = py_group p \<and> le_payment r = Some (py_id p) \<and> le_reversal_of r = None \<and>
     le_booking r = None \<and> le_id r \<noteq> []"

definition payment_posting :: "payment_row \<Rightarrow> ledger_row list \<Rightarrow> external_transaction_row list \<Rightarrow> bool" where
  "payment_posting p rows txns \<longleftrightarrow> (\<exists>r0 r1. rows = [r0, r1] \<and> payment_row_shape p r0 \<and> payment_row_shape p r1 \<and>
     le_account r0 = ''MEMBER_RECEIVABLE'' \<and> le_membership r0 = nullable (py_membership p) \<and> le_amount r0 = - py_amount p \<and>
     le_external_account r0 = None \<and> le_external_transaction r0 = None \<and>
     le_membership r1 = None \<and> le_amount r1 = py_amount p \<and>
     (txns = [] \<and> le_account r1 = ''GROUP_CASH'' \<and> le_external_account r1 = None \<and> le_external_transaction r1 = None \<or>
      (\<exists>t. txns = [t] \<and> xr_group t = py_group p \<and> xr_kind t = ''PAYMENT'' \<and> xr_payment t = Some (py_id p) \<and>
         xr_amount t = py_amount p \<and> le_account r1 = ''EXTERNAL_ACCOUNT'' \<and>
         le_external_account r1 = Some (xr_primary t) \<and> le_external_transaction r1 = Some (xr_id t))))"

lemma post_payment_effect:
  assumes run: "post_payment env m input cp pid receivedAt ref now s = Inr (u, s')" and pid: "pid \<noteq> []"
    and p: "py_id p = pid" "py_group p = m_GroupID m" "py_membership p = pi_MembershipID input" "py_amount p = pi_AmountMinor input"
  shows "\<exists>rows txns. posts s s' rows txns \<and> payment_posting p rows txns \<and>
    (\<forall>t\<in>set txns. \<forall>y\<in>set (external_transactions s). \<not> transaction_clash y t)"
proof -
  let ?d = "''Payment received'' @ (if ref \<noteq> [] then '': '' @ ref else [])"
  from run obtain s1 linked s2 where
    a: "insertLedger env (m_GroupID m) cp (pi_MembershipID input) [] [] pid [] ''MEMBER_RECEIVABLE'' (- pi_AmountMinor input) ?d now s = Inr ((), s1)"
    and b: "PostPaymentTx env (m_GroupID m) (m_ID m) pid (pi_Method input) (pi_AmountMinor input) receivedAt ?d ref (pi_Note input) cp now s1
      = Inr (linked, s2)"
    and c: "(if linked then ret () else insertLedger env (m_GroupID m) cp [] [] [] pid [] ''GROUP_CASH'' (pi_AmountMinor input) ?d now) s2 = Inr ((), s')"
    unfolding post_payment_def Let_def by (auto simp: bind_eq_Inr)
  obtain i0 where i0: "s1 = s\<lparr>random_reads := Suc (random_reads s), ledger := ledger s @
      [ledger_entry i0 (m_GroupID m) cp (pi_MembershipID input) [] [] pid [] ''MEMBER_RECEIVABLE'' (- pi_AmountMinor input) ?d now]\<rparr>" "i0 \<noteq> []"
    by (rule insertLedger_Inr [OF a])
  let ?r0 = "ledger_entry i0 (m_GroupID m) cp (pi_MembershipID input) [] [] pid [] ''MEMBER_RECEIVABLE'' (- pi_AmountMinor input) ?d now"
  have p1: "posts s s1 [?r0] []" using i0(1) by (simp add: posts_split)
  show ?thesis
  proof (cases linked)
    case True
    have b': "PostPaymentTx env (m_GroupID m) (m_ID m) pid (pi_Method input) (pi_AmountMinor input) receivedAt ?d ref (pi_Note input) cp now s1
      = Inr (True, s2)" using b True by simp
    obtain t r where e: "posts s1 s2 [r] [t]" "\<forall>y\<in>set (external_transactions s1). \<not> transaction_clash y t"
      "xr_group t = m_GroupID m" "xr_kind t = ''PAYMENT''" "xr_payment t = Some pid" "xr_amount t = pi_AmountMinor input"
      "le_id r \<noteq> []" "le_group r = m_GroupID m" "le_payment r = Some pid" "le_external_transaction r = Some (xr_id t)"
      "le_external_account r = Some (xr_primary t)" "le_account r = ''EXTERNAL_ACCOUNT''" "le_amount r = pi_AmountMinor input"
      "le_reversal_of r = None" "le_membership r = None" "le_booking r = None"
      by (rule PostPayment_linked [OF b' pid])
    have "posts s s' [?r0, r] [t]" using posts_trans [OF p1 e(1)] c True by simp
    moreover have "payment_posting p [?r0, r] [t]"
      unfolding payment_posting_def payment_row_shape_def
      by (intro exI [of _ ?r0] exI [of _ r]) (use e(3-) i0(2) p pid in \<open>simp add: nullable_def\<close>)
    moreover have "external_transactions s1 = external_transactions s" using p1 by (simp add: posts_split)
    ultimately show ?thesis using e(2) by (intro exI [of _ "[?r0, r]"] exI [of _ "[t]"]) simp
  next
    case False
    have b': "PostPaymentTx env (m_GroupID m) (m_ID m) pid (pi_Method input) (pi_AmountMinor input) receivedAt ?d ref (pi_Note input) cp now s1
      = Inr (False, s2)" using b False by simp
    have s2: "s2 = s1" by (rule PostPayment_unlinked [OF b'])
    have c': "insertLedger env (m_GroupID m) cp [] [] [] pid [] ''GROUP_CASH'' (pi_AmountMinor input) ?d now s1 = Inr ((), s')"
      using c False s2 by simp
    obtain i1 where i1: "s' = s1\<lparr>random_reads := Suc (random_reads s1), ledger := ledger s1 @
        [ledger_entry i1 (m_GroupID m) cp [] [] [] pid [] ''GROUP_CASH'' (pi_AmountMinor input) ?d now]\<rparr>" "i1 \<noteq> []"
      by (rule insertLedger_Inr [OF c'])
    let ?r1 = "ledger_entry i1 (m_GroupID m) cp [] [] [] pid [] ''GROUP_CASH'' (pi_AmountMinor input) ?d now"
    have "posts s1 s' [?r1] []" using i1(1) by (simp add: posts_split)
    then have "posts s s' [?r0, ?r1] []" using posts_trans [OF p1] by fastforce
    moreover have "payment_posting p [?r0, ?r1] []"
      unfolding payment_posting_def payment_row_shape_def
      by (intro exI [of _ ?r0] exI [of _ ?r1]) (use i0(2) i1(2) p pid in \<open>simp add: nullable_def\<close>)
    ultimately show ?thesis by (intro exI [of _ "[?r0, ?r1]"] exI [of _ "[]"]) simp
  qed
qed

lemma insert_payment_Inr:
  "insert_payment p s = Inr (u, s') \<Longrightarrow> s' = s\<lparr>payments := payments s @ [p]\<rparr> \<and> 0 < py_amount p \<and>
     (\<forall>y\<in>set (payments s). py_id y \<noteq> py_id p)"
  by (auto simp: insert_payment_def insert_row_Inr)

lemma payment_row_of_sel [simp]:
  "py_id (payment_row_of pid g input r l ref c now) = pid" "py_group (payment_row_of pid g input r l ref c now) = g"
  "py_membership (payment_row_of pid g input r l ref c now) = pi_MembershipID input"
  "py_amount (payment_row_of pid g input r l ref c now) = pi_AmountMinor input"
  "py_reversed_at (payment_row_of pid g input r l ref c now) = None"
  by (simp_all add: payment_row_of_def)

lemma posts_entries_eq: "entries s' = entries s \<Longrightarrow> posts s' s'' = posts s s''"
  unfolding posts_def entries_def by (rule ext)+ simp

lemma record_payment_effect:
  assumes run: "record_payment env svc actor m input receivedTime att self s = Inr ((x, nowTime), s')"
  obtains p rows txns tm tu where "posts (s\<lparr>payments := payments s @ [p]\<rparr>) s' rows txns" "payment_posting p rows txns"
    "\<forall>t\<in>set txns. \<forall>y\<in>set (external_transactions s). \<not> transaction_clash y t"
    "py_id p = p_ID x" "py_id p \<noteq> []" "py_group p = m_GroupID m" "py_membership p = pi_MembershipID input"
    "py_amount p = pi_AmountMinor input" "0 < py_amount p" "py_reversed_at p = None" "\<forall>y\<in>set (payments s). py_id y \<noteq> py_id p"
    "payer (m_GroupID m) self (pi_MembershipID input) (pi_AmountMinor input) s = Inr ((tm, tu), s)"
    "p_AmountMinor x = pi_AmountMinor input" "p_MembershipID x = pi_MembershipID input"
proof -
  let ?g = "m_GroupID m"
  from run obtain label s1 ref s2 tm tu s3 currency s4 cp s5 pid s6 now s7 s8 s9 s10 s11 al s12 s13 where a:
    "payment_method_label ?g (pi_Method input) att s = Inr (label, s1)"
    "effective_reference ?g self (pi_Reference input) s1 = Inr (ref, s2)"
    "payer ?g self (pi_MembershipID input) (pi_AmountMinor input) s2 = Inr ((tm, tu), s3)"
    "payment_currency ?g s3 = Inr (currency, s4)" "open_period ?g s4 = Inr (cp, s5)" "NewID env ''pay'' s5 = Inr (pid, s6)"
    "Now env s6 = Inr (now, s7)"
    "insert_payment (payment_row_of pid ?g input (Timestamp receivedTime) label ref (m_ID m) (Timestamp now)) s7 = Inr ((), s8)"
    "post_payment env m input cp pid (Timestamp receivedTime) ref (Timestamp now) s8 = Inr ((), s9)"
    "RebuildPaymentAllocations ?g (pi_MembershipID input) s9 = Inr ((), s10)"
    "(case att of None \<Rightarrow> ret () | Some a \<Rightarrow> insert_attachment pid ?g a (m_ID m)) s10 = Inr ((), s11)"
    "(if \<not> self \<and> m_ID m \<noteq> pi_MembershipID input \<and> displayed_status tm \<noteq> ''DELETED''
        then tx_bind (CreateTx env svc (recorded_notice m input currency pid (Timestamp now))) (\<lambda>_. ret ())
        else ret ()) s11 = Inr ((), s12)"
    "Record env ?g (UserID actor) (m_ID m) ''payment.created'' ''payment'' pid
      [(''membershipId'', AText (pi_MembershipID input)), (''amountMinor'', ANumber (pi_AmountMinor input)),
       (''source'', AText (if self then ''SELF_SERVICE'' else ''FINANCE_WORKSPACE''))] s12 = Inr ((), s')"
    "x = payment_of m input pid tm tu currency (Timestamp receivedTime) label ref al att"
    unfolding record_payment_def Let_def by (simp only: bind_eq_Inr) (elim exE conjE, clarsimp simp: bind_eq_Inr split: prod.splits)
  let ?p = "payment_row_of pid ?g input (Timestamp receivedTime) label ref (m_ID m) (Timestamp now)"
  have s: "s2 = s" "s3 = s" "s4 = s" "s5 = s"
    using payment_reads_state(1) [OF a(1)] payment_reads_state(2) [OF a(2)] payment_reads_state(3) [OF a(4)]
      payer_Inr [OF a(3)] access_state(5) [OF a(5)] by blast+
  have s7: "entries s7 = entries s" "pid \<noteq> []" using a(6,7) s by (auto simp: NewID_def Now_def)
  note ins = insert_payment_Inr [OF a(8)]
  have s8: "entries s8 = entries (s\<lparr>payments := payments s @ [?p]\<rparr>)"
    using ins s7(1) by (simp add: entries_def)
  obtain rows txns where e: "posts s8 s9 rows txns" "payment_posting ?p rows txns"
    "\<forall>t\<in>set txns. \<forall>y\<in>set (external_transactions s8). \<not> transaction_clash y t"
    using post_payment_effect [OF a(9) s7(2), of ?p] by auto
  have "entries s10 = entries s9" by (rule keepsD [OF keeps_entries_services(2) a(10)])
  moreover have "entries s11 = entries s10"
    using a(11) keepsD [OF keeps_entries_services(3)] by (cases att) auto
  moreover have "entries s12 = entries s11"
    using a(12) keepsD [OF keeps_entries_services(1)] by (auto simp: bind_eq_Inr split: if_split_asm)
  moreover have "entries s' = entries s12" by (rule keepsD [OF keeps_entries(3) a(13)])
  ultimately have "posts s9 s' [] []" by (intro posts_entries) simp
  then have "posts s8 s' rows txns" using posts_trans [OF e(1)] by fastforce
  then have "posts (s\<lparr>payments := payments s @ [?p]\<rparr>) s' rows txns" unfolding posts_entries_eq [OF s8] .
  then show thesis
    by (rule that [OF _ e(2)]) (use e(3) s8 ins s7 s a(3,14) in \<open>simp_all add: payment_of_def entries_def\<close>)
qed

section \<open>Reversing\<close>

lemma reversed_row_sel [simp]:
  "py_id (reversed_row now mid reason p) = py_id p" "py_group (reversed_row now mid reason p) = py_group p"
  "py_membership (reversed_row now mid reason p) = py_membership p" "py_amount (reversed_row now mid reason p) = py_amount p"
  "py_reversed_at (reversed_row now mid reason p) = Some now"
  by (simp_all add: reversed_row_def)

lemma payment_to_reverse_Inr:
  "payment_to_reverse g pid s = Inr ((p, currency, tm), s') \<Longrightarrow> s' = s \<and> p \<in> set (payments s) \<and> py_id p = pid \<and> py_group p = g \<and>
     py_reversed_at p = None"
  by (auto simp: payment_to_reverse_def bind_eq_Inr dest!: first_row_Some split: option.splits prod.splits)

lemma mark_reversed_Inr:
  "mark_reversed pid now mid reason s = Inr (u, s') \<Longrightarrow>
     s' = s\<lparr>payments := update_rows (\<lambda>p. py_id p = pid \<and> py_reversed_at p = None) (reversed_row now mid reason) (payments s)\<rparr>"
  unfolding mark_reversed_def by (auto simp: bind_eq_Inr table_fields(4) [symmetric])

text \<open>The mirrored row of one payment row.\<close>

definition payment_mirror :: "string \<Rightarrow> string \<Rightarrow> ledger_row \<Rightarrow> ledger_row \<Rightarrow> bool" where
  "payment_mirror g pid leg r \<longleftrightarrow> mirrors g r leg \<and> le_payment r = Some pid \<and> le_account r = le_account leg \<and>
     le_membership r = nullable (coalesce_text (le_membership leg)) \<and> le_external_account r = None \<and> le_external_transaction r = None"

lemma reverse_payment_row_effect:
  assumes "reverse_payment_row env g cp pid ext now e s = Inr (u, s')" "pid \<noteq> []"
  shows "\<exists>rs. posts s s' rs [] \<and> (if ext \<and> le_account e = ''EXTERNAL_ACCOUNT'' then rs = [] else \<exists>r. rs = [r] \<and> payment_mirror g pid e r)"
proof (cases "ext \<and> le_account e = ''EXTERNAL_ACCOUNT''")
  case True
  then have "s' = s" using assms(1) unfolding reverse_payment_row_def by simp
  then show ?thesis unfolding if_P [OF True] by (intro exI [of _ "[]"]) simp
next
  case False
  let ?r = "\<lambda>i. ledger_entry i g cp (coalesce_text (le_membership e)) [] [] pid (le_id e) (le_account e) (- le_amount e)
    (''Reversal: '' @ le_description e) now"
  have run: "insertLedger env g cp (coalesce_text (le_membership e)) [] [] pid (le_id e) (le_account e) (- le_amount e)
    (''Reversal: '' @ le_description e) now s = Inr (u, s')"
    using assms(1) unfolding reverse_payment_row_def if_not_P [OF False] .
  obtain i where i: "s' = s\<lparr>random_reads := Suc (random_reads s), ledger := ledger s @ [?r i]\<rparr>" "i \<noteq> []"
    by (rule insertLedger_Inr [OF run])
  have "posts s s' [?r i] []" using i(1) by (simp add: posts_split)
  moreover have "payment_mirror g pid e (?r i)"
    unfolding payment_mirror_def mirrors_def using i(2) assms(2) by (simp add: nullable_def)
  ultimately show ?thesis unfolding if_not_P [OF False] by (intro exI [of _ "[?r i]"]) simp
qed

text \<open>What the loop mirrors: everything but the leg the external account has already mirrored.\<close>

lemma mirrored_rows:
  "list_all2 (\<lambda>e rs. if ext \<and> le_account e = ''EXTERNAL_ACCOUNT'' then rs = [] else \<exists>r. rs = [r] \<and> Q e r) es rss \<Longrightarrow>
     list_all2 Q (filter (\<lambda>e. \<not> (ext \<and> le_account e = ''EXTERNAL_ACCOUNT'')) es) (concat rss)"
  by (induction rule: list_all2_induct) (auto split: if_split_asm)

text \<open>What the external account contributes to a reversal: nothing, or the mirrored leg of the payment's own movement.\<close>

definition external_part :: "string \<Rightarrow> string \<Rightarrow> db \<Rightarrow> bool \<Rightarrow> ledger_row list \<Rightarrow> external_transaction_row list \<Rightarrow> bool" where
  "external_part g pid s ext rows txns \<longleftrightarrow>
     (if \<not> ext then payment_leg g pid s = None \<and> rows = [] \<and> txns = []
      else \<exists>t leg r rv. payment_leg g pid s = Some (t, leg) \<and> rows = [r] \<and> txns = [rv] \<and> xr_kind rv = ''REVERSAL'' \<and>
        (\<forall>y\<in>set (external_transactions s). \<not> transaction_clash y rv) \<and>
        le_group r = g \<and> le_reversal_of r = Some (le_id leg) \<and> le_amount r = - xr_amount t \<and> le_id r \<noteq> [] \<and>
        le_payment r = Some pid \<and> le_membership r = None \<and> le_booking r = None \<and> le_account r = ''EXTERNAL_ACCOUNT'')"

lemma payment_leg_Some:
  assumes "payment_leg g pid s = Some (t, leg)"
  shows "t \<in> set (external_transactions s) \<and> xr_group t = g \<and> xr_payment t = Some pid \<and> xr_kind t = ''PAYMENT'' \<and>
    leg \<in> set (ledger s) \<and> le_group leg = g \<and> le_external_transaction leg = Some (xr_id t)"
  using assms unfolding payment_leg_def by (auto dest!: first_row_Some)

lemma payment_leg_cong:
  "ledger s' = ledger s \<Longrightarrow> external_transactions s' = external_transactions s \<Longrightarrow> payment_leg g pid s' = payment_leg g pid s"
  by (simp add: payment_leg_def)

lemma external_part_exists:
  assumes run: "ReversePaymentTx env g au am pid p bookedAt reason at s = Inr (ext, s')" and pid: "pid \<noteq> []"
    and ids: "\<forall>r\<in>set (ledger s). le_id r \<noteq> []"
  shows "\<exists>rows txns. posts s s' rows txns \<and> external_part g pid s ext rows txns"
proof (cases ext)
  case False
  have "ReversePaymentTx env g au am pid p bookedAt reason at s = Inr (False, s')" using run False by simp
  then have "s' = s" "payment_leg g pid s = None" using ReversePayment_none by blast+
  then show ?thesis using False by (intro exI [of _ "[]"]) (simp add: external_part_def)
next
  case True
  have "ReversePaymentTx env g au am pid p bookedAt reason at s = Inr (True, s')" using run True by simp
  then obtain t leg rv r where e: "payment_leg g pid s = Some (t, leg)" "posts s s' [r] [rv]"
    "\<forall>y\<in>set (external_transactions s). \<not> transaction_clash y rv" "xr_kind rv = ''REVERSAL''"
    "le_group r = g" "le_reversal_of r = nullable (le_id leg)" "le_amount r = - xr_amount t" "le_id r \<noteq> []"
    "le_payment r = Some pid" "le_membership r = None" "le_booking r = None" "le_account r = ''EXTERNAL_ACCOUNT''"
    by (rule ReversePayment_external [OF _ pid])
  have "le_id leg \<noteq> []" using payment_leg_Some [OF e(1)] ids by blast
  then have "external_part g pid s ext [r] [rv]"
    using True e by (simp add: external_part_def nullable_def)
  then show ?thesis using e(2) by blast
qed

lemma reverse_payment_effect:
  assumes run: "reverse_payment_body env svc actor m pid reason s = Inr (u, s')"
    and ids: "\<forall>r\<in>set (ledger s). le_id r \<noteq> []" "\<forall>p\<in>set (payments s). py_id p \<noteq> []"
  obtains p now ext xrows txns rows where
    "posts (s\<lparr>payments := update_rows (\<lambda>p. py_id p = pid \<and> py_reversed_at p = None) (reversed_row now (m_ID m) reason) (payments s)\<rparr>)
       s' (xrows @ rows) txns"
    "p \<in> set (payments s)" "py_id p = pid" "py_group p = m_GroupID m" "py_reversed_at p = None"
    "external_part (m_GroupID m) pid s ext xrows txns"
    "list_all2 (payment_mirror (m_GroupID m) pid)
       (filter (\<lambda>e. \<not> (ext \<and> le_account e = ''EXTERNAL_ACCOUNT'')) (payment_rows (m_GroupID m) pid s)) rows"
proof -
  let ?g = "m_GroupID m"
  from run obtain p currency tm s1 cp s2 now s3 s4 ext s5 s6 s7 s8 where a:
    "payment_to_reverse ?g pid s = Inr ((p, currency, tm), s1)" "open_period ?g s1 = Inr (cp, s2)" "Now env s2 = Inr (now, s3)"
    "mark_reversed pid (Timestamp now) (m_ID m) reason s3 = Inr ((), s4)"
    "ReversePaymentTx env ?g (UserID actor) (m_ID m) pid cp (Timestamp now) reason (Timestamp now) s4 = Inr (ext, s5)"
    "each_tx (reverse_payment_row env ?g cp pid ext (Timestamp now)) (payment_rows ?g pid s5) s5 = Inr ((), s6)"
    "RebuildPaymentAllocations ?g (py_membership p) s6 = Inr ((), s7)"
    "(if m_ID m \<noteq> py_membership p \<and> ms_deleted_at tm = None
        then tx_bind (CreateTx env svc (payment_reversed_notice m (py_membership p) (py_amount p) currency pid (Timestamp now))) (\<lambda>_. ret ())
        else ret ()) s7 = Inr ((), s8)"
    "Record env ?g (UserID actor) (m_ID m) ''payment.reversed'' ''payment'' pid [(''reason'', AText reason)] s8 = Inr ((), s')"
    unfolding reverse_payment_body_def Let_def
    by (simp only: bind_eq_Inr) (elim exE conjE, clarsimp simp: bind_eq_Inr split: prod.splits)
  let ?s0 = "s\<lparr>payments := update_rows (\<lambda>p. py_id p = pid \<and> py_reversed_at p = None) (reversed_row (Timestamp now) (m_ID m) reason) (payments s)\<rparr>"
  note p = payment_to_reverse_Inr [OF a(1)]
  have s2: "s2 = s" using p access_state(5) [OF a(2)] by simp
  have s3: "s3 = s\<lparr>clock_reads := Suc (clock_reads s)\<rparr>" using a(3) s2 by (simp add: Now_def)
  have s4: "entries s4 = entries ?s0" using mark_reversed_Inr [OF a(4)] s3 by (simp add: entries_def)
  then have led: "ledger s4 = ledger s" "external_transactions s4 = external_transactions s" by (simp_all add: entries_def)
  have pid: "pid \<noteq> []" using p ids(2) by blast
  have "\<forall>r\<in>set (ledger s4). le_id r \<noteq> []" using ids(1) led(1) by simp
  then obtain xrows txns where x: "posts s4 s5 xrows txns" "external_part ?g pid s4 ext xrows txns"
    using external_part_exists [OF a(5) pid] by blast
  have xpart: "external_part ?g pid s ext xrows txns"
    using x(2) unfolding external_part_def payment_leg_cong [OF led] led .
  have "le_reversal_of r \<noteq> None" if "r \<in> set xrows" for r
    using xpart that by (auto simp: external_part_def split: if_split_asm)
  then have own: "payment_rows ?g pid s5 = payment_rows ?g pid s"
    using x(1) led by (auto simp: payment_rows_def posts_split filter_empty_conv)
  have "\<exists>rss. posts s5 s6 (concat rss) [] \<and> list_all2 (\<lambda>e rs. if ext \<and> le_account e = ''EXTERNAL_ACCOUNT'' then rs = []
      else \<exists>r. rs = [r] \<and> payment_mirror ?g pid e r) (payment_rows ?g pid s) rss"
    by (rule each_posts [OF _ a(6) [unfolded own]]) (rule reverse_payment_row_effect [OF _ pid])
  then obtain rss where rss: "posts s5 s6 (concat rss) []" "list_all2 (payment_mirror ?g pid)
       (filter (\<lambda>e. \<not> (ext \<and> le_account e = ''EXTERNAL_ACCOUNT'')) (payment_rows ?g pid s)) (concat rss)"
    using mirrored_rows by blast
  have "entries s7 = entries s6" by (rule keepsD [OF keeps_entries_services(2) a(7)])
  moreover have "entries s8 = entries s7"
    using a(8) keepsD [OF keeps_entries_services(1)] by (auto simp: bind_eq_Inr split: if_split_asm)
  moreover have "entries s' = entries s8" by (rule keepsD [OF keeps_entries(3) a(9)])
  ultimately have "posts s6 s' [] []" by (intro posts_entries) simp
  then have "posts s4 s' (xrows @ concat rss) txns" using posts_trans [OF posts_trans [OF x(1) rss(1)]] by fastforce
  then have "posts ?s0 s' (xrows @ concat rss) txns" unfolding posts_entries_eq [OF s4] .
  then show thesis by (rule that [OF _ _ _ _ _ xpart rss(2)]) (use p in blast)+
qed

section \<open>Payments credit the payer\<close>

lemma payment_input_ok:
  "payment_input_error i = None \<Longrightarrow> 0 < pi_AmountMinor i \<and> pi_AmountMinor i \<le> 100000000000"
  by (auto simp: payment_input_error_def split: if_split_asm)

lemma trim_payment_sel [simp]:
  "pi_AmountMinor (trim_payment i) = pi_AmountMinor i" "pi_MembershipID (trim_payment i) = TrimSpace (pi_MembershipID i)"
  by (simp_all add: trim_payment_def)

lemma prepare_payment_Inr:
  assumes "prepare_payment env key input s = Inr ((i, at), s1)"
  shows "i = trim_payment input \<and> payment_input_error i = None \<and> s1 = s\<lparr>clock_reads := Suc (clock_reads s)\<rparr>"
  using assms unfolding prepare_payment_def Let_def
  by (auto simp: bind_eq_Inr Now_def split: option.splits if_split_asm)

text \<open>A run under a key that was not used before.\<close>

lemma createPayment_new:
  assumes run: "createPayment env svc actor m key input upload self s = (Inr x, s')"
    and new: "\<forall>r\<in>set (idempotency s). \<not> (ir_group r = m_GroupID m \<and> ir_user r = UserID actor \<and>
      ir_key r = (if self then ''self:'' @ key else key))"
  obtains receivedTime att now s1 s2 where "record_payment env svc actor m (trim_payment input) receivedTime att self s1 = Inr ((x, now), s2)"
    "payment_input_error (trim_payment input) = None" "s1 = s\<lparr>clock_reads := Suc (clock_reads s)\<rparr>" "books s' = books s2"
    "Can s1 (m_GroupID m) (m_ID m) (if self then ''RECORD_OWN_PAYMENT'' else ''FINANCE_MANAGEMENT'') (group_resource m) = Inr True"
    "\<exists>h. store_result (m_GroupID m) (UserID actor) (if self then ''self:'' @ key else key) h (RespPayment x) now s2 = Inr ((), s')"
proof -
  let ?k = "if self then ''self:'' @ key else key"
  obtain i at s1 where p0: "prepare_payment env key input s = Inr ((i, at), s1)"
  proof (cases "prepare_payment env key input s")
    case (Inl e)
    then show thesis using run by (simp add: createPayment_def)
  next
    case (Inr b)
    then show thesis using that by (cases b) auto
  qed
  note pp = prepare_payment_Inr [OF p0]
  have p: "prepare_payment env key input s = Inr ((trim_payment input, at), s1)" and ok: "payment_input_error (trim_payment input) = None"
    using p0 pp by auto
  define k where "k = ?k"
  have tx: "\<exists>att. create_payment_tx env svc actor m k (trim_payment input) at att self s1 = Inr (x, s')"
  proof -
    have fin: "create_payment_tx env svc actor m k (trim_payment input) at att self s1 = Inr (x, s')"
      if "WithTx (create_payment_tx env svc actor m k (trim_payment input) at att self) s1 = (Inr x, s')" for att
      using that by (auto simp: WithTx_def split: sum.splits prod.splits)
    note run' = run [unfolded createPayment_def Let_def, folded k_def]
    show ?thesis
    proof (cases upload)
      case None
      then show ?thesis using run' p fin by auto
    next
      case (Some r)
      then show ?thesis using run' p fin by (cases r) auto
    qed
  qed
  then obtain att where tx: "create_payment_tx env svc actor m k (trim_payment input) at att self s1 = Inr (x, s')" ..
  have load: "Load (m_GroupID m) (UserID actor) k h s1 = Inr (None, s1)" for h
    using new pp unfolding k_def [symmetric] by (simp only: Load_None) simp
  let ?h = "Hash env (ReqCreatePayment (trim_payment input) (case att of None \<Rightarrow> [] | Some a \<Rightarrow> sa_SHA256 a))"
  from tx obtain now s2 where a:
    "Can s1 (m_GroupID m) (m_ID m) (if self then ''RECORD_OWN_PAYMENT'' else ''FINANCE_MANAGEMENT'') (group_resource m) = Inr True"
    "record_payment env svc actor m (trim_payment input) at att self s1 = Inr ((x, now), s2)"
    "store_result (m_GroupID m) (UserID actor) k ?h (RespPayment x) now s2 = Inr ((), s')"
    unfolding create_payment_tx_def Let_def
    by (auto simp: bind_eq_Inr requirePermission_Inr load split: prod.splits)
  have stored: "\<exists>h. store_result (m_GroupID m) (UserID actor) ?k h (RespPayment x) now s2 = Inr ((), s')"
    using a(3) unfolding k_def by blast
  show thesis
    by (rule that [OF a(2) ok _ keepsD [OF keeps_books_store a(3)] a(1) stored]) (use pp in blast)
qed

lemma payment_posting_sums:
  assumes "payment_posting p rows txns"
  shows "length rows = 2" "sum_list (map le_amount rows) = 0"
    "x \<noteq> [] \<Longrightarrow> rows_sum (member_row g x) rows = (if g = py_group p \<and> x = py_membership p then - py_amount p else 0)"
proof -
  from assms obtain r0 r1 where r: "rows = [r0, r1]" "le_group r0 = py_group p" "le_account r0 = ''MEMBER_RECEIVABLE''"
    "le_membership r0 = nullable (py_membership p)" "le_amount r0 = - py_amount p" "le_membership r1 = None" "le_amount r1 = py_amount p"
    unfolding payment_posting_def payment_row_shape_def by blast
  show "length rows = 2" "sum_list (map le_amount rows) = 0" using r by simp_all
  show "x \<noteq> [] \<Longrightarrow> rows_sum (member_row g x) rows = (if g = py_group p \<and> x = py_membership p then - py_amount p else 0)"
    using r by (auto simp: member_row_def)
qed

text \<open>C6. A payment recorded under a fresh key, by a finance manager or by the member itself, credits exactly
  the payer: one payment is stored with the requested positive amount, two rows that cancel are appended, the
  payer's balance falls by the amount and every other balance stays, bookings and periods are untouched,
  and the account of a deleted member is never driven below zero.\<close>

theorem createPayment_credits_payer:
  assumes run: "createPayment env svc actor m key input upload self s = (Inr x, s')"
    and new: "\<forall>r\<in>set (idempotency s). \<not> (ir_group r = m_GroupID m \<and> ir_user r = UserID actor \<and>
      ir_key r = (if self then ''self:'' @ key else key))"
  shows "\<exists>p rows tm tu. payments s' = payments s @ [p] \<and> py_id p = p_ID x \<and> py_group p = m_GroupID m \<and>
    py_membership p = TrimSpace (pi_MembershipID input) \<and> py_amount p = pi_AmountMinor input \<and> 0 < py_amount p \<and>
    py_amount p \<le> 100000000000 \<and> ledger s' = ledger s @ rows \<and> length rows = 2 \<and> sum_list (map le_amount rows) = 0 \<and>
    bookings s' = bookings s \<and> periods s' = periods s \<and>
    (\<forall>g y. y \<noteq> [] \<longrightarrow> member_balance g y s' =
       member_balance g y s - (if g = m_GroupID m \<and> y = py_membership p then py_amount p else 0)) \<and>
    member_user (m_GroupID m) (py_membership p) s = Some (tm, tu) \<and>
    (self \<longrightarrow> ms_status tm = ''ACTIVE'' \<and> ms_deleted_at tm = None) \<and>
    (ms_deleted_at tm \<noteq> None \<and> py_membership p \<noteq> [] \<longrightarrow> 0 \<le> member_balance (m_GroupID m) (py_membership p) s')"
  using run new
proof (rule createPayment_new)
  fix at att now s1 s2
  assume rec: "record_payment env svc actor m (trim_payment input) at att self s1 = Inr ((x, now), s2)"
    and ok: "payment_input_error (trim_payment input) = None" and s1: "s1 = s\<lparr>clock_reads := Suc (clock_reads s)\<rparr>"
    and s': "books s' = books s2"
  note amount = payment_input_ok [OF ok]
  from rec show ?thesis
  proof (rule record_payment_effect)
    fix p rows txns tm tu
    assume e: "posts (s1\<lparr>payments := payments s1 @ [p]\<rparr>) s2 rows txns" "payment_posting p rows txns" "py_id p = p_ID x"
      "py_group p = m_GroupID m" "py_membership p = pi_MembershipID (trim_payment input)" "py_amount p = pi_AmountMinor (trim_payment input)"
      "payer (m_GroupID m) self (pi_MembershipID (trim_payment input)) (pi_AmountMinor (trim_payment input)) s1 = Inr ((tm, tu), s1)"
    note sums = payment_posting_sums [OF e(2)]
    have led: "ledger s' = ledger s @ rows" and rest: "payments s' = payments s @ [p]" "bookings s' = bookings s" "periods s' = periods s"
      using e(1) s' s1 by (simp_all add: posts_split books_split static_def)
    have bal: "member_balance g y s' = member_balance g y s - (if g = m_GroupID m \<and> y = py_membership p then py_amount p else 0)"
      if "y \<noteq> []" for g y
      using member_balance_append [OF led, of g y] sums(3) [OF that, of g] e(4) by simp
    have eq: "member_user g y s1 = member_user g y s" "member_balance g y s1 = member_balance g y s" for g y
      by (simp_all add: s1 member_user_def member_balance_def ledger_sum_def split: option.split)
    have pm: "pi_MembershipID (trim_payment input) = py_membership p" "pi_AmountMinor (trim_payment input) = py_amount p"
      using e(5,6) by simp_all
    note py = payer_Inr [OF e(7), unfolded eq pm]
    show ?thesis
      by (intro exI [of _ p] exI [of _ rows] exI [of _ tm] exI [of _ tu] conjI allI impI bal)
        (use led rest sums(1,2) e(3-6) amount py bal in \<open>auto\<close>)
  qed
qed

text \<open>A deleted member of the shop settles part of its open balance.\<close>

definition cashier :: db where
  "cashier = shop\<lparr>
     grants := [\<lparr>gt_group = ''g'', gt_role = ''r'', gt_permission = ''FINANCE_MANAGEMENT'', gt_scope = ''GROUP'', gt_category = None,
         gt_product = None\<rparr>],
     memberships := [\<lparr>ms_id = ''m'', ms_group = ''g'', ms_user = ''u'', ms_status = ''ACTIVE'', ms_guest_key = None,
         ms_deleted_at = None\<rparr>,
       \<lparr>ms_id = ''n'', ms_group = ''g'', ms_user = ''w'', ms_status = ''ACTIVE'', ms_guest_key = None, ms_deleted_at = Some ''2025''\<rparr>],
     bookings := [coffee_row\<lparr>bk_period := ''p''\<rparr>],
     ledger := [charge_row ''1'' (coffee_row\<lparr>bk_period := ''p''\<rparr>) ''k'', revenue_row ''2'' (coffee_row\<lparr>bk_period := ''p''\<rparr>) ''k''],
     payment_methods := [\<lparr>pm_group = ''g'', pm_id = ''c'', pm_label = ''C'', pm_sort_order = 0, pm_attachment_mode = ''OFF'',
       pm_external_account = None\<rparr>]\<rparr>"

definition two_euro :: create_payment_input where
  "two_euro = \<lparr>pi_MembershipID = ''n'', pi_AmountMinor = 200, pi_ReceivedAt = [], pi_Method = ''c'', pi_Reference = [], pi_Note = []\<rparr>"

definition paid_coffee :: "payment result \<times> db" where
  "paid_coffee = createPayment fixed_env mail_only \<lparr>UserID = ''u''\<rparr> uta ''key-0005'' two_euro None False cashier"

theorem createPayment_credits_payer_witness:
  "member_balance ''g'' ''n'' cashier = 300 \<and> member_balance ''g'' ''n'' (snd paid_coffee) = 100"
proof -
  have "\<not> isl (fst paid_coffee)"
    by code_simp
  then obtain x where ok: "paid_coffee = (Inr x, snd paid_coffee)"
    using outcome_Inr by blast
  have run: "createPayment fixed_env mail_only \<lparr>UserID = ''u''\<rparr> uta ''key-0005'' two_euro None False cashier = (Inr x, snd paid_coffee)"
    unfolding paid_coffee_def [symmetric] by (rule ok)
  have "TrimSpace (pi_MembershipID two_euro) = ''n''" "member_balance ''g'' ''n'' cashier = 300"
    by code_simp+
  moreover have "idempotency cashier = []" "pi_AmountMinor two_euro = 200" "m_GroupID uta = ''g''"
    by (simp_all add: cashier_def shop_def empty_db_def two_euro_def uta_def)
  ultimately show ?thesis
    using createPayment_credits_payer [OF run] by auto
qed

end
