(* ===== verification/Journal.thy ===== *)
theory Journal
  imports FinanceLaws
begin

text \<open>
  The books as a state machine. Seven bodies post to the books (booking, reversing a booking, closing a
  period, recording and reversing a payment, making and reversing a movement); every command runs at
  most these and otherwise touches other tables. \<open>book_invariant\<close> states what an invariant has to
  satisfy for the seven bodies and concludes that every transaction of every command keeps it.
  \<open>step\<close> lets the transactions of all commands interleave, each with inputs prepared at any earlier
  state, together with arbitrary changes of the other tables; \<open>reachable\<close> is its closure.
\<close>

section \<open>The books\<close>

definition core :: "db \<Rightarrow> _" where
  "core s = (ledger s, external_transactions s, payments s, bookings s, periods s)"

lemma core_frame [simp]:
  "core (s\<lparr>clock_reads := n\<rparr>) = core s" "core (s\<lparr>random_reads := n\<rparr>) = core s" "core (s\<lparr>audit := as\<rparr>) = core s"
  "core (s\<lparr>idempotency := is\<rparr>) = core s" "core (s\<lparr>users := us\<rparr>) = core s" "core (s\<lparr>memberships := ms\<rparr>) = core s"
  "core (s\<lparr>preference_settings := ps, channels := cs\<rparr>) = core s" "core (s\<lparr>settings := ss\<rparr>) = core s"
  "core (s\<lparr>external_accounts := es\<rparr>) = core s" "core (s\<lparr>payment_methods := pm\<rparr>) = core s"
  "core (s\<lparr>attachments := at\<rparr>) = core s" "core (s\<lparr>transaction_attachments := ta\<rparr>) = core s"
  by (simp_all add: core_def)

lemma keeps_core_services [simp, intro]:
  "keeps core (Store env g u k h c v)" "keeps core (Record env g u mid a t i md)" "keeps core (Now env)" "keeps core (NewID env p)"
  "keeps core (RebuildPaymentAllocations g mid)" "keeps core (store_result g u k h v now)"
proof -
  show "keeps core (RebuildPaymentAllocations g mid)"
    by (rule keepsI, rule validI, auto dest!: rebuild_result simp: rebuilt_def core_def)
  have ins: "keeps core (insert_idempotency row)" for row
    unfolding insert_idempotency_def by (rule keepsI) (intro preserves_insert_row; simp)
  then show "keeps core (store_result g u k h v now)"
    unfolding store_result_def by blast
qed (rule keepsI; intro pres_intros; simp)+

lemma keeps_core_guests [simp, intro]: "keeps core (create_guests env actor m names now)"
  unfolding create_guests_def by (rule keepsI) (intro pres_intros; simp)

text \<open>Closing a period touches the period rows and tables outside the books only.\<close>

lemma preserves_close_period:
  assumes frame: "\<And>s s'. core s' = core s \<Longrightarrow> P s \<Longrightarrow> P s'" and period: "\<And>s ps. P s \<Longrightarrow> P (s\<lparr>periods := ps\<rparr>)"
  shows "preserves P (close_period env svc actor m pid ci due)"
proof -
  have core: "preserves P x" if "keeps core x" for x :: "'x dbtx"
    by (rule validI) (drule keepsD [OF that], erule frame, assumption)
  note parts = preserves_bind preserves_ret preserves_fail preserves_gets preserves_reject_if
    preserves_the_row preserves_each_tx keeps_core_services
  have stm: "preserves P (insert_statement r)" for r
    unfolding insert_statement_def by (rule preserves_insert_row) (rule frame [rotated], assumption, simp add: core_def)
  have per: "preserves P (insert_period r)" "preserves P (mark_closed pid l now due mid)" for r pid l now due mid
  proof -
    show "preserves P (insert_period r)"
      unfolding insert_period_def by (intro preserves_insert_row period)
    show "preserves P (mark_closed pid l now due mid)"
      unfolding mark_closed_def by (rule preserves_modify, subst periods_field, rule period)
  qed
  have notice: "preserves P (CreateTx env svc n)" for n
  proof (rule core)
    show "keeps core (CreateTx env svc n)"
      using keeps_entries_services(1) by (auto simp: keeps_def core_def entries_def)
  qed
  have own: "preserves P (period_to_close g p)" for g p
    by (rule validI) (auto dest: period_to_close_Inr)
  show ?thesis
    unfolding close_period_def settlements_enabled_def snapshotStatements_def write_statement_def Let_def
    by (intro per own stm notice parts core)
qed

section \<open>Transactions that keep an invariant\<close>

locale book_invariant =
  fixes I :: "db \<Rightarrow> bool"
  assumes frame: "core s' = core s \<Longrightarrow> I s \<Longrightarrow> I s'"
    and book: "preserves I (createBookingForTargetTxWithAllocationRebuild env svc actor m product q t reason d now rebuild)"
    and void: "preserves I (void_new env svc actor m bid reason)"
    and close: "preserves I (close_period env svc actor m period ci due)"
    and pay: "preserves I (record_payment env svc actor m input at att self)"
    and unpay: "preserves I (reverse_payment_body env svc actor m pid reason)"
    and move: "preserves I (createManualTransactionTx env m ni att)"
    and unmove: "preserves I (reverseTransactionTx env m tid bookedAt reason)"
begin

lemma fields:
  "I s \<Longrightarrow> I (s\<lparr>clock_reads := n\<rparr>)" "I s \<Longrightarrow> I (s\<lparr>random_reads := n\<rparr>)" "I s \<Longrightarrow> I (s\<lparr>audit := as\<rparr>)"
  "I s \<Longrightarrow> I (s\<lparr>idempotency := is\<rparr>)" "I s \<Longrightarrow> I (s\<lparr>settings := ss\<rparr>)" "I s \<Longrightarrow> I (s\<lparr>external_accounts := es\<rparr>)"
  "I s \<Longrightarrow> I (s\<lparr>payment_methods := pm\<rparr>)"
  by (rule frame [rotated], assumption, simp)+

lemma core_preserves: "keeps core m \<Longrightarrow> preserves I m"
  by (rule validI) (drule (1) keepsD, erule frame, assumption)

lemma bookings:
  "preserves I (create_tx env svc actor m key i)" "preserves I (create_batch_tx env svc actor m key bi)"
  "preserves I (create_bulk_tx env svc actor m key ui)" "preserves I (void_tx env svc actor m key bid reason)"
proof -
  note parts = preserves_bind preserves_ret preserves_fail preserves_gets preserves_reject_if preserves_lift_result
    preserves_the_row preserves_if preserves_case_option preserves_case_prod preserves_each_tx preserves_map_tx preserves_Load
    preserves_requirePermission preserves_canPermission book void core_preserves
  note core = keeps_core_services keeps_core_guests
  have reads: "preserves I (authorizeBookingTargets m ts reason)" "preserves I (loadBookingDetails g p v ep q r)" for m ts reason g p v ep q r
    unfolding authorizeBookingTargets_def booking_mode_def loadBookingDetails_def Let_def by (intro parts)+
  have batch: "preserves I (authorize_batch m ts gs reason)" for m ts gs reason
    unfolding authorize_batch_def by (intro parts reads)
  have refresh: "preserves I (refreshBookingState env b m)" for b m
    unfolding refreshBookingState_def applyCurrentVoidMetadata_def Let_def by (intro parts core)
  have items: "preserves I (load_items g ep n i t its)" for g ep n i t its
    by (induction its arbitrary: i t) (simp_all add: Let_def parts reads)
  have resp: "preserves I (case r of RespBooking b \<Rightarrow> f b | _ \<Rightarrow> x)"
    if "\<And>b. preserves I (f b)" "preserves I x" for f x and r
    using that by (cases r) simp_all
  have resps: "preserves I (case r of RespBookings b \<Rightarrow> f b | _ \<Rightarrow> x)"
    if "\<And>b. preserves I (f b)" "preserves I x" for f x and r
    using that by (cases r) simp_all
  show "preserves I (create_tx env svc actor m key i)"
    unfolding create_tx_def createBookingForTargetTx_def Let_def by (intro resp parts reads refresh core)
  show "preserves I (create_batch_tx env svc actor m key bi)"
    unfolding create_batch_tx_def createBookingForTargetTx_def Let_def by (intro resps parts reads batch refresh core)
  show "preserves I (create_bulk_tx env svc actor m key ui)"
    unfolding create_bulk_tx_def book_item_def Let_def by (intro resps parts reads batch items core)
  show "preserves I (void_tx env svc actor m key bid reason)"
    unfolding void_tx_def Let_def by (intro resp parts refresh core)
qed

lemma finance:
  "preserves I (close_tx env svc actor m key period ci due)" "preserves I (create_payment_tx env svc actor m key input at att self)"
  "preserves I (reverse_payment_tx env svc actor m key pid reason)"
proof -
  note parts = preserves_bind preserves_ret preserves_fail preserves_gets preserves_reject_if preserves_lift_result
    preserves_the_row preserves_if preserves_case_option preserves_case_prod preserves_Load preserves_requirePermission
    close pay unpay core_preserves keeps_core_services
  have req: "preserves I (requireFinanceManagement m)"
    by (rule validI) (simp add: requireFinance_Inr)
  have refresh: "preserves I (refreshPaymentMemberStateTx p)" for p
    unfolding refreshPaymentMemberStateTx_def by (intro parts)
  have closed: "preserves I (case r of RespClose c \<Rightarrow> ret c | _ \<Rightarrow> fail e)" for r e
    by (cases r) (simp_all add: parts)
  have paid: "preserves I (case r of RespPayment p \<Rightarrow> refreshPaymentMemberStateTx p | _ \<Rightarrow> fail e)" for r e
    by (cases r) (simp_all add: parts refresh)
  have undone: "preserves I (case r of RespBookings bs \<Rightarrow> fail e | _ \<Rightarrow> ret ())" for r e
    by (cases r) (simp_all add: parts)
  show "preserves I (close_tx env svc actor m key period ci due)"
    unfolding close_tx_def Let_def by (intro closed req parts)
  show "preserves I (create_payment_tx env svc actor m key input at att self)"
    unfolding create_payment_tx_def Let_def by (intro paid parts)
  show "preserves I (reverse_payment_tx env svc actor m key pid reason)"
    unfolding reverse_payment_tx_def Let_def by (intro undone parts)
qed

lemma configuration_parts:
  "preserves I (start_configuration m v)" "preserves I (finish_configuration env actor m v action rt r md)"
  "preserves I (listAccounts g)" "preserves I (listPaymentMethodLinks g)" "preserves I (update_accounts Q f)"
  "preserves I (detach_methods g a)" "preserves I (delete_row env m a b)" "preserves I (check_order ex seen ids)"
  "preserves I (place_accounts g now n ids)" "preserves I (replace_loop g ex seen links)" "preserves I (insert_account row)"
  "preserves I (restoreDeletedAccountsAfterReversalTx env g u mid ids)"
proof -
  note parts = preserves_bind preserves_ret preserves_fail preserves_gets preserves_reject_if preserves_lift_result
    preserves_the_row preserves_if preserves_case_option preserves_case_prod preserves_access core_preserves keeps_core_services
  show upd: "preserves I (update_accounts Q f)" for Q f
    by (rule preserves_update_accounts) (erule fields)
  have methods: "preserves I (modify (payment_methods_update f))" and accounts: "preserves I (modify (external_accounts_update h))" for f h
    by (rule preserves_tables, erule fields)+
  have bump: "preserves I (bumpCollectionVersion env g v)" for g v
    by (intro preserves_bump fields)
  show "preserves I (start_configuration m v)"
    unfolding start_configuration_def by (intro parts)
  show lst: "preserves I (listAccounts g)" for g
    unfolding listAccounts_def by (intro parts)
  show "preserves I (finish_configuration env actor m v action rt r md)"
    unfolding finish_configuration_def by (intro parts bump lst)
  show "preserves I (listPaymentMethodLinks g)"
    unfolding listPaymentMethodLinks_def by (intro parts)
  show "preserves I (detach_methods g a)"
    unfolding detach_methods_def by (intro parts methods)
  show "preserves I (delete_row env m a b)"
    unfolding delete_row_def by (intro parts upd accounts)
  show "preserves I (check_order ex seen ids)"
    by (induction ids arbitrary: seen) (simp_all add: parts)
  show "preserves I (place_accounts g now n ids)"
    by (induction ids arbitrary: n) (simp_all add: parts upd)
  have target: "preserves I (link_target g a)" for g a
    unfolding link_target_def Let_def by (intro parts)
  show "preserves I (replace_loop g ex seen links)"
    by (induction links arbitrary: seen) (simp_all add: Let_def parts methods target)
  show "preserves I (insert_account row)"
    unfolding insert_account_def by (intro preserves_insert_row fields)
  show "preserves I (restoreDeletedAccountsAfterReversalTx env g u mid ids)"
    by (intro preserves_restore fields)
qed

lemma accounts:
  "preserves I (create_account_tx env actor m key v ai ob)" "preserves I (update_account_tx env parse_url actor m a input cur v)"
  "preserves I (set_archived_tx env actor m a archived v)" "preserves I (delete_account_tx env actor m a v)"
  "preserves I (reorder_tx env actor m ids v)" "preserves I (replace_links_tx env actor m links v)"
  "preserves I (create_transaction_tx env actor m key ni att)" "preserves I (reverse_transaction_tx env actor m key tid bookedAt reason)"
proof -
  note parts = preserves_bind preserves_ret preserves_fail preserves_gets preserves_reject_if preserves_lift_result
    preserves_the_row preserves_if preserves_case_option preserves_case_prod preserves_Load preserves_access
    preserves_constraint configuration_parts move unmove core_preserves keeps_core_services
  have bump: "preserves I (bumpCollectionVersion env g v)" for g v
    by (intro preserves_bump fields)
  have opened: "preserves I (case ob of None \<Rightarrow> ret ()
      | Some x \<Rightarrow> tx_bind (createManualTransactionTx env m (x\<lparr>nx_PrimaryAccountID := a\<rparr>) None) (\<lambda>_. ret ()))" for ob a
    by (intro parts)
  have listed: "preserves I (case r of RespAccounts c \<Rightarrow> ret c | _ \<Rightarrow> fail e)" for r e
    by (cases r) (simp_all add: parts)
  have viewed: "preserves I (case r of RespTransaction c \<Rightarrow> ret c | _ \<Rightarrow> fail e)" for r e
    by (cases r) (simp_all add: parts)
  have body: "preserves I (create_account_body env actor m v ai ob)"
    unfolding create_account_body_def Let_def by (intro parts bump opened)
  show "preserves I (create_account_tx env actor m key v ai ob)"
    unfolding create_account_tx_def Let_def by (intro body listed parts)
  show "preserves I (update_account_tx env parse_url actor m a input cur v)"
    unfolding update_account_tx_def by (intro parts)
  show "preserves I (set_archived_tx env actor m a archived v)"
    unfolding set_archived_tx_def Let_def by (intro parts)
  show "preserves I (delete_account_tx env actor m a v)"
    unfolding delete_account_tx_def by (intro parts)
  show "preserves I (reorder_tx env actor m ids v)"
    unfolding reorder_tx_def by (intro parts)
  show "preserves I (replace_links_tx env actor m links v)"
    unfolding replace_links_tx_def by (intro parts bump)
  show "preserves I (create_transaction_tx env actor m key ni att)"
    unfolding create_transaction_tx_def Let_def by (intro viewed parts)
  show "preserves I (reverse_transaction_tx env actor m key tid bookedAt reason)"
    unfolding reverse_transaction_tx_def Let_def by (intro viewed parts)
qed

end

section \<open>Reachable databases\<close>

text \<open>One committed or rolled back transaction, or a change that leaves the books alone. The inputs of a
  transaction are arbitrary: they were validated and prepared outside it, possibly against an older state.\<close>

inductive step :: "env \<Rightarrow> notification_service \<Rightarrow> db \<Rightarrow> db \<Rightarrow> bool" for env svc where
  book: "step env svc s (snd (WithTx (create_tx env svc actor m key i) s))"
| book_batch: "step env svc s (snd (WithTx (create_batch_tx env svc actor m key bi) s))"
| book_bulk: "step env svc s (snd (WithTx (create_bulk_tx env svc actor m key ui) s))"
| void: "step env svc s (snd (WithTx (void_tx env svc actor m key bid reason) s))"
| close: "step env svc s (snd (WithTx (close_tx env svc actor m key period ci due) s))"
| pay: "step env svc s (snd (WithTx (create_payment_tx env svc actor m key input at att self) s))"
| unpay: "step env svc s (snd (WithTx (reverse_payment_tx env svc actor m key pid reason) s))"
| create_account: "step env svc s (snd (WithTx (create_account_tx env actor m key v ai ob) s))"
| update_account: "step env svc s (snd (WithTx (update_account_tx env parse_url actor m a ai cur v) s))"
| set_archived: "step env svc s (snd (WithTx (set_archived_tx env actor m a archived v) s))"
| delete_account: "step env svc s (snd (WithTx (delete_account_tx env actor m a v) s))"
| reorder: "step env svc s (snd (WithTx (reorder_tx env actor m ids v) s))"
| replace_links: "step env svc s (snd (WithTx (replace_links_tx env actor m links v) s))"
| move: "step env svc s (snd (WithTx (create_transaction_tx env actor m key ni att) s))"
| unmove: "step env svc s (snd (WithTx (reverse_transaction_tx env actor m key tid bookedAt reason) s))"
| other: "core s' = core s \<Longrightarrow> step env svc s s'"

text \<open>A database whose books are empty; every group has at most one open period.\<close>

definition founded :: "db \<Rightarrow> bool" where
  "founded s \<longleftrightarrow> ledger s = [] \<and> external_transactions s = [] \<and> payments s = [] \<and> bookings s = [] \<and> one_open s"

inductive reachable :: "env \<Rightarrow> notification_service \<Rightarrow> db \<Rightarrow> bool" for env svc where
  start: "founded s \<Longrightarrow> reachable env svc s"
| continue: "reachable env svc s \<Longrightarrow> step env svc s s' \<Longrightarrow> reachable env svc s'"

inductive_cases stepE: "step env svc s s'"

context book_invariant
begin

lemma step_keeps: "step env svc s s' \<Longrightarrow> I s \<Longrightarrow> I s'"
  by (erule stepE) (blast intro: WithTx_preserves bookings finance accounts frame)+

lemma reachable_holds:
  assumes "\<And>s. founded s \<Longrightarrow> I s" "reachable env svc s"
  shows "I s"
  using assms(2) by induction (rule assms(1) step_keeps; assumption)+

end

subsection \<open>Every command is a run of steps\<close>

lemma reachable_other: "reachable env svc s \<Longrightarrow> core s' = core s \<Longrightarrow> reachable env svc s'"
  by (rule reachable.continue [OF _ step.other])

lemma reachable_WithTx:
  assumes "reachable env svc s" "core s1 = core s" "\<And>s. step env svc s (snd (WithTx body s))"
  shows "reachable env svc (snd (WithTx body s1))"
  by (rule reachable.continue [OF reachable_other [OF assms(1,2)] assms(3)])

lemma reachable_checked:
  assumes "reachable env svc s" "\<And>s. step env svc s (snd (WithTx body s))"
  shows "reachable env svc (snd (checked check body s))"
  unfolding checked_def
  by (auto split: sum.split intro!: reachable_WithTx [OF assms(1) refl assms(2)] assms(1))

text \<open>The commands of the services, their checks in front of the transaction included.\<close>

lemma reachable_bookings:
  assumes r: "reachable env svc s"
  shows "reachable env svc (snd (Create env svc actor m key i s))" "reachable env svc (snd (CreateBatch env svc actor m key bi s))"
    "reachable env svc (snd (CreateBulk env svc actor m key ui s))" "reachable env svc (snd (Void env svc actor m key bid reason s))"
proof -
  note run = reachable_WithTx [OF r refl] and chk = reachable_checked [OF r]
  show "reachable env svc (snd (Create env svc actor m key i s))"
    unfolding Create_def by (auto split: sum.split intro!: chk r step.book)
  show "reachable env svc (snd (CreateBatch env svc actor m key bi s))"
    unfolding CreateBatch_def by (auto split: sum.split intro!: chk r step.book_batch)
  show "reachable env svc (snd (CreateBulk env svc actor m key ui s))"
    unfolding CreateBulk_def by (auto split: sum.split intro!: run r step.book_bulk)
  show "reachable env svc (snd (Void env svc actor m key bid reason s))"
    unfolding Void_def Let_def by (auto split: sum.split intro!: run r step.void)
qed

lemma prepare_close_core: "prepare_close env m key input s = Inr (x, s1) \<Longrightarrow> core s1 = core s"
  by (auto simp: prepare_close_def Let_def bind_eq_Inr requireFinance_Inr Now_def)

lemma reachable_finance:
  assumes r: "reachable env svc s"
  shows "reachable env svc (snd (Close env svc actor m key period ci s))"
    "reachable env svc (snd (createPayment env svc actor m key input upload self s))"
    "reachable env svc (snd (CreatePayment env svc actor m key input s))"
    "reachable env svc (snd (CreateOwnPaymentWithAttachment env svc actor m key oi upload s))"
    "reachable env svc (snd (ReversePayment env svc actor m key pid reason s))"
proof -
  show "reachable env svc (snd (Close env svc actor m key period ci s))"
    unfolding Close_def
    by (auto split: sum.split intro!: reachable_WithTx [OF r] r step.close dest: prepare_close_core)
  have prep: "prepare_payment env key i s = Inr (x, s1) \<Longrightarrow> core s1 = core s" for key i x s1
    using prepare_payment_Inr [of env key i s] by (cases x) auto
  have pay: "reachable env svc (snd (createPayment env svc actor m key i upload self s))" for actor m key i upload self
  proof (cases "prepare_payment env key i s")
    case (Inl e)
    then show ?thesis using r by (simp add: createPayment_def)
  next
    case (Inr b)
    then obtain j at s1 where b: "prepare_payment env key i s = Inr ((j, at), s1)" by (cases b) auto
    note run = reachable_WithTx [OF r prep [OF b] step.pay]
    show ?thesis unfolding createPayment_def b
      by (auto simp: Let_def split: option.split sum.split intro!: run reachable_other [OF r prep [OF b]])
  qed
  then show "reachable env svc (snd (createPayment env svc actor m key input upload self s))" .
  show "reachable env svc (snd (CreatePayment env svc actor m key input s))"
    unfolding CreatePayment_def CreatePaymentWithAttachment_def by (auto split: sum.split intro!: r pay)
  show "reachable env svc (snd (CreateOwnPaymentWithAttachment env svc actor m key oi upload s))"
    unfolding CreateOwnPaymentWithAttachment_def by (auto split: sum.split intro!: r pay)
  show "reachable env svc (snd (ReversePayment env svc actor m key pid reason s))"
    unfolding ReversePayment_def Let_def
    by (auto split: sum.split intro!: reachable_WithTx [OF r refl] r step.unpay)
qed

lemma reachable_accounts:
  assumes r: "reachable env svc s"
  shows "reachable env svc (snd (CreateAccount env parse_url actor m key v input ob s))"
    "reachable env svc (snd (UpdateAccount env parse_url actor m a input v s))"
    "reachable env svc (snd (SetAccountArchived env actor m a archived v s))"
    "reachable env svc (snd (DeleteAccount env actor m a v s))" "reachable env svc (snd (ReorderAccounts env actor m ids v s))"
    "reachable env svc (snd (ReplacePaymentMethodLinks env actor m links v s))"
    "reachable env svc (snd (CreateTransactionWithAttachment env actor m key ti upload s))"
    "reachable env svc (snd (ReverseTransaction env actor m key tid reason s))"
proof -
  note run = reachable_WithTx [OF r refl]
  show "reachable env svc (snd (CreateAccount env parse_url actor m key v input ob s))"
    unfolding CreateAccount_def by (auto split: sum.split intro!: run r step.create_account)
  show "reachable env svc (snd (UpdateAccount env parse_url actor m a input v s))"
    unfolding UpdateAccount_def by (auto split: sum.split intro!: run r step.update_account)
  show "reachable env svc (snd (SetAccountArchived env actor m a archived v s))"
    unfolding SetAccountArchived_def by (intro run step.set_archived)
  show "reachable env svc (snd (DeleteAccount env actor m a v s))"
    unfolding DeleteAccount_def by (intro run step.delete_account)
  show "reachable env svc (snd (ReorderAccounts env actor m ids v s))"
    unfolding ReorderAccounts_def by (intro run step.reorder)
  show "reachable env svc (snd (ReplacePaymentMethodLinks env actor m links v s))"
    unfolding ReplacePaymentMethodLinks_def by (intro run step.replace_links)
  show "reachable env svc (snd (CreateTransactionWithAttachment env actor m key ti upload s))"
    unfolding CreateTransactionWithAttachment_def
    by (auto split: sum.split option.split intro!: run r step.move)
  have tick: "core (s\<lparr>clock_reads := n\<rparr>) = core s" for n by simp
  show "reachable env svc (snd (ReverseTransaction env actor m key tid reason s))"
    unfolding ReverseTransaction_def Let_def
    by (auto split: sum.split intro!: reachable_WithTx [OF r tick] reachable_other [OF r tick] r step.unmove)
qed

end
