(* ===== verification/Invariants.thy ===== *)
theory Invariants
  imports Journal
begin

text \<open>
  What holds in every reachable database: identifiers and references are sound, every group's ledger sums
  to zero because every posting and every mirrored posting does, at most one period per group is open,
  and the total of every external account is an int64, so that reading balances never fails.
\<close>

section \<open>Invariants of single rows\<close>

text \<open>An invariant that every single insertion and update keeps is kept by the seven posting bodies.\<close>

locale posting_invariant =
  fixes I :: "db \<Rightarrow> bool"
  assumes untouched: "core s' = core s \<Longrightarrow> I s \<Longrightarrow> I s'"
    and ledger_row: "I s \<Longrightarrow> ledger_ok s r \<Longrightarrow> le_id r \<noteq> [] \<Longrightarrow> le_external_account r = None \<Longrightarrow> I (s\<lparr>ledger := ledger s @ [r]\<rparr>)"
    and external_row: "I s \<Longrightarrow> ledger_ok s r \<Longrightarrow> le_id r \<noteq> [] \<Longrightarrow> le_external_account r = Some a \<Longrightarrow>
      is_int64 (external_total (le_group r) a s + le_amount r) \<Longrightarrow> I (s\<lparr>ledger := ledger s @ [r]\<rparr>)"
    and movement: "I s \<Longrightarrow> transaction_ok s t \<Longrightarrow> \<forall>x\<in>set (external_transactions s). \<not> transaction_clash x t \<Longrightarrow>
      I (s\<lparr>external_transactions := external_transactions s @ [t]\<rparr>)"
    and payment: "I s \<Longrightarrow> py_id p \<noteq> [] \<Longrightarrow> \<forall>x\<in>set (payments s). py_id x \<noteq> py_id p \<Longrightarrow> I (s\<lparr>payments := payments s @ [p]\<rparr>)"
    and reversed: "I s \<Longrightarrow> I (s\<lparr>payments := update_rows (\<lambda>p. py_id p = pid \<and> py_reversed_at p = None) (reversed_row now mid reason) (payments s)\<rparr>)"
    and booking: "I s \<Longrightarrow> I (s\<lparr>bookings := bs\<rparr>)"
    and period: "I s \<Longrightarrow> I (s\<lparr>periods := ps\<rparr>)"
begin

lemma untouched_preserves: "keeps core m \<Longrightarrow> preserves I m"
  by (rule validI) (drule (1) keepsD, erule untouched, assumption)

lemma entries_preserves: "keeps entries m \<Longrightarrow> preserves I m"
proof (rule untouched_preserves, unfold keeps_def core_def entries_def)
qed simp

lemma with_id: "(\<And>i. i \<noteq> [] \<Longrightarrow> preserves I (f i)) \<Longrightarrow> preserves I (tx_bind (NewID env p) f)"
proof (rule validI)
  fix s x s'
  assume f: "\<And>i. i \<noteq> [] \<Longrightarrow> preserves I (f i)" and s: "I s" and run: "tx_bind (NewID env p) f s = Inr (x, s')"
  from run obtain i s1 where i: "NewID env p s = Inr (i, s1)" "f i s1 = Inr (x, s')" by (rule bind_InrE)
  have "I s1" using validD [OF untouched_preserves [OF keeps_core_services(4)] s i(1)] .
  moreover have "i \<noteq> []" using NewID_Inr [OF i(1)] by simp
  ultimately show "I s'" using validD [OF f] i(2) by blast
qed

lemma posting_rows:
  "preserves I (insertLedger env g p m c b pay rv acc amount d at)"
  "preserves I (insertExternalLedger env g p a t pay rv amount d at)"
  "preserves I (insertOffsetLedger env g p t amount d at)" "preserves I (insertOffsetLedgerReversal env g p t rv amount d at)"
proof -
  have tick: "I (s\<lparr>random_reads := n\<rparr>)" if "I s" for s n
    by (rule untouched [OF _ that]) simp
  have ok: "ledger_ok (s\<lparr>random_reads := n\<rparr>) r = ledger_ok s r" for s n r by (simp add: ledger_ok_def)
  show "preserves I (insertLedger env g p m c b pay rv acc amount d at)"
  proof (rule validI)
    fix s u s'
    assume s: "I s" and run: "insertLedger env g p m c b pay rv acc amount d at s = Inr (u, s')"
    from run show "I s'"
    proof (rule insertLedger_Inr)
      fix i
      assume i: "s' = s\<lparr>random_reads := Suc (random_reads s), ledger := ledger s @ [ledger_entry i g p m c b pay rv acc amount d at]\<rparr>"
        "i \<noteq> []" "ledger_ok s (ledger_entry i g p m c b pay rv acc amount d at)"
      show "I s'"
        using ledger_row [OF tick [OF s, of "Suc (random_reads s)"], of "ledger_entry i g p m c b pay rv acc amount d at"] i by (simp add: ok)
    qed
  qed
  have off: "preserves I (insertOffsetLedgerReversal env g p t rv amount d at)" for rv
    unfolding insertOffsetLedgerReversal_def
  proof (rule with_id, rule validI)
    fix i s u s'
    assume i: "i \<noteq> []" and s: "I s" and run: "insert_ledger (offset_entry i g p t rv amount d at) s = Inr (u, s')"
    show "I s'" using run ledger_row [OF s, of "offset_entry i g p t rv amount d at"] i by (simp add: insert_ledger_Inr)
  qed
  then show "preserves I (insertOffsetLedgerReversal env g p t rv amount d at)" .
  show "preserves I (insertOffsetLedger env g p t amount d at)" unfolding insertOffsetLedger_def by (rule off)
  show "preserves I (insertExternalLedger env g p a t pay rv amount d at)"
  proof (rule validI)
    fix s u s'
    assume s: "I s" and run: "insertExternalLedger env g p a t pay rv amount d at s = Inr (u, s')"
    from run obtain i s1 where i: "is_int64 (external_total g a s + amount)" "NewID env ''led'' s = Inr (i, s1)"
      "insert_ledger (external_entry i g p a t pay rv amount d at) s1 = Inr (u, s')"
      by (auto simp: insertExternalLedger_def ensureExternalAccountBalanceDelta_def bind_eq_Inr)
    note id = NewID_Inr [OF i(2)]
    show "I s'"
      using external_row [OF tick [OF s, of "Suc (random_reads s)"], of "external_entry i g p a t pay rv amount d at" a] i(1,3) id
      by (simp add: insert_ledger_Inr external_total_def)
  qed
qed

lemma seven_bodies:
  "preserves I (createBookingForTargetTxWithAllocationRebuild env svc actor m product q t reason d now rebuild)"
  "preserves I (void_new env svc actor m bid reason)" "preserves I (close_period env svc actor m period ci due)"
  "preserves I (record_payment env svc actor m input at att self)" "preserves I (reverse_payment_body env svc actor m pid reason)"
  "preserves I (createManualTransactionTx env m ni att)" "preserves I (reverseTransactionTx env m tid bookedAt reason)"
proof -
  note parts = with_id preserves_bind preserves_ret preserves_fail preserves_gets preserves_reject_if preserves_lift_result
    preserves_the_row preserves_if preserves_case_option preserves_case_prod preserves_each_tx preserves_requirePermission
    preserves_canPermission preserves_access preserves_constraint posting_rows untouched_preserves keeps_core_services
  have quiet: "preserves I (CreateTx env svc n)" "preserves I (insert_attachment p g a c)" "preserves I (insert_transaction_attachment p g a c)"
    "preserves I (restoreDeletedAccountsAfterReversalTx env g u mid ids)" for env svc n p g a c u mid ids
    by (intro entries_preserves keeps_entries keeps_entries_services)+
  have bks: "preserves I (insert_booking b)" for b
    unfolding insert_booking_def by (intro preserves_insert_row booking)
  have meta: "preserves I (applyCurrentVoidMetadata b m now)" for b m now
    unfolding applyCurrentVoidMetadata_def by (intro parts)
  show "preserves I (createBookingForTargetTxWithAllocationRebuild env svc actor m product q t reason d now rebuild)"
    unfolding createBookingForTargetTxWithAllocationRebuild_def Let_def by (intro parts bks quiet meta)
  have upd: "preserves I (mark_voided bid at mid reason)" for bid at mid reason
    by (rule validI) (simp add: mark_voided_Inr booking)
  show "preserves I (void_new env svc actor m bid reason)"
    unfolding void_new_def void_guards_def reverse_entry_def Let_def by (intro upd quiet parts)
  show "preserves I (close_period env svc actor m period ci due)"
    by (rule preserves_close_period) (erule (1) untouched, erule period)
  have reads: "preserves I (payment_method_label g mt a)" "preserves I (effective_reference g self r)" "preserves I (payer g self mid n)"
    "preserves I (payment_currency g)" "preserves I (payment_to_reverse g p)" for g mt a self r mid n p
    unfolding payment_method_label_def effective_reference_def payer_def payment_currency_def payment_to_reverse_def Let_def
    by (intro parts)+
  have mov: "preserves I (insert_transaction t)" for t
  proof (rule validI)
    fix s u s'
    assume s: "I s" and run: "insert_transaction t s = Inr (u, s')"
    show "I s'" using run movement [OF s] by (simp add: insert_transaction_Inr)
  qed
  have pays: "preserves I (insert_payment (payment_row_of p g i r l ref c now))" if "p \<noteq> []" for p g i r l ref c now
  proof (rule validI)
    fix s u s'
    assume s: "I s" and run: "insert_payment (payment_row_of p g i r l ref c now) s = Inr (u, s')"
    show "I s'" using insert_payment_Inr [OF run] payment [OF s, of "payment_row_of p g i r l ref c now"] that by simp
  qed
  have post: "preserves I (post_payment env m i cp p r ref now)" for env m i cp p r ref now
    unfolding post_payment_def PostPaymentTx_def Let_def by (intro mov parts)
  show "preserves I (record_payment env svc actor m input at att self)"
    unfolding record_payment_def Let_def by (intro pays post reads quiet parts; assumption?)
  have rev: "preserves I (mark_reversed p now mid reason)" for p now mid reason
    by (rule validI) (drule mark_reversed_Inr, simp add: reversed)
  have ext: "preserves I (ReversePaymentTx env g u mid p cp b r now)" for env g u mid p cp b r now
    unfolding ReversePaymentTx_def by (intro mov quiet parts)
  show "preserves I (reverse_payment_body env svc actor m pid reason)"
    unfolding reverse_payment_body_def reverse_payment_row_def Let_def by (intro rev ext reads quiet parts)
  show "preserves I (createManualTransactionTx env m ni att)"
    unfolding createManualTransactionTx_def post_movement_def Let_def by (intro mov quiet parts)
  show "preserves I (reverseTransactionTx env m tid bookedAt reason)"
    unfolding reverseTransactionTx_def reverse_leg_def Let_def by (intro mov parts)
qed

end

sublocale posting_invariant \<subseteq> book_invariant I
  by unfold_locales (erule (1) untouched, (rule seven_bodies)+)

section \<open>Identifiers and references\<close>

definition keyed :: "db \<Rightarrow> bool" where
  "keyed s \<longleftrightarrow>
     (\<forall>r\<in>set (ledger s). le_id r \<noteq> [] \<and> (\<forall>p. le_payment r = Some p \<longrightarrow> p \<in> py_id ` set (payments s)) \<and>
        (\<forall>t. le_external_transaction r = Some t \<longrightarrow> t \<in> xr_id ` set (external_transactions s))) \<and>
     (\<forall>p\<in>set (payments s). py_id p \<noteq> []) \<and> distinct (map py_id (payments s)) \<and>
     sorted_wrt (\<lambda>x t. \<not> transaction_clash x t) (external_transactions s) \<and>
     (\<forall>t\<in>set (external_transactions s). \<forall>p. xr_payment t = Some p \<longrightarrow> p \<in> py_id ` set (payments s))"

lemma in_group_ref: "in_group group_of id_of rows g (Some i) \<Longrightarrow> i \<in> id_of ` set rows"
  by (auto simp: in_group_def list_ex_iff)

lemma ledger_refs:
  assumes "ledger_ok s r"
  shows "le_payment r = Some p \<Longrightarrow> p \<in> py_id ` set (payments s)"
    "le_external_transaction r = Some t \<Longrightarrow> t \<in> xr_id ` set (external_transactions s)"
  using assms by (auto simp: ledger_ok_def intro: in_group_ref)

lemma reversed_ids:
  "map py_id (update_rows Q (reversed_row now mid reason) ps) = map py_id ps"
  "py_id ` set (update_rows Q (reversed_row now mid reason) ps) = py_id ` set ps"
proof -
  show eq: "map py_id (update_rows Q (reversed_row now mid reason) ps) = map py_id ps" by simp
  show "py_id ` set (update_rows Q (reversed_row now mid reason) ps) = py_id ` set ps"
    using arg_cong [OF eq, of set] by (simp only: list.set_map)
qed

interpretation keyed: posting_invariant keyed
proof
  fix s and r :: ledger_row
  assume k: "keyed s" "ledger_ok s r" "le_id r \<noteq> []"
  then have row: "keyed (s\<lparr>ledger := ledger s @ [r]\<rparr>)"
    using ledger_refs [OF k(2)] by (auto simp: keyed_def)
  then show "keyed (s\<lparr>ledger := ledger s @ [r]\<rparr>)" "keyed (s\<lparr>ledger := ledger s @ [r]\<rparr>)" by this+
next
  fix s and t :: external_transaction_row
  assume k: "keyed s" "transaction_ok s t" "\<forall>x\<in>set (external_transactions s). \<not> transaction_clash x t"
  have "p \<in> py_id ` set (payments s)" if "xr_payment t = Some p" for p
    using k(2) that by (auto simp: transaction_ok_def intro: in_group_ref)
  then show "keyed (s\<lparr>external_transactions := external_transactions s @ [t]\<rparr>)"
    using k(1,3) by (auto simp: keyed_def sorted_wrt_append)
next
  fix s and p :: payment_row
  assume "keyed s" "py_id p \<noteq> []" "\<forall>x\<in>set (payments s). py_id x \<noteq> py_id p"
  then show "keyed (s\<lparr>payments := payments s @ [p]\<rparr>)" by (auto simp: keyed_def)
next
  fix s pid now mid reason
  assume k: "keyed s"
  have "py_id p \<noteq> []" if "p \<in> set (update_rows (\<lambda>p. py_id p = pid \<and> py_reversed_at p = None) (reversed_row now mid reason) (payments s))" for p
  proof -
    have "py_id p \<in> py_id ` set (payments s)" using that reversed_ids(2) by (metis imageI)
    then show ?thesis using k by (auto simp: keyed_def)
  qed
  then show "keyed (s\<lparr>payments := update_rows (\<lambda>p. py_id p = pid \<and> py_reversed_at p = None) (reversed_row now mid reason) (payments s)\<rparr>)"
    using k by (simp add: keyed_def reversed_ids)
qed (simp_all add: keyed_def core_def)

section \<open>External account totals\<close>

definition representable :: "db \<Rightarrow> bool" where
  "representable s \<longleftrightarrow> (\<forall>g a. is_int64 (external_total g a s))"

lemma external_total_append:
  "external_total g a (s\<lparr>ledger := ledger s @ [r]\<rparr>) =
     external_total g a s + (if le_group r = g \<and> le_external_account r = Some a then le_amount r else 0)"
  by (simp add: external_total_def)

interpretation representable: posting_invariant representable
proof
  fix s and r :: ledger_row and a
  assume "representable s" "le_external_account r = Some a" "is_int64 (external_total (le_group r) a s + le_amount r)"
  then show "representable (s\<lparr>ledger := ledger s @ [r]\<rparr>)"
    by (auto simp: representable_def external_total_append)
qed (simp_all add: representable_def external_total_append, simp_all add: external_total_def core_def)

text \<open>C4. No external account ever leaves the range of an int64: in every database that the commands can
  reach, in any interleaving of their transactions, the exact sum of the movements of each account of each
  group fits an int64, and so reading the balances never fails and shows exactly these sums.\<close>

theorem external_balances_representable:
  assumes "reachable env svc s"
  shows "(\<forall>g a. min_int64 \<le> external_total g a s \<and> external_total g a s \<le> max_int64) \<and>
    externalAccountBalances g s = Inr (\<lambda>a. external_total g a s, s)"
proof -
  have "representable s"
    by (rule representable.reachable_holds [OF _ assms])
      (simp add: representable_def founded_def external_total_def is_int64_def min_int64_def max_int64_def)
  then show ?thesis
    by (auto simp: representable_def is_int64_def externalAccountBalances_def list_ex_iff)
qed

text \<open>A founded group with a cash box that cash payments go to, and an income of five euro.\<close>

definition cash_box :: external_account_row where
  "cash_box = \<lparr>xa_id = ''a'', xa_group = ''g'', xa_name = ''B'', xa_type = ''CASH'', xa_status = ''ACTIVE'', xa_sort_order = 0,
     xa_paypal = None, xa_recipient = None, xa_iban = None, xa_bic = None, xa_version = 1, xa_deleted_at = None,
     xa_created_at = [], xa_updated_at = []\<rparr>"

definition till :: db where
  "till = shop\<lparr>
     grants := map (\<lambda>p. \<lparr>gt_group = ''g'', gt_role = ''r'', gt_permission = p, gt_scope = ''GROUP'', gt_category = None,
         gt_product = None\<rparr>) [''FINANCE_MANAGEMENT'', ''MANAGE_EXTERNAL_ACCOUNTS''],
     settings := [\<lparr>st_group = ''g'', st_settlements = True, st_own_booking_mode = ''OFF'',
       st_foreign_booking_mode = ''OPTIONAL'', st_own_payment_mode = ''OFF'', st_other_payment_mode = ''OFF'',
       st_external_enabled = True, st_external_version = 1, st_planning_enabled = False, st_statistics_enabled = False\<rparr>],
     payment_methods := [\<lparr>pm_group = ''g'', pm_id = ''c'', pm_label = ''C'', pm_sort_order = 0, pm_attachment_mode = ''OFF'',
       pm_external_account = Some ''a''\<rparr>],
     external_accounts := [cash_box]\<rparr>"

definition five_euro :: create_transaction_input where
  "five_euro = \<lparr>xi_Kind = ''INCOME'', xi_SourceAccountID = [], xi_DestinationAccountID = ''a'', xi_AmountMinor = 500,
     xi_OccurredAt = ''2025-01-01'', xi_Reason = ''r'', xi_Reference = [], xi_Note = []\<rparr>"

definition earned :: "transaction_view result \<times> db" where
  "earned = CreateTransaction fixed_env \<lparr>UserID = ''u''\<rparr> uta ''key-0006'' five_euro till"

lemma founded_till: "founded till"
  by (simp add: founded_def one_open_def till_def shop_def empty_db_def)

lemma reachable_earned: "reachable fixed_env mail_only (snd earned)"
  unfolding earned_def CreateTransaction_def by (intro reachable_accounts reachable.start founded_till)

theorem external_balances_representable_witness:
  "external_total ''g'' ''a'' (snd earned) = 500 \<and>
   externalAccountBalances ''g'' (snd earned) = Inr (\<lambda>a. external_total ''g'' a (snd earned), snd earned)"
proof -
  have "external_total ''g'' ''a'' (snd earned) = 500"
    by code_simp
  then show ?thesis
    using external_balances_representable [OF reachable_earned] by simp
qed

end
