(* ===== verification/Balance.thy ===== *)
theory Balance
  imports Invariants
begin

text \<open>
  Double entry. The rows a payment and a movement own cancel, so that mirroring them cancels too; together
  with the rows of bookings this keeps the ledger of every group at zero in every reachable database.
\<close>

section \<open>What a payment and a movement own\<close>

definition own_rows :: "payment_row \<Rightarrow> db \<Rightarrow> ledger_row list" where
  "own_rows p = payment_rows (py_group p) (py_id p)"

text \<open>The rows of a payment cancel, its external leg is the amount of its movement, and its receivable is
  minus the amount for the payer and nothing for any other member.\<close>

definition settled_rows :: "payment_row \<Rightarrow> db \<Rightarrow> bool" where
  "settled_rows p s \<longleftrightarrow> sum_list (map le_amount (own_rows p s)) = 0 \<and>
     (\<forall>t\<in>set (external_transactions s). xr_group t = py_group p \<and> xr_payment t = Some (py_id p) \<and> xr_kind t = ''PAYMENT'' \<longrightarrow>
        rows_sum (\<lambda>r. le_account r = ''EXTERNAL_ACCOUNT'') (own_rows p s) = xr_amount t) \<and>
     (\<forall>x. x \<noteq> [] \<longrightarrow> rows_sum (member_row (py_group p) x) (own_rows p s) = (if x = py_membership p then - py_amount p else 0))"

definition cancelled_legs :: "external_transaction_row \<Rightarrow> db \<Rightarrow> bool" where
  "cancelled_legs t s \<longleftrightarrow> xr_kind t = ''PAYMENT'' \<or> xr_kind t = ''REVERSAL'' \<or>
     sum_list (map le_amount (movement_legs (xr_group t) (xr_id t) s)) = 0"

definition squared :: "db \<Rightarrow> bool" where
  "squared s \<longleftrightarrow> balanced s \<and> (\<forall>p\<in>set (payments s). settled_rows p s) \<and> (\<forall>t\<in>set (external_transactions s). cancelled_legs t s)"

definition pkey :: "payment_row \<Rightarrow> string \<times> string \<times> string \<times> int" where
  "pkey p = (py_id p, py_group p, py_membership p, py_amount p)"

lemma settled_rows_pkey: "pkey p = pkey q \<Longrightarrow> settled_rows p s = settled_rows q s"
  by (simp add: settled_rows_def own_rows_def pkey_def)

lemma pkey_rows: "map pkey ps' = map pkey ps \<Longrightarrow> p \<in> set ps' \<Longrightarrow> \<exists>q\<in>set ps. pkey q = pkey p"
  by (metis (no_types, lifting) image_iff list.set_map)

lemma pkey_reversed: "map pkey (update_rows Q (reversed_row now mid reason) ps) = map pkey ps"
  by (simp add: pkey_def)

lemma squared_balanced: "squared s \<Longrightarrow> balanced s"
  by (simp add: squared_def)

lemma balanced_append:
  "balanced s \<Longrightarrow> ledger s' = ledger s @ rows \<Longrightarrow> (\<And>g. rows_sum (\<lambda>r. le_group r = g) rows = 0) \<Longrightarrow> balanced s'"
  by (simp add: balanced_def ledger_sum_rows)

section \<open>Postings keep the balance\<close>

text \<open>Rows that are reversals, or name neither a payment nor a movement, are nobody's own.\<close>

lemma squared_neutral:
  assumes inv: "squared s" and led: "ledger s' = ledger s @ rows" and txns: "external_transactions s' = external_transactions s @ new"
    and pays: "map pkey (payments s') = map pkey (payments s)"
    and neutral: "\<forall>r\<in>set rows. le_reversal_of r \<noteq> None \<or> le_payment r = None \<and> le_external_transaction r = None"
    and kinds: "\<forall>t\<in>set new. xr_kind t = ''REVERSAL''"
    and sums: "\<And>g. rows_sum (\<lambda>r. le_group r = g) rows = 0"
  shows "squared s'"
proof -
  have own: "own_rows p s' = own_rows p s" for p
    using led neutral by (auto simp: own_rows_def payment_rows_def filter_empty_conv)
  have legs: "movement_legs g t s' = movement_legs g t s" for g t
    using led neutral by (auto simp: movement_legs_def filter_empty_conv)
  have settled: "settled_rows p s'" if p: "p \<in> set (payments s)" for p
    using inv p kinds unfolding settled_rows_def own txns by (fastforce simp: squared_def settled_rows_def)
  have "settled_rows p s'" if "p \<in> set (payments s')" for p
    using pkey_rows [OF pays that] settled settled_rows_pkey by blast
  moreover have "cancelled_legs t s'" if "t \<in> set (external_transactions s')" for t
    using that inv kinds unfolding cancelled_legs_def legs txns by (auto simp: squared_def cancelled_legs_def)
  moreover have "balanced s'" by (rule balanced_append [OF squared_balanced [OF inv] led sums])
  ultimately show ?thesis by (simp add: squared_def)
qed

lemma squared_payment:
  assumes inv: "squared s" "keyed s" and posts: "posts (s\<lparr>payments := payments s @ [p]\<rparr>) s' rows txns"
    and own: "payment_posting p rows txns" and new: "\<forall>y\<in>set (payments s). py_id y \<noteq> py_id p"
    and clash: "\<forall>t\<in>set txns. \<forall>y\<in>set (external_transactions s). \<not> transaction_clash y t"
  shows "squared s'"
proof -
  have s': "ledger s' = ledger s @ rows" "external_transactions s' = external_transactions s @ txns" "payments s' = payments s @ [p]"
    using posts by (simp_all add: posts_split)
  obtain r0 r1 where r: "rows = [r0, r1]" "payment_row_shape p r0" "payment_row_shape p r1"
    "le_external_transaction r0 = None" "le_account r0 = ''MEMBER_RECEIVABLE''" "le_amount r0 = - py_amount p" "le_amount r1 = py_amount p"
    "txns = [] \<and> le_account r1 = ''GROUP_CASH'' \<and> le_external_transaction r1 = None \<or>
      (\<exists>t. txns = [t] \<and> xr_kind t = ''PAYMENT'' \<and> xr_payment t = Some (py_id p) \<and> xr_amount t = py_amount p \<and>
         le_account r1 = ''EXTERNAL_ACCOUNT'' \<and> le_external_transaction r1 = Some (xr_id t))"
    using own unfolding payment_posting_def by blast
  have unnamed: "le_payment x \<noteq> Some (py_id p)" if "x \<in> set (ledger s)" for x
    using inv(2) new that by (fastforce simp: keyed_def)
  have unpaid: "xr_payment t \<noteq> Some (py_id p)" if "t \<in> set (external_transactions s)" for t
    using inv(2) new that by (fastforce simp: keyed_def)
  have shape: "le_group x = py_group p" "le_payment x = Some (py_id p)" "le_reversal_of x = None" if "x \<in> set rows" for x
    using that r(1-3) by (auto simp: payment_row_shape_def)
  have old: "own_rows q s' = own_rows q s" if "q \<in> set (payments s)" for q
    using s'(1) shape(2) new that by (force simp: own_rows_def payment_rows_def filter_empty_conv)
  have mine: "own_rows p s' = rows"
    using s'(1) shape unnamed by (auto simp: own_rows_def payment_rows_def filter_empty_conv filter_id_conv)
  note sums = payment_posting_sums [OF own]
  have "settled_rows q s'" if q: "q \<in> set (payments s)" for q
  proof -
    have "xr_payment t \<noteq> Some (py_id q)" if "t \<in> set txns" for t
      using r(8) new q that by auto
    then show ?thesis
      using inv(1) q unfolding settled_rows_def old [OF q] s'(2) by (auto simp: squared_def settled_rows_def)
  qed
  moreover have "settled_rows p s'"
    unfolding settled_rows_def mine
  proof (intro conjI ballI allI impI)
    fix t
    assume "t \<in> set (external_transactions s')" "xr_group t = py_group p \<and> xr_payment t = Some (py_id p) \<and> xr_kind t = ''PAYMENT''"
    then have "t \<in> set txns" using unpaid s'(2) by auto
    then show "rows_sum (\<lambda>r. le_account r = ''EXTERNAL_ACCOUNT'') rows = xr_amount t"
      using r by auto
  qed (use sums in simp_all)
  moreover have "cancelled_legs t s'" if t: "t \<in> set (external_transactions s')" for t
  proof (cases "t \<in> set txns")
    case True
    then show ?thesis using r(8) by (auto simp: cancelled_legs_def)
  next
    case False
    then have t: "t \<in> set (external_transactions s)" using t s'(2) by simp
    have "le_external_transaction x \<noteq> Some (xr_id t)" if "x \<in> set rows" for x
      using r that clash t by (auto simp: transaction_clash_def)
    then have "movement_legs (xr_group t) (xr_id t) s' = movement_legs (xr_group t) (xr_id t) s"
      using s'(1) by (auto simp: movement_legs_def filter_empty_conv)
    then show ?thesis using inv(1) t by (simp add: squared_def cancelled_legs_def)
  qed
  moreover have "rows_sum (\<lambda>x. le_group x = g) rows = 0" for g
    using shape(1) r(1,6,7) by auto
  then have "balanced s'" by (rule balanced_append [OF squared_balanced [OF inv(1)] s'(1)])
  ultimately show ?thesis using s'(3) by (auto simp: squared_def)
qed

lemma squared_movement:
  assumes inv: "squared s" "keyed s" and posts: "posts s s' [r1, r2] [t]" and rows: "movement_row g (xr_id t) r1" "movement_row g (xr_id t) r2"
    and t: "xr_group t = g" "xr_kind t \<noteq> ''PAYMENT''" and amounts: "le_amount r2 = - le_amount r1"
    and clash: "\<forall>y\<in>set (external_transactions s). \<not> transaction_clash y t"
  shows "squared s'"
proof -
  have s': "ledger s' = ledger s @ [r1, r2]" "external_transactions s' = external_transactions s @ [t]" "payments s' = payments s"
    using posts by (simp_all add: posts_split)
  have own: "own_rows p s' = own_rows p s" for p
    using s'(1) rows by (simp add: own_rows_def payment_rows_def movement_row_def)
  have fresh: "xr_id y \<noteq> xr_id t" if "y \<in> set (external_transactions s)" for y
    using clash that by (auto simp: transaction_clash_def)
  have legs: "movement_legs (xr_group y) (xr_id y) s' = movement_legs (xr_group y) (xr_id y) s" if "y \<in> set (external_transactions s)" for y
    using s'(1) rows fresh [OF that] by (simp add: movement_legs_def movement_row_def)
  have none: "le_external_transaction x \<noteq> Some (xr_id t)" if "x \<in> set (ledger s)" for x
    using inv(2) fresh that by (fastforce simp: keyed_def)
  then have "movement_legs (xr_group t) (xr_id t) s' = [r1, r2]"
    using s'(1) rows t(1) by (auto simp: movement_legs_def movement_row_def filter_empty_conv)
  then have "cancelled_legs t s'" using amounts by (simp add: cancelled_legs_def)
  then have "cancelled_legs y s'" if "y \<in> set (external_transactions s')" for y
    using that s'(2) inv(1) legs by (auto simp: squared_def cancelled_legs_def)
  moreover have "settled_rows p s'" if "p \<in> set (payments s')" for p
    using that inv(1) s'(2,3) t(2) unfolding settled_rows_def own by (auto simp: squared_def settled_rows_def)
  moreover have "rows_sum (\<lambda>x. le_group x = h) [r1, r2] = 0" for h
    using rows amounts by (simp add: movement_row_def)
  then have "balanced s'" by (rule balanced_append [OF squared_balanced [OF inv(1)] s'(1)])
  ultimately show ?thesis by (auto simp: squared_def)
qed

section \<open>The books are sound\<close>

definition sound :: "db \<Rightarrow> bool" where
  "sound s \<longleftrightarrow> booked s \<and> keyed s \<and> squared s \<and> one_open s"

lemma external_transaction_rows [simp]:
  "le_external_transaction (charge_row i b d) = None" "le_external_transaction (revenue_row i b d) = None"
  by (simp_all add: charge_row_def revenue_row_def)

lemma squared_book:
  assumes "createBookingForTargetTxWithAllocationRebuild env svc actor m product q t reason d now rebuild s = Inr (b, s')" "squared s"
  shows "squared s'"
  using assms(1)
proof (rule createBooking_effect)
  fix i1 i2
  let ?row = "booking_of m product q t reason d (b_ID b) (Timestamp now)"
  assume led: "ledger s' = ledger s @ [charge_row i1 ?row (bd_ledgerDescription d), revenue_row i2 ?row (bd_ledgerDescription d)]"
    and stat: "static s' = static s"
  show "squared s'"
    by (rule squared_neutral [OF assms(2) led, of "[]"]) (use stat in \<open>simp_all add: static_def\<close>)
qed

lemma squared_void:
  assumes "void_new env svc actor m bid reason s = Inr (b, s')" "booked s" "squared s"
  shows "squared s'"
  using assms(1)
proof (rule void_new_effect)
  fix row cp at ids s1
  assume row: "first_row (\<lambda>x. bk_id x = bid \<and> bk_group x = m_GroupID m) (bookings s) = Some row"
    and one: "length (filter (\<lambda>x. bk_id x = bid \<and> bk_voided_at x = None) (bookings s)) = 1"
    and len: "length ids = length (original_rows bid s)"
    and led: "ledger s' = ledger s @ map2 (reversal_row (m_GroupID m) cp bid at) ids (original_rows bid s)"
    and stat: "static s' = static s"
  note t = void_target [OF assms(2) row one]
  obtain i1 i2 d where own: "filter (\<lambda>r. le_booking r = Some bid) (ledger s) = [charge_row i1 row d, revenue_row i2 row d]"
    "original_rows bid s = [charge_row i1 row d, revenue_row i2 row d]"
    using posted_originals [OF assms(2) t(1,4)] unfolding t(2) by blast
  obtain j1 j2 where ids: "ids = [j1, j2]" using two_ids [of ids] len own(2) by (auto simp: numeral_2_eq_2)
  have "charge_row i1 row d \<in> set (ledger s)" "revenue_row i2 row d \<in> set (ledger s)"
    using own(1) filter_is_subset [of "\<lambda>r. le_booking r = Some bid" "ledger s"] by auto
  then have "le_id (charge_row i1 row d) \<noteq> []" "le_id (revenue_row i2 row d) \<noteq> []"
    using assms(2) unfolding booked_def by blast+
  then have i: "i1 \<noteq> []" "i2 \<noteq> []" by simp_all
  show "squared s'"
    by (rule squared_neutral [OF assms(3) led, of "[]"]) (use stat own(2) ids i in \<open>simp_all add: static_def nullable_def\<close>)
qed

lemma mirror_sums:
  "list_all2 Q es rs \<Longrightarrow> (\<And>e r. Q e r \<Longrightarrow> mirrors g r e) \<Longrightarrow> sum_list (map le_amount rs) = - sum_list (map le_amount es)"
  by (induction rule: list_all2_induct) (auto simp: mirrors_def)

lemma mirror_rows:
  assumes "list_all2 Q es rs" "\<And>e r. Q e r \<Longrightarrow> mirrors g r e" "r \<in> set rs"
  shows "le_group r = g \<and> (\<exists>e\<in>set es. le_reversal_of r = nullable (le_id e))"
  using assms by (induction rule: list_all2_induct) (auto simp: mirrors_def)

lemma group_sum: "(\<And>r. r \<in> set rows \<Longrightarrow> le_group r = g) \<Longrightarrow> rows_sum (\<lambda>r. le_group r = h) rows = (if h = g then sum_list (map le_amount rows) else 0)"
  by (induction rows) auto

lemma squared_unmove:
  assumes "reverseTransactionTx env m tid bookedAt reason s = Inr (x, s')" and inv: "squared s" "keyed s"
  shows "squared s'"
  using assms(1)
proof (rule reverseTransaction_effect)
  fix t rv :: external_transaction_row and rows
  let ?g = "m_GroupID m"
  let ?Q = "\<lambda>leg r. mirrors ?g r leg \<and> le_external_transaction r = Some (xr_id rv) \<and> le_payment r = None \<and>
       le_membership r = None \<and> le_external_account r = le_external_account leg"
  assume e: "posts s s' rows [rv]" "t \<in> set (external_transactions s)" "xr_id t = tid" "xr_group t = ?g"
    "xr_kind t \<noteq> ''PAYMENT''" "xr_kind t \<noteq> ''REVERSAL''" "xr_kind rv = ''REVERSAL''"
    "list_all2 ?Q (movement_legs ?g tid s) rows"
  have s': "ledger s' = ledger s @ rows" "external_transactions s' = external_transactions s @ [rv]" "payments s' = payments s"
    using e(1) by (simp_all add: posts_split)
  have zero: "sum_list (map le_amount (movement_legs ?g tid s)) = 0"
    using inv(1) e(2-6) by (auto simp: squared_def cancelled_legs_def)
  have sum: "sum_list (map le_amount rows) = 0"
    using mirror_sums [OF e(8), of ?g] zero by simp
  have ids: "le_id e \<noteq> []" if "e \<in> set (movement_legs ?g tid s)" for e
    using inv(2) that by (auto simp: keyed_def movement_legs_def)
  have rows: "le_group r = ?g \<and> le_reversal_of r \<noteq> None" if "r \<in> set rows" for r
    using mirror_rows [OF e(8) _ that, of ?g] ids by (auto simp: nullable_def)
  show "squared s'"
  proof (rule squared_neutral [OF inv(1) s'(1,2)])
    show "map pkey (payments s') = map pkey (payments s)" by (simp only: s'(3))
    show "\<forall>r\<in>set rows. le_reversal_of r \<noteq> None \<or> le_payment r = None \<and> le_external_transaction r = None"
      using rows by blast
    show "rows_sum (\<lambda>r. le_group r = g) rows = 0" for g
      using group_sum [of rows ?g g] rows sum by simp
  qed (use e(7) in simp)
qed

lemma squared_unpay:
  assumes "reverse_payment_body env svc actor m pid reason s = Inr (u, s')" and inv: "squared s" "keyed s"
  shows "squared s'"
proof -
  have ids: "\<forall>r\<in>set (ledger s). le_id r \<noteq> []" "\<forall>p\<in>set (payments s). py_id p \<noteq> []"
    using inv(2) by (auto simp: keyed_def)
  show ?thesis
    using assms(1) ids
  proof (rule reverse_payment_effect)
    fix p now ext xrows txns rows
    let ?g = "m_GroupID m" and ?es = "payment_rows (m_GroupID m) pid s"
    let ?fs = "filter (\<lambda>e. \<not> (ext \<and> le_account e = ''EXTERNAL_ACCOUNT'')) ?es"
    assume e: "posts (s\<lparr>payments := update_rows (\<lambda>p. py_id p = pid \<and> py_reversed_at p = None) (reversed_row now (m_ID m) reason) (payments s)\<rparr>)
       s' (xrows @ rows) txns"
      "p \<in> set (payments s)" "py_id p = pid" "py_group p = ?g" "external_part ?g pid s ext xrows txns"
      "list_all2 (payment_mirror ?g pid) ?fs rows"
    have s': "ledger s' = ledger s @ (xrows @ rows)" "external_transactions s' = external_transactions s @ txns"
      "map pkey (payments s') = map pkey (payments s)"
      using e(1) by (simp_all add: posts_split pkey_reversed)
    have own: "own_rows p s = ?es" using e(3,4) by (simp add: own_rows_def)
    have settled: "sum_list (map le_amount ?es) = 0"
      "\<And>t. t \<in> set (external_transactions s) \<Longrightarrow> xr_group t = ?g \<and> xr_payment t = Some pid \<and> xr_kind t = ''PAYMENT'' \<Longrightarrow>
        rows_sum (\<lambda>r. le_account r = ''EXTERNAL_ACCOUNT'') ?es = xr_amount t"
      using inv(1) e(2-4) unfolding squared_def settled_rows_def own [symmetric] by auto
    have mirror: "sum_list (map le_amount rows) = - sum_list (map le_amount ?fs)"
      by (rule mirror_sums [OF e(6), of ?g]) (simp add: payment_mirror_def)
    have "le_id r \<noteq> []" if "r \<in> set ?fs" for r
      using that ids(1) by (auto simp: payment_rows_def)
    then have rows: "le_group r = ?g \<and> le_reversal_of r \<noteq> None" if "r \<in> set rows" for r
      using mirror_rows [OF e(6) _ that, of ?g] by (auto simp: payment_mirror_def nullable_def)
    have x: "\<forall>r\<in>set xrows. le_group r = ?g \<and> le_reversal_of r \<noteq> None" "\<forall>t\<in>set txns. xr_kind t = ''REVERSAL''"
      using e(5) by (auto simp: external_part_def split: if_split_asm)
    have sum: "sum_list (map le_amount (xrows @ rows)) = 0"
    proof (cases ext)
      case False
      then show ?thesis using e(5) mirror settled(1) by (simp add: external_part_def)
    next
      case True
      then obtain t leg r where t: "payment_leg ?g pid s = Some (t, leg)" "xrows = [r]" "le_amount r = - xr_amount t"
        using e(5) by (auto simp: external_part_def)
      have "rows_sum (\<lambda>r. le_account r = ''EXTERNAL_ACCOUNT'') ?es = xr_amount t"
        using payment_leg_Some [OF t(1)] by (intro settled(2)) blast+
      moreover have "rows_sum (\<lambda>r. le_account r = ''EXTERNAL_ACCOUNT'') ?es + sum_list (map le_amount ?fs) = sum_list (map le_amount ?es)"
        unfolding rows_sum_def using True by (simp add: sum_list_filter_split)
      ultimately show ?thesis using t mirror settled(1) by simp
    qed
    show "squared s'"
    proof (rule squared_neutral [OF inv(1) s'])
      show "\<forall>r\<in>set (xrows @ rows). le_reversal_of r \<noteq> None \<or> le_payment r = None \<and> le_external_transaction r = None"
        using rows x(1) by auto
      have grp: "le_group r = ?g" if "r \<in> set (xrows @ rows)" for r
        using that rows x(1) by auto
      show "rows_sum (\<lambda>r. le_group r = g) (xrows @ rows) = 0" for g
        by (rule trans [OF group_sum [of _ ?g]], erule grp, simp only: sum if_cancel)
    qed (rule x(2))
  qed
qed

interpretation sound: book_invariant sound
proof
  fix s s' :: db
  assume "core s' = core s" "sound s"
  then show "sound s'"
    by (simp add: sound_def core_def booked_def posted_def keyed_def squared_def balanced_def ledger_sum_def settled_rows_def own_rows_def
      payment_rows_def cancelled_legs_def movement_legs_def one_open_def)
next
  fix env svc actor m product q t reason d now rebuild
  show "preserves sound (createBookingForTargetTxWithAllocationRebuild env svc actor m product q t reason d now rebuild)"
  proof (rule validI)
    fix s b s'
    assume s: "sound s" and run: "createBookingForTargetTxWithAllocationRebuild env svc actor m product q t reason d now rebuild s = Inr (b, s')"
    have "one_open s'"
      using run s by (elim createBooking_effect) (simp add: sound_def one_open_def static_def)
    then show "sound s'"
      using s validD [OF keyed.book _ run] booked_create [OF run] squared_book [OF run] by (simp add: sound_def)
  qed
next
  fix env svc actor m bid reason
  show "preserves sound (void_new env svc actor m bid reason)"
  proof (rule validI)
    fix s b s'
    assume s: "sound s" and run: "void_new env svc actor m bid reason s = Inr (b, s')"
    have "one_open s'"
      using run s by (elim void_new_effect) (simp add: sound_def one_open_def static_def)
    then show "sound s'"
      using s validD [OF keyed.void _ run] booked_void_new [OF run] squared_void [OF run] by (simp add: sound_def)
  qed
next
  fix env svc actor m p ci due
  show "preserves sound (close_period env svc actor m p ci due)"
  proof (rule validI)
    fix s r s'
    assume s: "sound s" and run: "close_period env svc actor m p ci due s = Inr (r, s')"
    have "preserves (\<lambda>s. booked s \<and> squared s) (close_period env svc actor m p ci due)"
      by (rule preserves_close_period)
        (simp_all add: core_def booked_def posted_def squared_def balanced_def ledger_sum_def settled_rows_def own_rows_def
          payment_rows_def cancelled_legs_def movement_legs_def)
    then have "booked s' \<and> squared s'" using s run by (elim validD) (simp_all add: sound_def)
    then show "sound s'"
      using s validD [OF keyed.close _ run] one_open_close [OF _ run] by (simp add: sound_def)
  qed
next
  fix env svc actor m input at att self
  show "preserves sound (record_payment env svc actor m input at att self)"
  proof (rule validI)
    fix s x s'
    assume s: "sound s" and run: "record_payment env svc actor m input at att self s = Inr (x, s')"
    obtain y now where x: "x = (y, now)" by (cases x)
    from run [unfolded x] have "booked s' \<and> squared s' \<and> one_open s'"
    proof (rule record_payment_effect)
      fix p rows txns
      assume e: "posts (s\<lparr>payments := payments s @ [p]\<rparr>) s' rows txns" "payment_posting p rows txns"
        "\<forall>t\<in>set txns. \<forall>y\<in>set (external_transactions s). \<not> transaction_clash y t" "\<forall>y\<in>set (payments s). py_id y \<noteq> py_id p"
      have "\<forall>r\<in>set rows. le_booking r = None \<and> le_id r \<noteq> []"
        using e(2) by (auto simp: payment_posting_def payment_row_shape_def)
      then have "booked s'"
        using s e(1) by (intro booked_other_rows [of s s' rows]) (simp_all add: sound_def posts_split)
      moreover have "squared s'" using squared_payment [OF _ _ e(1,2,4,3)] s by (simp add: sound_def)
      moreover have "one_open s'" using s e(1) by (simp add: sound_def one_open_def posts_split)
      ultimately show ?thesis by simp
    qed
    then show "sound s'"
      using s validD [OF keyed.pay _ run] by (simp add: sound_def)
  qed
next
  fix env svc actor m pid reason
  show "preserves sound (reverse_payment_body env svc actor m pid reason)"
  proof (rule validI)
    fix s u s'
    assume s: "sound s" and run: "reverse_payment_body env svc actor m pid reason s = Inr (u, s')"
    have ids: "\<forall>r\<in>set (ledger s). le_id r \<noteq> []" "\<forall>p\<in>set (payments s). py_id p \<noteq> []"
      using s by (auto simp: sound_def keyed_def)
    from run ids have "booked s' \<and> one_open s'"
    proof (rule reverse_payment_effect)
      fix p now ext xrows txns rows
      let ?fs = "filter (\<lambda>e. \<not> (ext \<and> le_account e = ''EXTERNAL_ACCOUNT'')) (payment_rows (m_GroupID m) pid s)"
      assume e: "posts (s\<lparr>payments := update_rows (\<lambda>p. py_id p = pid \<and> py_reversed_at p = None) (reversed_row now (m_ID m) reason) (payments s)\<rparr>)
         s' (xrows @ rows) txns" "external_part (m_GroupID m) pid s ext xrows txns"
        "list_all2 (payment_mirror (m_GroupID m) pid) ?fs rows"
      have "le_booking r = None \<and> le_id r \<noteq> []" if "r \<in> set rows" for r
        using e(3) that by (induction rule: list_all2_induct) (auto simp: payment_mirror_def mirrors_def)
      moreover have "\<forall>r\<in>set xrows. le_booking r = None \<and> le_id r \<noteq> []"
        using e(2) by (auto simp: external_part_def split: if_split_asm)
      ultimately have "booked s'"
        using s e(1) by (intro booked_other_rows [of s s' "xrows @ rows"]) (auto simp: sound_def posts_split)
      then show ?thesis using s e(1) by (simp add: sound_def one_open_def posts_split)
    qed
    then show "sound s'"
      using s validD [OF keyed.unpay _ run] squared_unpay [OF run] by (simp add: sound_def)
  qed
next
  fix env m ni att
  show "preserves sound (createManualTransactionTx env m ni att)"
  proof (rule validI)
    fix s x s'
    assume s: "sound s" and run: "createManualTransactionTx env m ni att s = Inr (x, s')"
    from run have "booked s' \<and> squared s' \<and> one_open s'"
    proof (rule createManual_effect)
      fix t :: external_transaction_row and r1 r2
      assume e: "posts s s' [r1, r2] [t]" "xr_group t = m_GroupID m" "xr_payment t = None" "transaction_ok s t"
        "\<forall>y\<in>set (external_transactions s). \<not> transaction_clash y t"
        "movement_row (m_GroupID m) (xr_id t) r1" "movement_row (m_GroupID m) (xr_id t) r2"
        "le_amount r1 = nx_AmountMinor ni" "le_amount r2 = - nx_AmountMinor ni"
      have "booked s'"
        using s e(1,6,7) by (intro booked_other_rows [of s s' "[r1, r2]"]) (simp_all add: sound_def posts_split movement_row_def)
      moreover have "squared s'"
        by (rule squared_movement [OF _ _ e(1,6,7,2) _ _ e(5)]) (use s e(3,4,8,9) in \<open>auto simp: sound_def transaction_ok_def\<close>)
      moreover have "one_open s'" using s e(1) by (simp add: sound_def one_open_def posts_split)
      ultimately show ?thesis by simp
    qed
    then show "sound s'"
      using s validD [OF keyed.move _ run] by (simp add: sound_def)
  qed
next
  fix env m tid bookedAt reason
  show "preserves sound (reverseTransactionTx env m tid bookedAt reason)"
  proof (rule validI)
    fix s x s'
    assume s: "sound s" and run: "reverseTransactionTx env m tid bookedAt reason s = Inr (x, s')"
    from run have "booked s' \<and> one_open s'"
    proof (rule reverseTransaction_effect)
      fix t rv :: external_transaction_row and rows
      let ?Q = "\<lambda>leg r. mirrors (m_GroupID m) r leg \<and> le_external_transaction r = Some (xr_id rv) \<and> le_payment r = None \<and>
       le_membership r = None \<and> le_external_account r = le_external_account leg"
      assume e: "posts s s' rows [rv]" "list_all2 ?Q (movement_legs (m_GroupID m) tid s) rows"
      have "le_booking r = None \<and> le_id r \<noteq> []" if "r \<in> set rows" for r
        using e(2) that by (induction rule: list_all2_induct) (auto simp: mirrors_def)
      then have "booked s'"
        using s e(1) by (intro booked_other_rows [of s s' rows]) (auto simp: sound_def posts_split)
      then show ?thesis using s e(1) by (simp add: sound_def one_open_def posts_split)
    qed
    then show "sound s'"
      using s validD [OF keyed.unmove _ run] squared_unmove [OF run] by (simp add: sound_def)
  qed
qed

section \<open>Every reachable database\<close>

lemma founded_sound: "founded s \<Longrightarrow> sound s"
  by (simp add: founded_def sound_def booked_def keyed_def squared_def balanced_def ledger_sum_def)

lemma reachable_sound: "reachable env svc s \<Longrightarrow> sound s"
  by (rule sound.reachable_holds [OF founded_sound])

text \<open>C2. In every database the commands can reach, in any interleaving of their transactions and whatever
  happens to the other tables, the books balance: the ledger of every group sums to zero, every booking
  owns exactly its two rows and, once reversed, the two mirrored rows, the original rows of every payment
  cancel and charge nobody but its payer, the legs of every manual movement cancel, and no group has
  two open periods.\<close>

theorem reachable_books_balance:
  assumes "reachable env svc s"
  shows "(\<forall>g. ledger_sum (\<lambda>r. le_group r = g) s = 0) \<and>
    (\<forall>b\<in>set (bookings s). posted s b) \<and>
    (\<forall>p\<in>set (payments s). sum_list (map le_amount (payment_rows (py_group p) (py_id p) s)) = 0 \<and>
       (\<forall>x. x \<noteq> [] \<longrightarrow> rows_sum (member_row (py_group p) x) (payment_rows (py_group p) (py_id p) s)
          = (if x = py_membership p then - py_amount p else 0))) \<and>
    (\<forall>t\<in>set (external_transactions s). xr_kind t \<noteq> ''PAYMENT'' \<and> xr_kind t \<noteq> ''REVERSAL'' \<longrightarrow>
       sum_list (map le_amount (movement_legs (xr_group t) (xr_id t) s)) = 0) \<and>
    (\<forall>g. length (filter (\<lambda>p. pe_group p = g \<and> pe_status p = ''OPEN'') (periods s)) \<le> 1)"
proof -
  have s: "booked s" "squared s" "one_open s"
    using reachable_sound [OF assms] by (simp_all add: sound_def)
  have "\<forall>b\<in>set (bookings s). posted s b" using s(1) by (simp add: booked_def)
  moreover have "\<forall>g. ledger_sum (\<lambda>r. le_group r = g) s = 0" using s(2) by (simp add: squared_def balanced_def)
  moreover have "sum_list (map le_amount (payment_rows (py_group p) (py_id p) s)) = 0"
    "x \<noteq> [] \<Longrightarrow> rows_sum (member_row (py_group p) x) (payment_rows (py_group p) (py_id p) s) = (if x = py_membership p then - py_amount p else 0)"
    if "p \<in> set (payments s)" for p x
    using s(2) that by (auto simp: squared_def settled_rows_def own_rows_def)
  moreover have "sum_list (map le_amount (movement_legs (xr_group t) (xr_id t) s)) = 0"
    if "t \<in> set (external_transactions s)" "xr_kind t \<noteq> ''PAYMENT'' \<and> xr_kind t \<noteq> ''REVERSAL''" for t
    using s(2) that by (auto simp: squared_def cancelled_legs_def)
  moreover have "\<forall>g. length (filter (\<lambda>p. pe_group p = g \<and> pe_status p = ''OPEN'') (periods s)) \<le> 1"
    using s(3) by (simp add: one_open_def)
  ultimately show ?thesis by blast
qed

text \<open>An income and then a cash payment of a member: the cash box holds both, the books balance.\<close>

definition cash_payment :: create_payment_input where
  "cash_payment = \<lparr>pi_MembershipID = ''n'', pi_AmountMinor = 200, pi_ReceivedAt = [], pi_Method = ''c'', pi_Reference = [], pi_Note = []\<rparr>"

definition cashed :: "payment result \<times> db" where
  "cashed = CreatePayment fixed_env mail_only \<lparr>UserID = ''u''\<rparr> uta ''key-0007'' cash_payment (snd earned)"

lemma reachable_cashed: "reachable fixed_env mail_only (snd cashed)"
  unfolding cashed_def by (intro reachable_finance reachable_earned)

theorem reachable_books_balance_witness:
  "length (ledger (snd cashed)) = 4 \<and> external_total ''g'' ''a'' (snd cashed) = 700 \<and>
   ledger_sum (\<lambda>r. le_group r = ''g'') (snd cashed) = 0"
proof -
  have "length (ledger (snd cashed)) = 4 \<and> external_total ''g'' ''a'' (snd cashed) = 700"
    by code_simp
  then show ?thesis using reachable_books_balance [OF reachable_cashed] by simp
qed

end
