(* ===== verification/Accounts.thy ===== *)
theory Accounts
  imports Balance
begin

text \<open>
  What members see of the books, as an abstract machine: a balance per member, the payments with what they
  credited, and the set of used request keys. The commands refine it: each one that answers changes the
  abstract state exactly as its answer says, a repeated key changes nothing, and neither does an error.
\<close>

section \<open>Reversing a payment\<close>

lemma ReversePayment_new:
  assumes run: "ReversePayment env svc actor m key pid reason s = (Inr u, s')"
    and new: "\<forall>r\<in>set (idempotency s). \<not> (ir_group r = m_GroupID m \<and> ir_user r = UserID actor \<and> ir_key r = key)"
  obtains s1 where "reverse_payment_body env svc actor m pid (TrimSpace reason) s = Inr ((), s1)"
    "Store env (m_GroupID m) (UserID actor) key (Hash env (ReqReversePayment pid (TrimSpace reason))) 204 (RespPaymentReversed pid) s1 = Inr ((), s')"
proof -
  let ?h = "Hash env (ReqReversePayment pid (TrimSpace reason))"
  have load: "Load (m_GroupID m) (UserID actor) key ?h s = Inr (None, s)"
    using new by (simp add: Load_None)
  from run have "reverse_payment_tx env svc actor m key pid (TrimSpace reason) s = Inr ((), s')"
    by (auto simp: ReversePayment_def Let_def WithTx_def split: sum.splits prod.splits if_splits)
  then show thesis
    unfolding reverse_payment_tx_def Let_def
    by (auto simp: bind_eq_Inr requirePermission_Inr load intro: that)
qed

lemma mirror_member_sums:
  assumes "list_all2 (payment_mirror g pid) es rs" "x \<noteq> []" "\<forall>e\<in>set es. le_group e = g"
  shows "rows_sum (member_row h x) rs = - rows_sum (member_row h x) es"
  using assms
proof (induction rule: list_all2_induct)
  case (Cons e es r rs)
  have "nullable (coalesce_text (le_membership e)) = Some x \<longleftrightarrow> le_membership e = Some x"
    using assms(2) by (cases "le_membership e") (auto simp: coalesce_text_def)
  then have "member_row h x r = member_row h x e"
    using Cons.hyps(1) Cons.prems(2) by (simp add: member_row_def payment_mirror_def mirrors_def)
  moreover have "le_amount r = - le_amount e" using Cons.hyps(1) by (simp add: payment_mirror_def mirrors_def)
  moreover have "rows_sum (member_row h x) rs = - rows_sum (member_row h x) es" using Cons by simp
  ultimately show ?case by simp
qed simp

text \<open>The effect of a reversal on balances and payments.\<close>

lemma reverse_payment_balances:
  assumes run: "reverse_payment_body env svc actor m pid reason s = Inr (u, s')" and sound: "sound s"
  obtains p now where "p \<in> set (payments s)" "py_id p = pid" "py_group p = m_GroupID m" "py_reversed_at p = None"
    "payments s' = update_rows (\<lambda>p. py_id p = pid \<and> py_reversed_at p = None) (reversed_row now (m_ID m) reason) (payments s)"
    "\<And>g x. x \<noteq> [] \<Longrightarrow> member_balance g x s' =
       member_balance g x s + (if g = m_GroupID m \<and> x = py_membership p then py_amount p else 0)"
    "bookings s' = bookings s" "periods s' = periods s" "idempotency s' = idempotency s"
proof -
  have ids: "\<forall>r\<in>set (ledger s). le_id r \<noteq> []" "\<forall>p\<in>set (payments s). py_id p \<noteq> []" and sq: "squared s"
    using sound by (auto simp: sound_def keyed_def)
  from run ids show thesis
  proof (rule reverse_payment_effect)
    fix p now ext xrows txns rows
    let ?g = "m_GroupID m" and ?es = "payment_rows (m_GroupID m) pid s"
    let ?fs = "filter (\<lambda>e. \<not> (ext \<and> le_account e = ''EXTERNAL_ACCOUNT'')) ?es"
    assume e: "posts (s\<lparr>payments := update_rows (\<lambda>p. py_id p = pid \<and> py_reversed_at p = None) (reversed_row now (m_ID m) reason) (payments s)\<rparr>)
       s' (xrows @ rows) txns"
      "p \<in> set (payments s)" "py_id p = pid" "py_group p = ?g" "py_reversed_at p = None" "external_part ?g pid s ext xrows txns"
      "list_all2 (payment_mirror ?g pid) ?fs rows"
    have s': "ledger s' = ledger s @ (xrows @ rows)"
      "payments s' = update_rows (\<lambda>p. py_id p = pid \<and> py_reversed_at p = None) (reversed_row now (m_ID m) reason) (payments s)"
      "bookings s' = bookings s" "periods s' = periods s" "idempotency s' = idempotency s"
      using e(1) by (simp_all add: posts_split)
    have es: "\<forall>r\<in>set ?es. le_group r = ?g" by (simp add: payment_rows_def)
    have bal: "member_balance g x s' = member_balance g x s + (if g = ?g \<and> x = py_membership p then py_amount p else 0)" if x: "x \<noteq> []" for g x
    proof -
      have "rows_sum (member_row g x) xrows = 0"
        using e(6) by (intro rows_sum_zero) (auto simp: external_part_def member_row_def split: if_split_asm)
      moreover have "rows_sum (member_row g x) rows = - rows_sum (member_row g x) ?fs"
        by (rule mirror_member_sums [OF e(7) x]) (use es in simp)
      moreover have "rows_sum (member_row g x) ?fs = rows_sum (member_row g x) ?es"
        unfolding rows_sum_def filter_filter
        by (rule arg_cong [of _ _ sum_list], rule arg_cong [of _ _ "map _"], rule filter_cong) (auto simp: member_row_def)
      moreover have "rows_sum (member_row g x) ?es = (if g = ?g \<and> x = py_membership p then - py_amount p else 0)"
      proof (cases "g = ?g")
        case True
        have "rows_sum (member_row ?g x) ?es = (if x = py_membership p then - py_amount p else 0)"
          using sq e(2-4) x by (auto simp: squared_def settled_rows_def own_rows_def)
        then show ?thesis using True by simp
      next
        case False
        then show ?thesis using es by (auto intro!: rows_sum_zero simp: member_row_def)
      qed
      ultimately show ?thesis using member_balance_append [OF s'(1), of g x] by simp
    qed
    show thesis by (rule that [OF e(2-5) s'(2) bal s'(3-5)])
  qed
qed

text \<open>A payment that is already reversed cannot be reversed again under any other key.\<close>

lemma ReversePayment_again:
  assumes reversed: "\<forall>p\<in>set (payments s). py_id p = pid \<longrightarrow> py_reversed_at p \<noteq> None"
    and new: "\<forall>r\<in>set (idempotency s). \<not> (ir_group r = m_GroupID m \<and> ir_user r = UserID actor \<and> ir_key r = key)"
  shows "isl (fst (ReversePayment env svc actor m key pid reason s))"
proof (rule ccontr)
  assume "\<not> isl (fst (ReversePayment env svc actor m key pid reason s))"
  then obtain u s' where "ReversePayment env svc actor m key pid reason s = (Inr u, s')"
    by (metis outcome_Inr)
  then obtain s1 where body: "reverse_payment_body env svc actor m pid (TrimSpace reason) s = Inr ((), s1)"
    by (rule ReversePayment_new [OF _ new])
  obtain x s2 where "payment_to_reverse (m_GroupID m) pid s = Inr (x, s2)"
    using body unfolding reverse_payment_body_def by (rule bind_InrE)
  moreover obtain p currency tm where "x = (p, currency, tm)" by (cases x)
  ultimately show False using payment_to_reverse_Inr reversed by blast
qed

lemma reversed_all:
  assumes "p \<in> set (update_rows (\<lambda>p. py_id p = pid \<and> py_reversed_at p = None) (reversed_row now mid reason) ps)" "py_id p = pid"
  shows "py_reversed_at p \<noteq> None"
proof -
  obtain y where y: "p = (if py_id y = pid \<and> py_reversed_at y = None then reversed_row now mid reason y else y)"
    using assms(1) unfolding update_rows_def set_map by blast
  show ?thesis
  proof (cases "py_id y = pid \<and> py_reversed_at y = None")
    case True
    show ?thesis unfolding y if_P [OF True] by simp
  next
    case False
    have eq: "p = y" using y unfolding if_not_P [OF False] .
    show ?thesis using False assms(2) unfolding eq by simp
  qed
qed

text \<open>C7. Reversing a payment under a fresh key undoes exactly that payment and only once: the payment was
  posted in the caller's group and not reversed before, the payer owes the amount again, every other
  balance, all bookings and all periods stay, and no second reversal under another key can succeed.\<close>

theorem ReversePayment_restores_debt:
  assumes reach: "reachable env svc s" and run: "ReversePayment env svc actor m key pid reason s = (Inr u, s')"
    and new: "\<forall>r\<in>set (idempotency s). \<not> (ir_group r = m_GroupID m \<and> ir_user r = UserID actor \<and> ir_key r = key)"
  shows "\<exists>p. p \<in> set (payments s) \<and> py_id p = pid \<and> py_group p = m_GroupID m \<and> py_reversed_at p = None \<and>
    (\<forall>g x. x \<noteq> [] \<longrightarrow> member_balance g x s' =
       member_balance g x s + (if g = m_GroupID m \<and> x = py_membership p then py_amount p else 0)) \<and>
    bookings s' = bookings s \<and> periods s' = periods s \<and>
    (\<forall>env' svc' actor' m' key' reason'.
      (\<forall>r\<in>set (idempotency s'). \<not> (ir_group r = m_GroupID m' \<and> ir_user r = UserID actor' \<and> ir_key r = key')) \<longrightarrow>
      isl (fst (ReversePayment env' svc' actor' m' key' pid reason' s')))"
  using run new
proof (rule ReversePayment_new)
  fix s1
  assume body: "reverse_payment_body env svc actor m pid (TrimSpace reason) s = Inr ((), s1)"
    and store: "Store env (m_GroupID m) (UserID actor) key (Hash env (ReqReversePayment pid (TrimSpace reason))) 204 (RespPaymentReversed pid) s1 = Inr ((), s')"
  have core: "core s' = core s1" by (rule keepsD [OF keeps_core_services(1) store])
  from body reachable_sound [OF reach] show ?thesis
  proof (rule reverse_payment_balances)
    fix p now
    assume p: "p \<in> set (payments s)" "py_id p = pid" "py_group p = m_GroupID m" "py_reversed_at p = None"
      and pays: "payments s1 = update_rows (\<lambda>p. py_id p = pid \<and> py_reversed_at p = None) (reversed_row now (m_ID m) (TrimSpace reason)) (payments s)"
      and bal: "\<And>g x. x \<noteq> [] \<Longrightarrow> member_balance g x s1 = member_balance g x s + (if g = m_GroupID m \<and> x = py_membership p then py_amount p else 0)"
      and rest: "bookings s1 = bookings s" "periods s1 = periods s"
    have "member_balance g x s' = member_balance g x s1" for g x
      using core by (simp add: member_balance_def ledger_sum_def core_def)
    moreover have "\<forall>p\<in>set (payments s'). py_id p = pid \<longrightarrow> py_reversed_at p \<noteq> None"
      using core pays reversed_all by (auto simp: core_def)
    ultimately show ?thesis
      using p bal rest core by (intro exI [of _ p] conjI allI impI ReversePayment_again) (simp_all add: core_def)
  qed
qed

text \<open>A cash payment of a member is recorded and reversed.\<close>

definition deposit :: "payment result \<times> db" where
  "deposit = CreatePayment fixed_env mail_only \<lparr>UserID = ''u''\<rparr> uta ''key-0007'' cash_payment till"

definition refund :: "db \<Rightarrow> unit result \<times> db" where
  "refund s = ReversePayment fixed_env mail_only \<lparr>UserID = ''u''\<rparr> uta ''key-0008'' (py_id (hd (payments s))) ''r'' s"

lemma reachable_deposit: "reachable fixed_env mail_only (snd deposit)"
  unfolding deposit_def by (intro reachable_finance reachable.start founded_till)

theorem ReversePayment_restores_debt_witness:
  "member_balance ''g'' ''n'' (snd deposit) = - 200 \<and> member_balance ''g'' ''n'' (snd (refund (snd deposit))) = 0 \<and>
   \<not> isl (fst (refund (snd deposit)))"
proof -
  let ?s = "snd deposit"
  have "case deposit of (_, s) \<Rightarrow> \<not> isl (fst (refund s)) \<and> member_balance ''g'' ''n'' s = - 200 \<and>
      map py_membership (payments s) = [''n''] \<and> map py_amount (payments s) = [200] \<and> list_all (\<lambda>r. ir_key r \<noteq> ''key-0008'') (idempotency s)"
    by code_simp
  then have ev: "\<not> isl (fst (refund ?s))" "member_balance ''g'' ''n'' ?s = - 200"
    "map py_membership (payments ?s) = [''n'']" "map py_amount (payments ?s) = [200]" "list_all (\<lambda>r. ir_key r \<noteq> ''key-0008'') (idempotency ?s)"
    by (simp_all only: case_prod_beta simp_thms)
  obtain u where ok: "refund ?s = (Inr u, snd (refund ?s))"
    using outcome_Inr [OF ev(1)] by blast
  have run: "ReversePayment fixed_env mail_only \<lparr>UserID = ''u''\<rparr> uta ''key-0008'' (py_id (hd (payments ?s))) ''r'' ?s
      = (Inr u, snd (refund ?s))"
    unfolding refund_def [symmetric] by (rule ok)
  have new: "\<forall>r\<in>set (idempotency ?s). \<not> (ir_group r = m_GroupID uta \<and> ir_user r = UserID \<lparr>UserID = ''u''\<rparr> \<and> ir_key r = ''key-0008'')"
    using ev(5) by (simp add: list_all_iff)
  obtain p where p: "p \<in> set (payments ?s)" and bal: "\<forall>g x. x \<noteq> [] \<longrightarrow> member_balance g x (snd (refund ?s)) =
      member_balance g x ?s + (if g = m_GroupID uta \<and> x = py_membership p then py_amount p else 0)"
    using ReversePayment_restores_debt [OF reachable_deposit run new] by blast
  have "py_membership p \<in> set (map py_membership (payments ?s))" "py_amount p \<in> set (map py_amount (payments ?s))"
    using p by simp_all
  then have "py_membership p = ''n''" "py_amount p = 200" unfolding ev(3,4) by simp_all
  moreover have "m_GroupID uta = ''g''" by (simp add: uta_def)
  ultimately show ?thesis using bal ev(1,2) by simp
qed

section \<open>The abstract machine\<close>

text \<open>Balances by group and member, payments with group, payer, amount and whether they are reversed, and the
  request keys that were used.\<close>

record account_book =
  ab_balance :: "string \<times> string \<Rightarrow> int"
  ab_payments :: "string \<Rightarrow> (string \<times> string \<times> int \<times> bool) option"
  ab_keys :: "(string \<times> string \<times> string) set"

definition book_of :: "db \<Rightarrow> account_book" where
  "book_of s = \<lparr>ab_balance = (\<lambda>(g, x). if x = [] then 0 else member_balance g x s),
     ab_payments = (\<lambda>i. map_option (\<lambda>p. (py_group p, py_membership p, py_amount p, py_reversed_at p \<noteq> None))
       (first_row (\<lambda>p. py_id p = i) (payments s))),
     ab_keys = set (map (\<lambda>r. (ir_group r, ir_user r, ir_key r)) (idempotency s))\<rparr>"

datatype command =
    DoCreate principal membership string create_booking_input
  | DoVoid principal membership string string string
  | DoPay principal membership string create_payment_input "stored_attachment result option" bool
  | DoUnpay principal membership string string string
  | DoClose principal membership string string close_input

datatype answer = ABooking booking | APayment payment | AClosed close_result | ADone

definition answered :: "('a \<Rightarrow> answer) \<Rightarrow> 'a result \<times> db \<Rightarrow> answer result \<times> db" where
  "answered f r = (map_sum id f (fst r), snd r)"

fun run :: "env \<Rightarrow> notification_service \<Rightarrow> command \<Rightarrow> db \<Rightarrow> answer result \<times> db" where
  "run env svc (DoCreate actor m key i) s = answered ABooking (Create env svc actor m key i s)"
| "run env svc (DoVoid actor m key bid reason) s = answered ABooking (Void env svc actor m key bid reason s)"
| "run env svc (DoPay actor m key i upload self) s = answered APayment (createPayment env svc actor m key i upload self s)"
| "run env svc (DoUnpay actor m key pid reason) s = answered (\<lambda>_. ADone) (ReversePayment env svc actor m key pid reason s)"
| "run env svc (DoClose actor m key period ci) s = answered AClosed (Close env svc actor m key period ci s)"

fun command_key :: "command \<Rightarrow> string \<times> string \<times> string" where
  "command_key (DoCreate actor m key _) = (m_GroupID m, UserID actor, key)"
| "command_key (DoVoid actor m key _ _) = (m_GroupID m, UserID actor, key)"
| "command_key (DoPay actor m key _ _ self) = (m_GroupID m, UserID actor, if self then ''self:'' @ key else key)"
| "command_key (DoUnpay actor m key _ _) = (m_GroupID m, UserID actor, key)"
| "command_key (DoClose actor m key _ _) = (m_GroupID m, UserID actor, key)"

definition adjust :: "string \<Rightarrow> string \<Rightarrow> int \<Rightarrow> account_book \<Rightarrow> account_book" where
  "adjust g x amount a =
    (if x = [] then a else a\<lparr>ab_balance := (ab_balance a)((g, x) := ab_balance a (g, x) + amount)\<rparr>)"

text \<open>What a command that answers does to the accounts.\<close>

fun effect :: "command \<Rightarrow> answer \<Rightarrow> account_book \<Rightarrow> account_book" where
  "effect (DoCreate _ m _ _) (ABooking b) a = adjust (m_GroupID m) (b_TargetMembershipID b) (b_TotalMinor b) a"
| "effect (DoVoid _ m _ _ _) (ABooking b) a = adjust (m_GroupID m) (b_TargetMembershipID b) (- b_TotalMinor b) a"
| "effect (DoPay _ m _ _ _ _) (APayment p) a =
    (adjust (m_GroupID m) (p_MembershipID p) (- p_AmountMinor p) a)\<lparr>ab_payments :=
      (ab_payments a)(p_ID p := Some (m_GroupID m, p_MembershipID p, p_AmountMinor p, False))\<rparr>"
| "effect (DoUnpay _ _ _ pid _) ADone a =
    (case ab_payments a pid of None \<Rightarrow> a
     | Some (g, x, n, _) \<Rightarrow> (adjust g x n a)\<lparr>ab_payments := (ab_payments a)(pid := Some (g, x, n, True))\<rparr>)"
| "effect _ _ a = a"

definition perform :: "command \<Rightarrow> answer result \<Rightarrow> account_book \<Rightarrow> account_book" where
  "perform c out a = (case out of Inl _ \<Rightarrow> a
     | Inr x \<Rightarrow> if command_key c \<in> ab_keys a then a
         else (effect c x a)\<lparr>ab_keys := insert (command_key c) (ab_keys a)\<rparr>)"

section \<open>Refinement\<close>

definition seen :: "db \<Rightarrow> _" where
  "seen s = (ledger s, payments s, idempotency s)"

lemma book_of_seen:
  assumes "seen s' = seen s" shows "book_of s' = book_of s"
proof -
  have bal: "member_balance g x s' = member_balance g x s" for g x
    using assms by (simp add: seen_def member_balance_def ledger_sum_def)
  have rest: "payments s' = payments s" "idempotency s' = idempotency s" using assms by (simp_all add: seen_def)
  show ?thesis unfolding book_of_def bal rest by (rule refl)
qed

lemma used_key: "(g, u, k) \<in> ab_keys (book_of s) \<longleftrightarrow> \<not> (\<forall>r\<in>set (idempotency s). \<not> (ir_group r = g \<and> ir_user r = u \<and> ir_key r = k))"
  by (auto simp: book_of_def)

text \<open>The abstract state after a command that used a fresh key.\<close>

lemma book_of_step:
  assumes bal: "\<And>g x. x \<noteq> [] \<Longrightarrow> member_balance g x s' = member_balance g x s + (if g = h \<and> x = y then n else 0)"
    and pays: "payments s' = payments s" and keys: "idempotency s' = idempotency s @ [r]"
  shows "book_of s' = (adjust h y n (book_of s))\<lparr>ab_keys := insert (ir_group r, ir_user r, ir_key r) (ab_keys (book_of s))\<rparr>"
  using bal by (auto simp: book_of_def adjust_def pays keys fun_eq_iff)

lemma Store_keys:
  "Store env g u k h c v s = Inr (x, s') \<Longrightarrow> \<exists>r. idempotency s' = idempotency s @ [r] \<and> ir_group r = g \<and> ir_user r = u \<and> ir_key r = k"
  by (auto simp: Store_def Now_def bind_eq_Inr insert_idempotency_def insert_row_Inr)

lemma store_result_keys:
  "store_result g u k h v now s = Inr (x, s') \<Longrightarrow> \<exists>r. idempotency s' = idempotency s @ [r] \<and> ir_group r = g \<and> ir_user r = u \<and> ir_key r = k"
  by (auto simp: store_result_def bind_eq_Inr insert_idempotency_def insert_row_Inr)

text \<open>A used key: whatever is answered, the accounts stay.\<close>

lemma Load_used:
  assumes "\<not> (\<forall>r\<in>set (idempotency s). \<not> (ir_group r = g \<and> ir_user r = u \<and> ir_key r = k))" "Load g u k h s = Inr (found, s1)"
  shows "s1 = s \<and> (\<exists>v. found = Some v)"
proof -
  have "found \<noteq> None"
  proof
    assume "found = None"
    then have "Load g u k h s = Inr (None, s1)" using assms(2) by simp
    then show False using assms(1) unfolding Load_None by (elim conjE notE)
  qed
  then show ?thesis using Load_state [OF assms(2)] by simp
qed

lemma replayed:
  assumes "\<not> (\<forall>r\<in>set (idempotency s). \<not> (ir_group r = g \<and> ir_user r = u \<and> ir_key r = k))"
    "tx_bind (Load g u k h) (\<lambda>found. case found of Some v \<Rightarrow> replay v | None \<Rightarrow> body) s = Inr (x, s')"
    "\<And>v. keeps seen (replay v)"
  shows "seen s' = seen s"
proof -
  obtain found s1 where l: "Load g u k h s = Inr (found, s1)" "(case found of Some v \<Rightarrow> replay v | None \<Rightarrow> body) s1 = Inr (x, s')"
    using assms(2) by (rule bind_InrE)
  obtain v where "found = Some v" "s1 = s" using Load_used [OF assms(1) l(1)] by blast
  then have "replay v s = Inr (x, s')" using l(2) by simp
  then show ?thesis by (rule keepsD [OF assms(3)])
qed

lemma refines:
  assumes err: "\<And>e. fst r = Inl e \<Longrightarrow> seen (snd r) = seen s"
    and used: "\<And>x s'. r = (Inr x, s') \<Longrightarrow> command_key c \<in> ab_keys (book_of s) \<Longrightarrow> seen s' = seen s"
    and new: "\<And>x s'. r = (Inr x, s') \<Longrightarrow> command_key c \<notin> ab_keys (book_of s) \<Longrightarrow>
      book_of s' = (effect c (f x) (book_of s))\<lparr>ab_keys := insert (command_key c) (ab_keys (book_of s))\<rparr>"
  shows "book_of (snd (answered f r)) = perform c (fst (answered f r)) (book_of s)"
proof (cases "fst r")
  case (Inl e)
  then show ?thesis using book_of_seen [OF err [OF Inl]] by (simp add: answered_def perform_def)
next
  case (Inr x)
  then have r: "r = (Inr x, snd r)" by (simp add: prod_eq_iff)
  show ?thesis
  proof (cases "command_key c \<in> ab_keys (book_of s)")
    case True
    then show ?thesis using book_of_seen [OF used [OF r True]] Inr by (simp add: answered_def perform_def)
  next
    case False
    then show ?thesis using new [OF r False] Inr by (simp add: answered_def perform_def)
  qed
qed

lemma seen_clock [simp]: "seen (s\<lparr>clock_reads := n\<rparr>) = seen s"
  by (simp add: seen_def)

lemma WithTx_seen: "fst (WithTx body s) = Inl e \<Longrightarrow> seen (snd (WithTx body s)) = seen s"
  by (simp add: WithTx_error)

lemma WithTx_Inr: "WithTx body s = (Inr x, s') \<longleftrightarrow> body s = Inr (x, s')"
  by (auto simp: WithTx_def split: sum.splits prod.splits)

lemma keeps_seen_refresh:
  "keeps seen (refreshBookingState env b m)" "keeps seen (refreshPaymentMemberStateTx p)"
  unfolding refreshBookingState_def applyCurrentVoidMetadata_def refreshPaymentMemberStateTx_def Let_def
  by (rule keepsI; intro pres_intros; simp)+

lemma seen_core: "core s' = core s \<Longrightarrow> idempotency s' = idempotency s \<Longrightarrow> seen s' = seen s"
  by (simp add: core_def seen_def)

lemma balance_ledger: "ledger s' = ledger s \<Longrightarrow> member_balance g x s' = member_balance g x s"
  by (simp add: member_balance_def ledger_sum_def)

subsection \<open>Bookings\<close>

lemma keeps_seen_replay:
  "keeps seen (case v of RespBooking b \<Rightarrow> refreshBookingState env b m | _ \<Rightarrow> fail e)"
  by (cases v) (simp_all add: keeps_seen_refresh, simp_all add: keeps_def)

lemma refine_Create:
  "book_of (snd (answered ABooking (Create env svc actor m key i s)))
     = perform (DoCreate actor m key i) (fst (answered ABooking (Create env svc actor m key i s))) (book_of s)"
proof (rule refines)
  fix e
  assume "fst (Create env svc actor m key i s) = Inl e"
  then show "seen (snd (Create env svc actor m key i s)) = seen s"
    by (auto simp: Create_def checked_def split: sum.splits dest: WithTx_seen)
next
  fix b s'
  assume run: "Create env svc actor m key i s = (Inr b, s')" and used: "command_key (DoCreate actor m key i) \<in> ab_keys (book_of s)"
  from run obtain j where "create_tx env svc actor m key j s = Inr (b, s')"
    by (auto simp: Create_def checked_def WithTx_Inr split: sum.splits)
  then show "seen s' = seen s"
    unfolding create_tx_def Let_def
    by (intro replayed [OF used [unfolded command_key.simps used_key]]) (auto intro: keeps_seen_replay split: option.splits)
next
  fix b s'
  assume run: "Create env svc actor m key i s = (Inr b, s')" and fresh: "command_key (DoCreate actor m key i) \<notin> ab_keys (book_of s)"
  have new: "\<forall>r\<in>set (idempotency s). \<not> (ir_group r = m_GroupID m \<and> ir_user r = UserID actor \<and> ir_key r = key)"
    using fresh unfolding command_key.simps used_key by blast
  from run new show "book_of s' = (effect (DoCreate actor m key i) (ABooking b) (book_of s))\<lparr>ab_keys :=
      insert (command_key (DoCreate actor m key i)) (ab_keys (book_of s))\<rparr>"
  proof (rule Create_new)
    fix j :: create_booking_input and reason d now s1 s2
    let ?row = "booking_of m (ci_ProductID j) (ci_Quantity j) (ci_TargetMembershipID j) reason d (b_ID b) (Timestamp now)"
    assume s1: "books s1 = books s" "idempotency s1 = idempotency s"
      and create: "createBookingForTargetTxWithAllocationRebuild env svc actor m (ci_ProductID j) (ci_Quantity j)
       (ci_TargetMembershipID j) reason d now True s1 = Inr (b, s2)"
      and store: "store_result (m_GroupID m) (UserID actor) key (Hash env (ReqCreateBooking j)) (RespBooking b) now s2 = Inr ((), s')"
    have s': "books s' = books s2" using store by (rule keepsD [OF keeps_books_store])
    obtain r where r: "idempotency s' = idempotency s2 @ [r]" "ir_group r = m_GroupID m" "ir_user r = UserID actor" "ir_key r = key"
      using store_result_keys [OF store] by blast
    from create show ?thesis
    proof (rule createBooking_effect)
      fix i1 i2
      assume e: "ledger s2 = ledger s1 @ [charge_row i1 ?row (bd_ledgerDescription d), revenue_row i2 ?row (bd_ledgerDescription d)]"
        "static s2 = static s1" "idempotency s2 = idempotency s1" "b_TotalMinor b = bd_totalMinor d" "b_TargetMembershipID b = ci_TargetMembershipID j"
      have led: "ledger s' = ledger s @ [charge_row i1 ?row (bd_ledgerDescription d), revenue_row i2 ?row (bd_ledgerDescription d)]"
        and pays: "payments s' = payments s"
        using s' s1 e(1,2) by (simp_all add: books_split static_def)
      have bal: "member_balance g x s' = member_balance g x s +
          (if g = m_GroupID m \<and> x = b_TargetMembershipID b then b_TotalMinor b else 0)" if "x \<noteq> []" for g x
        using member_balance_append [OF led, of g x] that e(4,5) by (auto simp: member_row_def)
      have "idempotency s' = idempotency s @ [r]" using r(1) e(3) s1(2) by simp
      from book_of_step [OF bal pays this] show ?thesis using r(2-4) by simp
    qed
  qed
qed

lemma refine_Void:
  assumes sound: "sound s"
  shows "book_of (snd (answered ABooking (Void env svc actor m key bid reason s)))
     = perform (DoVoid actor m key bid reason) (fst (answered ABooking (Void env svc actor m key bid reason s))) (book_of s)"
proof (rule refines)
  fix e
  assume "fst (Void env svc actor m key bid reason s) = Inl e"
  then show "seen (snd (Void env svc actor m key bid reason s)) = seen s"
    by (auto simp: Void_def Let_def split: sum.splits if_splits dest: WithTx_seen)
next
  fix b s'
  assume run: "Void env svc actor m key bid reason s = (Inr b, s')" and used: "command_key (DoVoid actor m key bid reason) \<in> ab_keys (book_of s)"
  from run have "void_tx env svc actor m key bid (TrimSpace reason) s = Inr (b, s')"
    by (auto simp: Void_def Let_def WithTx_Inr split: sum.splits if_splits)
  then show "seen s' = seen s"
    unfolding void_tx_def Let_def
    by (intro replayed [OF used [unfolded command_key.simps used_key]]) (auto intro: keeps_seen_replay split: option.splits)
next
  fix b s'
  assume run: "Void env svc actor m key bid reason s = (Inr b, s')" and fresh: "command_key (DoVoid actor m key bid reason) \<notin> ab_keys (book_of s)"
  have new: "\<forall>r\<in>set (idempotency s). \<not> (ir_group r = m_GroupID m \<and> ir_user r = UserID actor \<and> ir_key r = key)"
    using fresh unfolding command_key.simps used_key by blast
  let ?h = "Hash env (ReqVoidBooking bid (TrimSpace reason))"
  have load: "Load (m_GroupID m) (UserID actor) key ?h s = Inr (None, s)"
    using new by (simp add: Load_None)
  from run have "void_tx env svc actor m key bid (TrimSpace reason) s = Inr (b, s')"
    by (auto simp: Void_def Let_def WithTx_Inr split: sum.splits if_splits)
  then obtain s1 where vn: "void_new env svc actor m bid (TrimSpace reason) s = Inr (b, s1)"
    and store: "Store env (m_GroupID m) (UserID actor) key ?h 200 (RespBooking b) s1 = Inr ((), s')"
    unfolding void_tx_def Let_def bind_Inr [where m = "Load (m_GroupID m) (UserID actor) key ?h", OF load]
    by (auto simp: bind_eq_Inr)
  have core: "core s' = core s1" by (rule keepsD [OF keeps_core_services(1) store])
  obtain r where r: "idempotency s' = idempotency s1 @ [r]" "ir_group r = m_GroupID m" "ir_user r = UserID actor" "ir_key r = key"
    using Store_keys [OF store] by blast
  from vn show "book_of s' = (effect (DoVoid actor m key bid reason) (ABooking b) (book_of s))\<lparr>ab_keys :=
      insert (command_key (DoVoid actor m key bid reason)) (ab_keys (book_of s))\<rparr>"
  proof (rule void_new_effect)
    fix row cp at ids s2
    assume e: "first_row (\<lambda>x. bk_id x = bid \<and> bk_group x = m_GroupID m) (bookings s) = Some row"
      "length (filter (\<lambda>x. bk_id x = bid \<and> bk_voided_at x = None) (bookings s)) = 1"
      "length ids = length (original_rows bid s)"
      "ledger s1 = ledger s @ map2 (reversal_row (m_GroupID m) cp bid at) ids (original_rows bid s)"
      "static s1 = static s" "idempotency s1 = idempotency s" "b_TotalMinor b = bk_total row" "b_TargetMembershipID b = bk_target row"
    have inv: "booked s" using sound by (simp add: sound_def)
    note t = void_target [OF inv e(1,2)]
    obtain i1 i2 d where own: "original_rows bid s = [charge_row i1 row d, revenue_row i2 row d]"
      using posted_originals [OF inv t(1,4)] unfolding t(2) by blast
    obtain j1 j2 where ids: "ids = [j1, j2]" using two_ids [of ids] e(3) own by (auto simp: numeral_2_eq_2)
    let ?rev = "[reversal_row (m_GroupID m) cp bid at j1 (charge_row i1 row d), reversal_row (m_GroupID m) cp bid at j2 (revenue_row i2 row d)]"
    have led: "ledger s' = ledger s @ ?rev" using e(4) own ids core by (simp add: core_def)
    have pays: "payments s' = payments s" using core e(5) by (simp add: core_def static_def)
    have mem: "le_membership (reversal_row (m_GroupID m) cp bid at j1 (charge_row i1 row d)) = nullable (bk_target row)"
      "le_membership (reversal_row (m_GroupID m) cp bid at j2 (revenue_row i2 row d)) = None"
      by (simp_all add: reversal_row_membership)
    have bal: "member_balance g x s' = member_balance g x s +
        (if g = m_GroupID m \<and> x = b_TargetMembershipID b then - b_TotalMinor b else 0)" if "x \<noteq> []" for g x
      using member_balance_append [OF led, of g x] that mem e(7,8) by (auto simp: member_row_def)
    have "idempotency s' = idempotency s @ [r]" using r(1) e(6) by simp
    from book_of_step [OF bal pays this] show ?thesis using r(2-4) by simp
  qed
qed

subsection \<open>Payments and periods\<close>

lemma prepare_close_clock:
  "prepare_close env m key input s = Inr (x, s1) \<Longrightarrow> s1 = s\<lparr>clock_reads := Suc (clock_reads s)\<rparr>"
  by (auto simp: prepare_close_def Let_def bind_eq_Inr requireFinance_Inr Now_def)

lemma createPayment_parts:
  obtains (error) e s1 where "createPayment env svc actor m key i upload self s = (Inl e, s1)" "seen s1 = seen s"
  | (tx) j at att s1 where "s1 = s\<lparr>clock_reads := Suc (clock_reads s)\<rparr>" "createPayment env svc actor m key i upload self s =
      WithTx (create_payment_tx env svc actor m (if self then ''self:'' @ key else key) j at att self) s1"
proof (cases "prepare_payment env key i s")
  case (Inl e)
  then have "createPayment env svc actor m key i upload self s = (Inl e, s)" by (simp add: createPayment_def)
  then show thesis using error by blast
next
  case (Inr b)
  then obtain j at s1 where p: "prepare_payment env key i s = Inr ((j, at), s1)" by (cases b) auto
  have s1: "s1 = s\<lparr>clock_reads := Suc (clock_reads s)\<rparr>" using prepare_payment_Inr [OF p] by blast
  have run: "createPayment env svc actor m key i upload self s = (case upload of
          Some (Inl e) \<Rightarrow> (Inl e, s1)
        | Some (Inr a) \<Rightarrow> WithTx (create_payment_tx env svc actor m (if self then ''self:'' @ key else key) j at (Some a) self) s1
        | None \<Rightarrow> WithTx (create_payment_tx env svc actor m (if self then ''self:'' @ key else key) j at None self) s1)"
    unfolding createPayment_def p Let_def by simp
  show thesis
  proof (cases upload)
    case None
    then show thesis using tx [OF s1] run by simp
  next
    case (Some r)
    show thesis
    proof (cases r)
      case (Inl e)
      then show thesis using error run Some s1 by simp
    next
      case (Inr a)
      then show thesis using tx [OF s1] run Some by simp
    qed
  qed
qed

lemma refine_Pay:
  "book_of (snd (answered APayment (createPayment env svc actor m key i upload self s)))
     = perform (DoPay actor m key i upload self) (fst (answered APayment (createPayment env svc actor m key i upload self s))) (book_of s)"
proof (rule refines)
  fix e
  assume "fst (createPayment env svc actor m key i upload self s) = Inl e"
  then show "seen (snd (createPayment env svc actor m key i upload self s)) = seen s"
    by (cases rule: createPayment_parts [of env svc actor m key i upload self s]) (auto dest: WithTx_seen)
next
  fix x s'
  let ?k = "if self then ''self:'' @ key else key"
  assume run: "createPayment env svc actor m key i upload self s = (Inr x, s')"
    and used: "command_key (DoPay actor m key i upload self) \<in> ab_keys (book_of s)"
  then obtain j at att where tx: "create_payment_tx env svc actor m ?k j at att self (s\<lparr>clock_reads := Suc (clock_reads s)\<rparr>) = Inr (x, s')"
    by (cases rule: createPayment_parts [of env svc actor m key i upload self s]) (auto simp: WithTx_Inr)
  let ?s1 = "s\<lparr>clock_reads := Suc (clock_reads s)\<rparr>"
  have used1: "\<not> (\<forall>r\<in>set (idempotency ?s1). \<not> (ir_group r = m_GroupID m \<and> ir_user r = UserID actor \<and> ir_key r = ?k))"
    using used unfolding command_key.simps used_key by simp
  have replay: "keeps seen (case v of RespPayment p \<Rightarrow> refreshPaymentMemberStateTx p | _ \<Rightarrow> fail decode_error)" for v
    by (cases v) (simp_all add: keeps_seen_refresh, simp_all add: keeps_def)
  obtain s2 where s2: "requirePermission m (if self then ''RECORD_OWN_PAYMENT'' else ''FINANCE_MANAGEMENT'') ?s1 = Inr ((), s2)"
    and rest: "tx_bind (Load (m_GroupID m) (UserID actor) ?k (Hash env (ReqCreatePayment j (case att of None \<Rightarrow> [] | Some a \<Rightarrow> sa_SHA256 a))))
      (\<lambda>found. case found of Some v \<Rightarrow> (case v of RespPayment p \<Rightarrow> refreshPaymentMemberStateTx p | _ \<Rightarrow> fail decode_error)
       | None \<Rightarrow> tx_bind (record_payment env svc actor m j at att self) (\<lambda>(p, nowTime).
       tx_bind (store_result (m_GroupID m) (UserID actor) ?k (Hash env (ReqCreatePayment j (case att of None \<Rightarrow> [] | Some a \<Rightarrow> sa_SHA256 a)))
         (RespPayment p) nowTime) (\<lambda>_. ret p))) s2 = Inr (x, s')"
    using tx unfolding create_payment_tx_def Let_def by (elim bind_InrE) auto
  have "s2 = ?s1" using s2 by (simp add: requirePermission_Inr)
  then show "seen s' = seen s" using replayed [OF used1 _ replay] rest by fastforce
next
  fix x s'
  assume run: "createPayment env svc actor m key i upload self s = (Inr x, s')"
    and fresh: "command_key (DoPay actor m key i upload self) \<notin> ab_keys (book_of s)"
  have new: "\<forall>r\<in>set (idempotency s). \<not> (ir_group r = m_GroupID m \<and> ir_user r = UserID actor \<and>
      ir_key r = (if self then ''self:'' @ key else key))"
    using fresh unfolding command_key.simps used_key by blast
  from run new show "book_of s' = (effect (DoPay actor m key i upload self) (APayment x) (book_of s))\<lparr>ab_keys :=
      insert (command_key (DoPay actor m key i upload self)) (ab_keys (book_of s))\<rparr>"
  proof (rule createPayment_new)
    fix at att now s1 s2
    let ?k = "if self then ''self:'' @ key else key"
    assume rec: "record_payment env svc actor m (trim_payment i) at att self s1 = Inr ((x, now), s2)"
      and s1: "s1 = s\<lparr>clock_reads := Suc (clock_reads s)\<rparr>" and s': "books s' = books s2"
      and store: "\<exists>h. store_result (m_GroupID m) (UserID actor) ?k h (RespPayment x) now s2 = Inr ((), s')"
    obtain r where r: "idempotency s' = idempotency s2 @ [r]" "ir_group r = m_GroupID m" "ir_user r = UserID actor" "ir_key r = ?k"
      using store store_result_keys by blast
    from rec show ?thesis
    proof (rule record_payment_effect)
      fix p rows txns tm tu
      assume e: "posts (s1\<lparr>payments := payments s1 @ [p]\<rparr>) s2 rows txns" "payment_posting p rows txns" "py_id p = p_ID x"
        "py_group p = m_GroupID m" "py_membership p = pi_MembershipID (trim_payment i)" "py_amount p = pi_AmountMinor (trim_payment i)"
        "py_reversed_at p = None" "\<forall>y\<in>set (payments s1). py_id y \<noteq> py_id p"
        "p_AmountMinor x = pi_AmountMinor (trim_payment i)" "p_MembershipID x = pi_MembershipID (trim_payment i)"
      have led: "ledger s' = ledger s @ rows" and pays: "payments s' = payments s @ [p]" and keys: "idempotency s' = idempotency s @ [r]"
        using e(1) s' s1 r(1) by (simp_all add: posts_split books_split static_def)
      have bal: "member_balance g y s' = member_balance g y s +
          (if g = m_GroupID m \<and> y = p_MembershipID x then - p_AmountMinor x else 0)" if "y \<noteq> []" for g y
        using member_balance_append [OF led, of g y] payment_posting_sums(3) [OF e(2) that, of g] e(4-6,9,10) by simp
      have "first_row (\<lambda>q. py_id q = py_id p) (payments s) = None"
        unfolding first_row_None using e(8) s1 by simp
      then have none: "first_row (\<lambda>q. py_id q = p_ID x) (payments s) = None" using e(3) by simp
      have fields: "(py_group p, py_membership p, py_amount p, py_reversed_at p \<noteq> None) =
          (m_GroupID m, p_MembershipID x, p_AmountMinor x, False)"
        using e(4-7,9,10) by simp
      have "ab_payments (book_of s') = (ab_payments (book_of s))(p_ID x := Some (m_GroupID m, p_MembershipID x, p_AmountMinor x, False))"
        using none e(3) fields by (auto simp: book_of_def pays first_row_append fun_eq_iff split: option.split)
      moreover have "ab_balance (book_of s') = ab_balance (adjust (m_GroupID m) (p_MembershipID x) (- p_AmountMinor x) (book_of s))"
        using bal by (auto simp: book_of_def adjust_def fun_eq_iff)
      moreover have "ab_keys (book_of s') = insert (m_GroupID m, UserID actor, ?k) (ab_keys (book_of s))"
        using r(2-4) by (simp add: book_of_def keys)
      moreover have "ab_payments (adjust g y n a) = ab_payments a" "ab_keys (adjust g y n a) = ab_keys a" for g y n a
        by (simp_all add: adjust_def)
      ultimately show ?thesis by (intro account_book.equality) simp_all
    qed
  qed
qed

lemma refine_Unpay:
  assumes sound: "sound s"
  shows "book_of (snd (answered (\<lambda>_. ADone) (ReversePayment env svc actor m key pid reason s)))
     = perform (DoUnpay actor m key pid reason) (fst (answered (\<lambda>_. ADone) (ReversePayment env svc actor m key pid reason s))) (book_of s)"
proof (rule refines)
  fix e
  assume "fst (ReversePayment env svc actor m key pid reason s) = Inl e"
  then show "seen (snd (ReversePayment env svc actor m key pid reason s)) = seen s"
    by (auto simp: ReversePayment_def Let_def split: sum.splits if_splits dest: WithTx_seen)
next
  fix u s'
  let ?h = "Hash env (ReqReversePayment pid (TrimSpace reason))"
  assume run: "ReversePayment env svc actor m key pid reason s = (Inr u, s')"
    and used: "command_key (DoUnpay actor m key pid reason) \<in> ab_keys (book_of s)"
  from run have tx: "reverse_payment_tx env svc actor m key pid (TrimSpace reason) s = Inr (u, s')"
    by (auto simp: ReversePayment_def Let_def WithTx_Inr split: sum.splits if_splits)
  have replay: "keeps seen (case v of RespBookings _ \<Rightarrow> fail decode_error | _ \<Rightarrow> ret ())" for v
    by (cases v) (simp_all add: keeps_def)
  obtain s2 where s2: "requirePermission m ''FINANCE_MANAGEMENT'' s = Inr ((), s2)"
    and rest: "tx_bind (Load (m_GroupID m) (UserID actor) key ?h)
      (\<lambda>found. case found of Some v \<Rightarrow> (case v of RespBookings _ \<Rightarrow> fail decode_error | _ \<Rightarrow> ret ())
       | None \<Rightarrow> tx_bind (reverse_payment_body env svc actor m pid (TrimSpace reason)) (\<lambda>_.
           Store env (m_GroupID m) (UserID actor) key ?h 204 (RespPaymentReversed pid))) s2 = Inr (u, s')"
    using tx unfolding reverse_payment_tx_def Let_def by (elim bind_InrE) auto
  have "s2 = s" using s2 by (simp add: requirePermission_Inr)
  then show "seen s' = seen s"
    using replayed [OF used [unfolded command_key.simps used_key] _ replay] rest by fastforce
next
  fix u s'
  let ?c = "DoUnpay actor m key pid reason"
  assume run: "ReversePayment env svc actor m key pid reason s = (Inr u, s')" and fresh: "command_key ?c \<notin> ab_keys (book_of s)"
  have new: "\<forall>r\<in>set (idempotency s). \<not> (ir_group r = m_GroupID m \<and> ir_user r = UserID actor \<and> ir_key r = key)"
    using fresh unfolding command_key.simps used_key by blast
  from run new show "book_of s' = (effect ?c ADone (book_of s))\<lparr>ab_keys := insert (command_key ?c) (ab_keys (book_of s))\<rparr>"
  proof (rule ReversePayment_new)
    fix s1
    assume body: "reverse_payment_body env svc actor m pid (TrimSpace reason) s = Inr ((), s1)"
      and store: "Store env (m_GroupID m) (UserID actor) key (Hash env (ReqReversePayment pid (TrimSpace reason))) 204 (RespPaymentReversed pid) s1 = Inr ((), s')"
    have core: "core s' = core s1" by (rule keepsD [OF keeps_core_services(1) store])
    obtain r where r: "idempotency s' = idempotency s1 @ [r]" "ir_group r = m_GroupID m" "ir_user r = UserID actor" "ir_key r = key"
      using Store_keys [OF store] by blast
    from body sound show ?thesis
    proof (rule reverse_payment_balances)
      fix p now
      let ?h = "reversed_row now (m_ID m) (TrimSpace reason)"
      let ?view = "\<lambda>p :: payment_row. (py_group p, py_membership p, py_amount p, py_reversed_at p \<noteq> None)"
      assume p: "p \<in> set (payments s)" "py_id p = pid" "py_group p = m_GroupID m" "py_reversed_at p = None"
        and pays: "payments s1 = update_rows (\<lambda>p. py_id p = pid \<and> py_reversed_at p = None) ?h (payments s)"
        and bal: "\<And>g x. x \<noteq> [] \<Longrightarrow> member_balance g x s1 = member_balance g x s + (if g = m_GroupID m \<and> x = py_membership p then py_amount p else 0)"
        and keys: "idempotency s1 = idempotency s"
      have led: "ledger s' = ledger s1" and pays': "payments s' = payments s1" using core by (simp_all add: core_def)
      have first: "first_row (\<lambda>q. py_id q = pid) (payments s) = Some p"
        using distinct_first_row [of py_id, OF _ p(1)] sound p(2) by (simp add: sound_def keyed_def)
      have upd: "first_row (\<lambda>q. py_id q = i) (payments s') =
          map_option (\<lambda>q. if py_id q = pid \<and> py_reversed_at q = None then ?h q else q) (first_row (\<lambda>q. py_id q = i) (payments s))" for i
        unfolding pays' pays by (rule first_row_update) simp
      have pay: "ab_payments (book_of s') = (ab_payments (book_of s))(pid := Some (m_GroupID m, py_membership p, py_amount p, True))"
      proof (rule ext)
        fix i
        show "ab_payments (book_of s') i = ((ab_payments (book_of s))(pid := Some (m_GroupID m, py_membership p, py_amount p, True))) i"
        proof (cases "i = pid")
          case True
          then show ?thesis using upd [of pid] first p by (simp add: book_of_def)
        next
          case False
          have "first_row (\<lambda>q. py_id q = i) (payments s') = first_row (\<lambda>q. py_id q = i) (payments s)"
          proof (cases "first_row (\<lambda>q. py_id q = i) (payments s)")
            case None
            then show ?thesis using upd [of i] by simp
          next
            case (Some q)
            then have "py_id q = i" by (auto dest: first_row_Some)
            then show ?thesis using upd [of i] Some False by simp
          qed
          then show ?thesis using False by (simp add: book_of_def)
        qed
      qed
      have look: "ab_payments (book_of s) pid = Some (m_GroupID m, py_membership p, py_amount p, False)"
        using first p by (simp add: book_of_def)
      have "ab_balance (book_of s') = ab_balance (adjust (m_GroupID m) (py_membership p) (py_amount p) (book_of s))"
        using bal balance_ledger [OF led] by (auto simp: book_of_def adjust_def fun_eq_iff)
      moreover have "ab_keys (book_of s') = insert (m_GroupID m, UserID actor, key) (ab_keys (book_of s))"
        using r keys by (simp add: book_of_def)
      ultimately show ?thesis using pay look
        by (intro account_book.equality) (simp_all add: adjust_def)
    qed
  qed
qed

lemma refine_Close:
  "book_of (snd (answered AClosed (Close env svc actor m key pid input s)))
     = perform (DoClose actor m key pid input) (fst (answered AClosed (Close env svc actor m key pid input s))) (book_of s)"
proof (rule refines)
  fix e
  assume e: "fst (Close env svc actor m key pid input s) = Inl e"
  show "seen (snd (Close env svc actor m key pid input s)) = seen s"
  proof (cases "prepare_close env m key input s")
    case (Inl e')
    then show ?thesis by (simp add: Close_def)
  next
    case (Inr x)
    then obtain i due s1 where prep: "prepare_close env m key input s = Inr ((i, due), s1)" by (cases x) auto
    have c: "Close env svc actor m key pid input s = WithTx (close_tx env svc actor m key pid i due) s1"
      by (simp add: Close_def prep)
    then show ?thesis using e WithTx_seen [of "close_tx env svc actor m key pid i due" s1 e] prepare_close_clock [OF prep] by simp
  qed
next
  fix x s'
  let ?c = "DoClose actor m key pid input"
  assume run: "Close env svc actor m key pid input s = (Inr x, s')" and used: "command_key ?c \<in> ab_keys (book_of s)"
  obtain i due s1 where prep: "prepare_close env m key input s = Inr ((i, due), s1)"
    and tx: "close_tx env svc actor m key pid i due s1 = Inr (x, s')"
    using run by (auto simp: Close_def WithTx_Inr split: sum.splits prod.splits)
  note s1 = prepare_close_clock [OF prep]
  have used1: "\<not> (\<forall>r\<in>set (idempotency s1). \<not> (ir_group r = m_GroupID m \<and> ir_user r = UserID actor \<and> ir_key r = key))"
    using used s1 unfolding command_key.simps used_key by simp
  have replay: "keeps seen (case v of RespClose result \<Rightarrow> ret result | _ \<Rightarrow> fail decode_error)" for v
    by (cases v) (simp_all add: keeps_def)
  obtain s2 where s2: "requireFinanceManagement m s1 = Inr ((), s2)"
    and rest: "tx_bind (Load (m_GroupID m) (UserID actor) key (Hash env (ReqClosePeriod pid i)))
      (\<lambda>found. case found of Some v \<Rightarrow> (case v of RespClose result \<Rightarrow> ret result | _ \<Rightarrow> fail decode_error)
       | None \<Rightarrow> tx_bind (close_period env svc actor m pid i due) (\<lambda>result.
           tx_bind (Store env (m_GroupID m) (UserID actor) key (Hash env (ReqClosePeriod pid i)) 200 (RespClose result)) (\<lambda>_.
           ret result))) s2 = Inr (x, s')"
    using tx unfolding close_tx_def Let_def by (elim bind_InrE) auto
  have "s2 = s1" using s2 by (simp add: requireFinance_Inr)
  then have "seen s' = seen s1" using replayed [OF used1 _ replay] rest by fastforce
  then show "seen s' = seen s" using s1 by simp
next
  fix x s'
  let ?c = "DoClose actor m key pid input"
  assume run: "Close env svc actor m key pid input s = (Inr x, s')" and fresh: "command_key ?c \<notin> ab_keys (book_of s)"
  have new: "\<forall>r\<in>set (idempotency s). \<not> (ir_group r = m_GroupID m \<and> ir_user r = UserID actor \<and> ir_key r = key)"
    using fresh unfolding command_key.simps used_key by blast
  obtain i due s1 where prep: "prepare_close env m key input s = Inr ((i, due), s1)"
    and tx: "close_tx env svc actor m key pid i due s1 = Inr (x, s')"
    using run by (auto simp: Close_def WithTx_Inr split: sum.splits prod.splits)
  note s1 = prepare_close_clock [OF prep]
  let ?h = "Hash env (ReqClosePeriod pid i)"
  have load: "Load (m_GroupID m) (UserID actor) key ?h s1 = Inr (None, s1)"
    using new s1 by (simp add: Load_None)
  from tx obtain s2 where close: "close_period env svc actor m pid i due s1 = Inr (x, s2)"
    and store: "Store env (m_GroupID m) (UserID actor) key ?h 200 (RespClose x) s2 = Inr ((), s')"
    unfolding close_tx_def Let_def by (auto simp: bind_eq_Inr requireFinance_Inr load)
  have frame: "preserves (\<lambda>t. ledger t = ledger s \<and> payments t = payments s) (close_period env svc actor m pid i due)"
    by (rule preserves_close_period) (simp_all add: core_def)
  have s2: "ledger s2 = ledger s \<and> payments s2 = payments s"
    using validD [OF frame _ close] s1 by simp
  have keys: "idempotency s2 = idempotency s1" using close by (rule close_period_effect)
  have core: "core s' = core s2" by (rule keepsD [OF keeps_core_services(1) store])
  obtain r where r: "idempotency s' = idempotency s2 @ [r]" "ir_group r = m_GroupID m" "ir_user r = UserID actor" "ir_key r = key"
    using Store_keys [OF store] by blast
  have led: "ledger s' = ledger s" and pays: "payments s' = payments s" using core s2 by (simp_all add: core_def)
  have "idempotency s' = idempotency s @ [r]" using r(1) keys s1 by simp
  then have "book_of s' = (adjust [] [] 0 (book_of s))\<lparr>ab_keys := insert (ir_group r, ir_user r, ir_key r) (ab_keys (book_of s))\<rparr>"
    using pays balance_ledger [OF led] by (intro book_of_step) simp_all
  then show "book_of s' = (effect ?c (AClosed x) (book_of s))\<lparr>ab_keys := insert (command_key ?c) (ab_keys (book_of s))\<rparr>"
    using r(2-4) by (simp add: adjust_def)
qed

text \<open>C1. The commands refine the abstract account book: in every reachable state, booking, voiding, paying,
  reversing a payment and closing a period change what members see exactly as the answer says - one balance,
  one payment, one used key - while an error or a retried key changes nothing.\<close>

theorem commands_refine_accounts:
  assumes "reachable env svc s"
  shows "book_of (snd (run env svc c s)) = perform c (fst (run env svc c s)) (book_of s)"
proof (cases c)
  case (DoVoid actor m key bid reason)
  then show ?thesis using refine_Void [OF reachable_sound [OF assms]] by simp
next
  case (DoUnpay actor m key pid reason)
  then show ?thesis using refine_Unpay [OF reachable_sound [OF assms]] by simp
qed (simp_all add: refine_Create refine_Pay refine_Close)

text \<open>The payment of the till, its reversal and a retry of the reversal.\<close>

definition undo :: command where
  "undo = DoUnpay \<lparr>UserID = ''u''\<rparr> uta ''key-0008'' (py_id (hd (payments (snd deposit)))) ''r''"

theorem commands_refine_accounts_witness:
  "ab_balance (perform undo (fst (run fixed_env mail_only undo (snd deposit))) (book_of (snd deposit))) (''g'', ''n'') = 0"
proof -
  have run: "run fixed_env mail_only undo (snd deposit) = answered (\<lambda>_. ADone) (refund (snd deposit))"
    by (simp add: undo_def refund_def)
  have "case deposit of (_, s) \<Rightarrow> member_balance ''g'' ''n'' (snd (refund s)) = 0" by code_simp
  then have "member_balance ''g'' ''n'' (snd (refund (snd deposit))) = 0" by (simp only: case_prod_beta)
  then have "ab_balance (book_of (snd (run fixed_env mail_only undo (snd deposit)))) (''g'', ''n'') = 0"
    unfolding run by (simp add: book_of_def answered_def)
  then show ?thesis using commands_refine_accounts [OF reachable_deposit, of undo] by simp
qed

end
