(* ===== verification/Configuration.thy ===== *)
theory Configuration
  imports Invariants
begin

text \<open>
  The configuration of external accounts: provider details that a client only sees masked survive an update,
  deletion is confined to settled accounts, reordering realises the requested order, the replacement of
  payment-method links is a complete mapping, and a manual movement moves exactly its amount.
\<close>

section \<open>Masked provider details\<close>

text \<open>What a client sends that renames an account and leaves everything else as it was shown.\<close>

definition shown_input :: "external_account \<Rightarrow> string \<Rightarrow> account_input" where
  "shown_input v name = \<lparr>acc_Name = name, acc_Type = xac_Type v, acc_PayPalMeHandle = xac_PayPalMeHandle v,
     acc_SEPARecipientName = xac_SEPARecipientName v, acc_SEPAIBAN = xac_SEPAIBAN v, acc_SEPABIC = xac_SEPABIC v\<rparr>"

lemma preserve_shown:
  "preserveMaskedProviderDetails (shown_input (account_of c b s a) name) (stored_input a) = (stored_input a)\<lparr>acc_Name := name\<rparr>"
  by (simp add: preserveMaskedProviderDetails_def shown_input_def account_of_def maskProviderDetails_def stored_input_def Let_def)

lemma provider_stored: "provider_row j a = a \<Longrightarrow> stored_input a = j\<lparr>acc_Name := []\<rparr>"
proof -
  assume eq: "provider_row j a = a"
  have "stored_input (provider_row j a) = j\<lparr>acc_Name := []\<rparr>"
    by (cases j) (simp add: stored_input_def provider_row_def nullable_def coalesce_text_def)
  then show ?thesis unfolding eq .
qed

lemma normalized_cases:
  assumes "normalizeAccountInput parse_url i currency = Inr j"
  obtains (plain) "acc_Type j = ''CASH'' \<or> acc_Type j = ''OTHER''" "acc_PayPalMeHandle j = []" "acc_SEPARecipientName j = []"
      "acc_SEPAIBAN j = []" "acc_SEPABIC j = []"
    | (paypal) "acc_Type j = ''PAYPAL''" "payPalMeHandlePattern (acc_PayPalMeHandle j)" "acc_SEPARecipientName j = []"
      "acc_SEPAIBAN j = []" "acc_SEPABIC j = []"
    | (bank) "acc_Type j = ''BANK''" "acc_PayPalMeHandle j = []" "TrimSpace (acc_SEPARecipientName j) = acc_SEPARecipientName j"
      "ValidIBAN (acc_SEPAIBAN j)" "acc_SEPABIC j = [] \<or> ValidBIC (acc_SEPABIC j)"
  using assms
  by (auto simp: normalizeAccountInput_def bank_error_def Let_def split: sum.splits if_splits option.splits
      dest: NormalizePayPalMeHandle_shape)

lemma normalized_name:
  "normalizeAccountInput parse_url i currency = Inr j \<Longrightarrow> acc_Name j = TrimSpace (acc_Name i)"
  by (auto simp: normalizeAccountInput_def Let_def split: sum.splits if_splits option.splits)

text \<open>A normalised input under a new name is normalised again to itself.\<close>

lemma normalize_again:
  assumes "normalizeAccountInput parse_url i currency = Inr j" "normalizeAccountInput parse_url (j\<lparr>acc_Name := n\<rparr>) currency' = Inr k"
  shows "k = j\<lparr>acc_Name := TrimSpace n\<rparr>"
  using assms(1)
proof (cases rule: normalized_cases)
  case plain
  have "ToUpper (TrimSpace ''CASH'') = ''CASH''" "ToUpper (TrimSpace ''OTHER'') = ''OTHER''" "NormalizeIBAN [] = []" "ToUpper [] = []"
    by code_simp+
  with plain assms(2) show ?thesis
    by (cases j) (auto simp: normalizeAccountInput_def Let_def split: sum.splits if_splits option.splits)
next
  case paypal
  have "ToUpper (TrimSpace ''PAYPAL'') = ''PAYPAL''" "NormalizeIBAN [] = []" "ToUpper [] = []" by code_simp+
  moreover have "TrimSpace (acc_PayPalMeHandle j) = acc_PayPalMeHandle j"
    using paypal(2) by (intro alnum_text) (auto simp: payPalMeHandlePattern_def list_all_iff)
  ultimately show ?thesis
    using paypal assms(2) handle_fixed(1) [OF paypal(2), of parse_url]
    by (cases j) (auto simp: normalizeAccountInput_def Let_def split: sum.splits if_splits option.splits)
next
  case bank
  have "ToUpper (TrimSpace ''BANK'') = ''BANK''" by code_simp
  with bank assms(2) IBAN_fixed(1) [OF bank(4)] BIC_fixed(1) [OF bank(5)] show ?thesis
    by (cases j) (auto simp: normalizeAccountInput_def Let_def split: sum.splits if_splits option.splits)
qed

lemma update_accounts_Inr:
  "update_accounts P f s = Inr (n, s') \<Longrightarrow>
     n = length (filter P (external_accounts s)) \<and> s' = s\<lparr>external_accounts := update_rows P f (external_accounts s)\<rparr>"
  unfolding table_fields(2) [symmetric] by (auto simp: update_accounts_def split: if_split_asm)

lemma update_rows_single:
  assumes "first_row P xs = Some a" "length (filter P xs) = 1"
  shows "update_rows P f xs = update_rows P (\<lambda>_. f a) xs"
proof -
  have "filter P xs = [a]" using assms by (auto simp: first_row_def length_Suc_conv split: list.splits)
  moreover have "x \<in> set (filter P xs)" if "x \<in> set xs" "P x" for x using that by simp
  ultimately have "x = a" if "x \<in> set xs" "P x" for x using that by simp
  then show ?thesis unfolding update_rows_def by (intro map_cong) auto
qed

lemma keeps_accounts [simp, intro]:
  "keeps external_accounts (bumpCollectionVersion env g v)" "keeps external_accounts (Record env g u m a t i md)"
  "keeps external_accounts (Now env)" "keeps external_accounts (NewID env p)"
  by (rule keepsI; intro pres_intros; simp)+

lemma start_configuration_Inr: "start_configuration m v s = Inr (u, s') \<Longrightarrow> s' = s"
  unfolding start_configuration_def by (auto simp: bind_eq_Inr dest!: access_state)

lemma listAccounts_state: "listAccounts g s = Inr (c, s') \<Longrightarrow> s' = s"
  by (auto simp: listAccounts_def bind_eq_Inr externalAccountBalances_def split: if_split_asm)

text \<open>Finishing a configuration command leaves the accounts as the command made them.\<close>

lemma finish_configuration_Inr:
  assumes "finish_configuration env actor m v action rt r md s = Inr (c, s')"
  shows "external_accounts s' = external_accounts s \<and> entries s' = entries s \<and> listAccounts (m_GroupID m) s' = Inr (c, s')"
proof -
  obtain s1 s2 where a: "bumpCollectionVersion env (m_GroupID m) v s = Inr ((), s1)"
    "Record env (m_GroupID m) (UserID actor) (m_ID m) action rt r md s1 = Inr ((), s2)" "listAccounts (m_GroupID m) s2 = Inr (c, s')"
    using assms unfolding finish_configuration_def by (auto simp: bind_eq_Inr)
  have "s2 = s'" using listAccounts_state [OF a(3)] by simp
  then show ?thesis
    using keepsD [OF keeps_accounts(1) a(1)] keepsD [OF keeps_accounts(2) a(2)] keepsD [OF keeps_entries(4) a(1)]
      keepsD [OF keeps_entries(3) a(2)] a(3) by simp
qed

text \<open>C31. The masked provider details that the account list shows can be sent back unchanged: an update that
  only renames an account, with every other field as shown, stores the same handle, recipient, IBAN and BIC.\<close>

theorem UpdateAccount_keeps_masked_details:
  assumes stored: "normalizeAccountInput parse_url i currency = Inr j" "provider_row j a = a"
    and first: "first_row (live_account (m_GroupID m) accountID) (external_accounts s) = Some a"
    and run: "UpdateAccount env parse_url actor m accountID (shown_input (account_of c b s0 a) name) version s = (Inr col, s')"
  shows "\<exists>now. external_accounts s' = update_rows (live_account (m_GroupID m) accountID)
     (\<lambda>_. a\<lparr>xa_name := TrimSpace name, xa_version := xa_version a + 1, xa_updated_at := now\<rparr>) (external_accounts s)"
proof -
  let ?i = "shown_input (account_of c b s0 a) name"
  obtain currency' s1 where pre: "tx_bind (AuthorizeManagement m) (\<lambda>_. groupCurrency (m_GroupID m)) s = Inr (currency', s1)"
    and tx: "update_account_tx env parse_url actor m accountID ?i currency' version s = Inr (col, s')"
    using run by (auto simp: UpdateAccount_def WithTx_def split: sum.splits prod.splits)
  obtain a' n now s2 s3 where steps: "first_row (live_account (m_GroupID m) accountID) (external_accounts s) = Some a'"
    "normalizeAccountInput parse_url (preserveMaskedProviderDetails ?i (stored_input a')) currency' = Inr n" "Now env s = Inr (now, s2)"
    "update_accounts (live_account (m_GroupID m) accountID) (updated_row n (Timestamp now)) s2 = Inr (1, s3)"
    "external_accounts s' = external_accounts s3"
    using tx unfolding update_account_tx_def
    by (auto simp: bind_eq_Inr mapConstraintError_Inr dest!: start_configuration_Inr finish_configuration_Inr)
  have a': "a' = a" using first steps(1) by simp
  have "preserveMaskedProviderDetails ?i (stored_input a') = j\<lparr>acc_Name := name\<rparr>"
    unfolding a' preserve_shown by (simp add: provider_stored [OF stored(2)])
  then have n: "n = j\<lparr>acc_Name := TrimSpace name\<rparr>"
    using steps(2) normalize_again [OF stored(1)] by simp
  have "provider_row n a = (provider_row j a)\<lparr>xa_name := TrimSpace name\<rparr>"
    by (simp add: n provider_row_def)
  then have "updated_row n (Timestamp now) a = a\<lparr>xa_name := TrimSpace name, xa_version := xa_version a + 1, xa_updated_at := Timestamp now\<rparr>"
    unfolding stored(2) by (simp add: updated_row_def)
  moreover have "update_rows (live_account (m_GroupID m) accountID) (updated_row n (Timestamp now)) (external_accounts s) =
    update_rows (live_account (m_GroupID m) accountID) (\<lambda>_. updated_row n (Timestamp now) a) (external_accounts s)"
    using first update_accounts_Inr [OF steps(4)] steps(3) by (intro update_rows_single) (auto simp: Now_def)
  moreover have "external_accounts s' = update_rows (live_account (m_GroupID m) accountID) (updated_row n (Timestamp now)) (external_accounts s)"
    using update_accounts_Inr [OF steps(4)] steps(3,5) by (auto simp: Now_def)
  ultimately show ?thesis by metis
qed

text \<open>A bank account of the group, renamed by a client that saw it masked.\<close>

definition bank_box :: external_account_row where
  "bank_box = cash_box\<lparr>xa_id := ''b'', xa_name := ''Bank'', xa_type := ''BANK'', xa_sort_order := 1, xa_recipient := Some ''K'',
     xa_iban := Some ''DE89370400440532013000''\<rparr>"

definition branch :: db where
  "branch = till\<lparr>external_accounts := [cash_box, bank_box]\<rparr>"

definition renamed :: "account_collection result \<times> db" where
  "renamed = UpdateAccount fixed_env (\<lambda>_. None) \<lparr>UserID = ''u''\<rparr> uta ''b''
     (shown_input (account_of ''EUR'' (\<lambda>_. 0) branch bank_box) '' Giro '') 1 branch"

theorem UpdateAccount_keeps_masked_details_witness:
  "xac_SEPAIBAN (account_of ''EUR'' (\<lambda>_. 0) branch bank_box) \<noteq> ''DE89370400440532013000'' \<and>
   map xa_iban (external_accounts (snd renamed)) = [None, Some ''DE89370400440532013000''] \<and>
   map xa_name (external_accounts (snd renamed)) = [''B'', ''Giro'']"
proof -
  let ?j = "\<lparr>acc_Name = ''Bank'', acc_Type = ''BANK'', acc_PayPalMeHandle = [], acc_SEPARecipientName = ''K'',
    acc_SEPAIBAN = ''DE89370400440532013000'', acc_SEPABIC = []\<rparr>"
  have "xac_SEPAIBAN (account_of ''EUR'' (\<lambda>_. 0) branch bank_box) \<noteq> ''DE89370400440532013000''" by code_simp
  moreover have "\<not> isl (fst renamed)" by code_simp
  then obtain col where run: "UpdateAccount fixed_env (\<lambda>_. None) \<lparr>UserID = ''u''\<rparr> uta ''b''
     (shown_input (account_of ''EUR'' (\<lambda>_. 0) branch bank_box) '' Giro '') 1 branch = (Inr col, snd renamed)"
    unfolding renamed_def using outcome_Inr by blast
  have "normalizeAccountInput (\<lambda>_. None) ?j ''EUR'' = Inr ?j" by code_simp
  moreover have "provider_row ?j bank_box = bank_box"
    by (simp add: provider_row_def bank_box_def cash_box_def nullable_def)
  moreover have "first_row (live_account (m_GroupID uta) ''b'') (external_accounts branch) = Some bank_box"
    by (simp add: branch_def cash_box_def bank_box_def live_account_def uta_def)
  ultimately obtain now where now: "external_accounts (snd renamed) = update_rows (live_account (m_GroupID uta) ''b'')
     (\<lambda>_. bank_box\<lparr>xa_name := TrimSpace '' Giro '', xa_version := xa_version bank_box + 1, xa_updated_at := now\<rparr>) (external_accounts branch)"
    using UpdateAccount_keeps_masked_details [OF _ _ _ run] by blast
  have "TrimSpace '' Giro '' = ''Giro''" by code_simp
  then show ?thesis
    using now \<open>xac_SEPAIBAN _ \<noteq> _\<close> by (simp add: branch_def cash_box_def bank_box_def live_account_def uta_def)
qed

section \<open>Deletion\<close>

lemma unused_balance: "\<not> has_transactions a s \<Longrightarrow> xa_group a = g \<Longrightarrow> xa_id a = i \<Longrightarrow> external_balance g i s = 0"
proof -
  assume a: "\<not> has_transactions a s" "xa_group a = g" "xa_id a = i"
  then have "filter (\<lambda>r. le_group r = g \<and> le_external_account r = Some i \<and> le_account r = ''EXTERNAL_ACCOUNT'') (ledger s) = []"
    by (auto simp: has_transactions_def list_ex_iff filter_empty_conv)
  then show ?thesis unfolding external_balance_def by simp
qed

lemma delete_row_Inr:
  assumes "delete_row env m i inUse s = Inr (u, s')"
  shows "length (filter (live_account (m_GroupID m) i) (external_accounts s)) = 1 \<and> entries s' = entries s \<and>
    (if inUse then \<exists>now. external_accounts s' = update_rows (live_account (m_GroupID m) i) (\<lambda>a. a\<lparr>xa_deleted_at := Some now,
         xa_version := xa_version a + 1, xa_updated_at := now\<rparr>) (external_accounts s)
     else external_accounts s' = filter (\<lambda>a. \<not> live_account (m_GroupID m) i a) (external_accounts s))"
proof (cases inUse)
  case True
  obtain now n s1 where "Now env s = Inr (now, s1)"
    and upd: "update_accounts (live_account (m_GroupID m) i) (\<lambda>a. a\<lparr>xa_deleted_at := Some (Timestamp now),
         xa_version := xa_version a + 1, xa_updated_at := Timestamp now\<rparr>) s1 = Inr (n, s')" and n: "n = 1"
    using assms True unfolding delete_row_def by (auto simp: bind_eq_Inr)
  then have s1: "s1 = s\<lparr>clock_reads := Suc (clock_reads s)\<rparr>" by (simp add: Now_def)
  have "length (filter (live_account (m_GroupID m) i) (external_accounts s)) = 1" "entries s' = entries s"
    "external_accounts s' = update_rows (live_account (m_GroupID m) i) (\<lambda>a. a\<lparr>xa_deleted_at := Some (Timestamp now),
         xa_version := xa_version a + 1, xa_updated_at := Timestamp now\<rparr>) (external_accounts s)"
    using update_accounts_Inr [OF upd] n unfolding s1 by simp_all
  then show ?thesis unfolding if_P [OF True] by blast
next
  case False
  then have e: "s' = external_accounts_update (filter (\<lambda>a. \<not> live_account (m_GroupID m) i a)) s"
    and n: "length (filter (live_account (m_GroupID m) i) (external_accounts s)) = 1"
    using assms unfolding delete_row_def by (auto simp: bind_eq_Inr)
  from e have "s' = s\<lparr>external_accounts := filter (\<lambda>a. \<not> live_account (m_GroupID m) i a) (external_accounts s)\<rparr>"
    by (rule trans [OF _ table_fields(2)])
  then show ?thesis using False n by simp
qed

text \<open>C30. An external account disappears only when nothing depends on it any more: deleting succeeds only for an
  archived account without payment-method links and with a zero balance, a used account stays as a deleted row
  so that every ledger row keeps its account, no live account with this identifier remains, all other
  accounts stay as they are, and ledger and history do not change.\<close>

theorem DeleteAccount_only_settled:
  assumes run: "DeleteAccount env actor m i v s = (Inr col, s')"
  shows "\<exists>a. a \<in> set (external_accounts s) \<and> live_account (m_GroupID m) i a \<and> xa_status a = ''ARCHIVED'' \<and>
    (\<forall>p\<in>set (payment_methods s). pm_group p = m_GroupID m \<longrightarrow> pm_external_account p \<noteq> Some i) \<and>
    external_balance (m_GroupID m) i s = 0 \<and>
    (has_transactions a s \<longrightarrow> (\<exists>x\<in>set (external_accounts s'). xa_id x = i \<and> xa_group x = m_GroupID m \<and> xa_deleted_at x \<noteq> None)) \<and>
    (\<forall>x\<in>set (external_accounts s'). \<not> live_account (m_GroupID m) i x) \<and>
    (\<forall>x\<in>set (external_accounts s). x \<noteq> a \<longrightarrow> x \<in> set (external_accounts s')) \<and>
    ledger s' = ledger s \<and> external_transactions s' = external_transactions s"
proof -
  let ?g = "m_GroupID m" and ?live = "live_account (m_GroupID m) i"
  obtain a s1 where a: "first_row ?live (external_accounts s) = Some a" "xa_status a = ''ARCHIVED''"
    "filter (\<lambda>p. pm_group p = ?g \<and> pm_external_account p = Some i) (payment_methods s) = []"
    "\<not> (has_transactions a s \<and> external_balance ?g i s \<noteq> 0)" "delete_row env m i (has_transactions a s) s = Inr ((), s1)"
    and fin: "finish_configuration env actor m v ''external_account.deleted'' ''external_account'' i
      [(''mode'', AText (if has_transactions a s then ''historical'' else ''physical''))] s1 = Inr (col, s')"
    using run unfolding DeleteAccount_def delete_account_tx_def WithTx_def
    by (auto simp: bind_eq_Inr split: sum.splits dest!: start_configuration_Inr)
  have live: "a \<in> set (external_accounts s)" "?live a" using first_row_Some [OF a(1)] by auto
  have fin': "external_accounts s' = external_accounts s1" "entries s' = entries s1"
    using finish_configuration_Inr [OF fin] by simp_all
  have d: "length (filter ?live (external_accounts s)) = 1" "entries s1 = entries s"
    and rows: "if has_transactions a s then \<exists>now. external_accounts s1 = update_rows ?live (\<lambda>a. a\<lparr>xa_deleted_at := Some now,
         xa_version := xa_version a + 1, xa_updated_at := now\<rparr>) (external_accounts s)
     else external_accounts s1 = filter (\<lambda>a. \<not> ?live a) (external_accounts s)"
    using delete_row_Inr [OF a(5)] by blast+
  have only: "x = a" if "x \<in> set (external_accounts s)" "?live x" for x
  proof -
    have "filter ?live (external_accounts s) = [a]" using a(1) d(1) by (auto simp: first_row_def length_Suc_conv split: list.splits)
    moreover have "x \<in> set (filter ?live (external_accounts s))" using that by simp
    ultimately show ?thesis by simp
  qed
  have bal: "external_balance ?g i s = 0"
    using a(4) unused_balance live(2) by (auto simp: live_account_def)
  have after: "(has_transactions a s \<longrightarrow> (\<exists>x\<in>set (external_accounts s1). xa_id x = i \<and> xa_group x = ?g \<and> xa_deleted_at x \<noteq> None)) \<and>
    (\<forall>x\<in>set (external_accounts s1). \<not> ?live x) \<and> (\<forall>x\<in>set (external_accounts s). x \<noteq> a \<longrightarrow> x \<in> set (external_accounts s1))"
  proof (cases "has_transactions a s")
    case True
    then obtain now where eq: "external_accounts s1 = update_rows ?live (\<lambda>a. a\<lparr>xa_deleted_at := Some now,
         xa_version := xa_version a + 1, xa_updated_at := now\<rparr>) (external_accounts s)" using rows by auto
    let ?f = "\<lambda>a. a\<lparr>xa_deleted_at := Some now, xa_version := xa_version a + 1, xa_updated_at := now\<rparr>"
    have set: "set (external_accounts s1) = (\<lambda>x. if ?live x then ?f x else x) ` set (external_accounts s)"
      unfolding eq update_rows_def by simp
    have "(if ?live a then ?f a else a) \<in> set (external_accounts s1)" unfolding set using live(1) by (rule imageI)
    then have "?f a \<in> set (external_accounts s1)" using live(2) by simp
    moreover have "xa_id (?f a) = i \<and> xa_group (?f a) = ?g \<and> xa_deleted_at (?f a) \<noteq> None" using live(2) by (simp add: live_account_def)
    moreover have "\<not> ?live x" if "x \<in> set (external_accounts s1)" for x
    proof -
      obtain y where "x = (if ?live y then ?f y else y)" using \<open>x \<in> _\<close> unfolding set by (rule imageE)
      then show ?thesis by (cases "?live y") (simp_all add: live_account_def)
    qed
    moreover have "x \<in> set (external_accounts s1)" if "x \<in> set (external_accounts s)" "x \<noteq> a" for x
    proof -
      have "(if ?live x then ?f x else x) \<in> set (external_accounts s1)" unfolding set using that(1) by (rule imageI)
      then show ?thesis using only that by (metis (full_types))
    qed
    ultimately show ?thesis by blast
  next
    case False
    then have eq: "external_accounts s1 = filter (\<lambda>a. \<not> ?live a) (external_accounts s)" using rows by simp
    show ?thesis unfolding eq using False only by auto
  qed
  have "\<forall>p\<in>set (payment_methods s). pm_group p = ?g \<longrightarrow> pm_external_account p \<noteq> Some i"
    using a(3) by (auto simp: filter_empty_conv)
  moreover have "ledger s' = ledger s" "external_transactions s' = external_transactions s"
    using fin'(2) d(2) by (simp_all add: entries_def)
  ultimately show ?thesis
    using live a(2) bal after fin'(1) by (intro exI [of _ a]) simp
qed

text \<open>The archived bank account of the branch is deleted; the cash box is not, because it is in use.\<close>

definition closed_branch :: db where
  "closed_branch = branch\<lparr>external_accounts := [cash_box, bank_box\<lparr>xa_status := ''ARCHIVED''\<rparr>]\<rparr>"

theorem DeleteAccount_only_settled_witness:
  "\<not> isl (fst (DeleteAccount fixed_env \<lparr>UserID = ''u''\<rparr> uta ''b'' 1 closed_branch)) \<and>
   isl (fst (DeleteAccount fixed_env \<lparr>UserID = ''u''\<rparr> uta ''a'' 1 closed_branch)) \<and>
   filter (live_account ''g'' ''b'') (external_accounts (snd (DeleteAccount fixed_env \<lparr>UserID = ''u''\<rparr> uta ''b'' 1 closed_branch))) = []"
proof -
  let ?r = "DeleteAccount fixed_env \<lparr>UserID = ''u''\<rparr> uta ''b'' 1 closed_branch"
  have "\<not> isl (fst ?r) \<and> isl (fst (DeleteAccount fixed_env \<lparr>UserID = ''u''\<rparr> uta ''a'' 1 closed_branch))" by code_simp
  moreover from this obtain col where "?r = (Inr col, snd ?r)" using outcome_Inr by blast
  then have "\<forall>x\<in>set (external_accounts (snd ?r)). \<not> live_account (m_GroupID uta) ''b'' x"
    using DeleteAccount_only_settled by blast
  moreover have "m_GroupID uta = ''g''" by (simp add: uta_def)
  ultimately show ?thesis by (simp add: filter_empty_conv)
qed

section \<open>Order\<close>

definition place_in :: "string list \<Rightarrow> string \<Rightarrow> nat" where
  "place_in ids i = length (takeWhile (\<lambda>j. j \<noteq> i) ids)"

lemma place_in_map: "distinct ids \<Longrightarrow> map (place_in ids) ids = [0..<length ids]"
proof (rule nth_equalityI)
  fix k
  assume "distinct ids" "k < length (map (place_in ids) ids)"
  then have "takeWhile (\<lambda>j. j \<noteq> ids ! k) ids = take k ids"
    by (intro takeWhile_eq_take_P_nth) (auto simp: nth_eq_iff_index_eq)
  then show "map (place_in ids) ids ! k = [0..<length ids] ! k"
    using \<open>k < _\<close> by (simp add: place_in_def)
qed simp

lemma check_order_Inr:
  "check_order existing seen ids s = Inr (u, s') \<Longrightarrow> s' = s \<and> distinct ids \<and> set ids \<subseteq> set existing \<and> set ids \<inter> set seen = {}"
proof (induction ids arbitrary: seen)
  case (Cons i ids)
  then have "i \<notin> set seen" "i \<in> set existing" and rest: "check_order existing (i # seen) ids s = Inr (u, s')"
    by (auto split: if_split_asm)
  then show ?case using Cons.IH [OF rest] by auto
qed simp

text \<open>The row of a placed account.\<close>

definition placed :: "string \<Rightarrow> string \<Rightarrow> int \<Rightarrow> string list \<Rightarrow> external_account_row \<Rightarrow> external_account_row" where
  "placed g now base ids a = (if xa_group a = g \<and> xa_deleted_at a = None \<and> xa_id a \<in> set ids
     then a\<lparr>xa_sort_order := base + int (place_in ids (xa_id a)), xa_version := xa_version a + 1, xa_updated_at := now\<rparr> else a)"

lemma place_accounts_effect:
  "place_accounts g now base ids s = Inr (u, s') \<Longrightarrow> distinct ids \<Longrightarrow>
     external_accounts s' = map (placed g now base ids) (external_accounts s) \<and> entries s' = entries s"
proof (induction ids arbitrary: base s)
  case Nil
  have "placed g now base [] = (\<lambda>a. a)" by (simp add: placed_def fun_eq_iff)
  then show ?case using Nil by simp
next
  case (Cons i ids)
  let ?f = "\<lambda>a. a\<lparr>xa_sort_order := base, xa_version := xa_version a + 1, xa_updated_at := now\<rparr>"
  obtain n s1 where upd: "update_accounts (live_account g i) ?f s = Inr (n, s1)"
    and rest: "place_accounts g now (base + 1) ids s1 = Inr (u, s')"
    using Cons.prems(1) by (auto simp: bind_eq_Inr)
  have s1: "external_accounts s1 = update_rows (live_account g i) ?f (external_accounts s)" "entries s1 = entries s"
    using update_accounts_Inr [OF upd] by simp_all
  have "placed g now (base + 1) ids (if live_account g i a then ?f a else a) = placed g now base (i # ids) a" for a
    using Cons.prems(2) by (auto simp: placed_def live_account_def place_in_def)
  then have "map (placed g now (base + 1) ids) (external_accounts s1) = map (placed g now base (i # ids)) (external_accounts s)"
    unfolding s1(1) update_rows_def map_map comp_def by simp
  then show ?case using Cons.IH [OF rest] Cons.prems(2) s1(2) by simp
qed

lemma reorder_effect:
  assumes run: "reorder_tx env actor m ids v s = Inr (col, s')" and keys: "distinct (map xa_id (external_accounts s))"
  obtains now base where "distinct ids" "set ids = xa_id ` set (live_accounts (m_GroupID m) s)"
    "external_accounts s' = map (placed (m_GroupID m) now base ids) (external_accounts s)" "entries s' = entries s"
    "listAccounts (m_GroupID m) s' = Inr (col, s')"
proof -
  let ?g = "m_GroupID m"
  let ?K = "max_order 0 (group_accounts ?g s) + int (length ids) + 1"
  let ?shift = "\<lambda>a. a\<lparr>xa_sort_order := xa_sort_order a + ?K\<rparr>"
  obtain now n s2 s3 where a: "length (live_accounts ?g s) = length ids" "distinct ids" "set ids \<subseteq> xa_id ` set (live_accounts ?g s)"
    and now: "Now env s = Inr (now, s2)"
    and shift: "update_accounts (\<lambda>a. xa_group a = ?g \<and> xa_deleted_at a = None) ?shift s2 = Inr (n, s3)"
    and rest: "tx_bind (place_accounts ?g (Timestamp now)
        (max_order (- 1) (filter (\<lambda>a. xa_deleted_at a \<noteq> None) (group_accounts ?g s)) + 1) ids) (\<lambda>_.
      finish_configuration env actor m v ''external_accounts.reordered'' ''group'' ?g
        [(''accountCount'', ANumber (int (length ids)))]) s3 = Inr (col, s')"
    using run unfolding reorder_tx_def
    by (auto simp: bind_eq_Inr Now_def live_accounts_def group_accounts_def dest!: start_configuration_Inr check_order_Inr)
  let ?base = "max_order (- 1) (filter (\<lambda>a. xa_deleted_at a \<noteq> None) (group_accounts ?g s)) + 1"
  obtain s4 where place: "place_accounts ?g (Timestamp now) ?base ids s3 = Inr ((), s4)"
    and fin: "finish_configuration env actor m v ''external_accounts.reordered'' ''group'' ?g
        [(''accountCount'', ANumber (int (length ids)))] s4 = Inr (col, s')"
    using rest by (auto simp: bind_eq_Inr)
  have "distinct (map xa_id (live_accounts ?g s))"
    using keys by (simp add: live_accounts_def group_accounts_def distinct_map_filter)
  then have "card (xa_id ` set (live_accounts ?g s)) = length ids"
    using a(1) distinct_card by fastforce
  then have all: "set ids = xa_id ` set (live_accounts ?g s)"
    using a(2,3) by (intro card_subset_eq) (simp_all add: distinct_card)
  have s3: "external_accounts s3 = update_rows (\<lambda>a. xa_group a = ?g \<and> xa_deleted_at a = None) ?shift (external_accounts s)"
    "entries s3 = entries s"
    using update_accounts_Inr [OF shift] now by (auto simp: Now_def)
  note p = place_accounts_effect [OF place a(2)]
  have one: "placed ?g (Timestamp now) ?base ids (if xa_group a = ?g \<and> xa_deleted_at a = None then ?shift a else a) =
      placed ?g (Timestamp now) ?base ids a" if "a \<in> set (external_accounts s)" for a
  proof (cases "xa_group a = ?g \<and> xa_deleted_at a = None")
    case True
    then have "xa_id a \<in> set ids" unfolding all using that by (auto simp: live_accounts_def group_accounts_def)
    then show ?thesis using True by (simp add: placed_def)
  next
    case False
    show ?thesis unfolding if_not_P [OF False] by (rule refl)
  qed
  have "external_accounts s4 = map (placed ?g (Timestamp now) ?base ids) (external_accounts s)"
    using p one unfolding s3(1) update_rows_def map_map comp_def by simp
  then have "external_accounts s' = map (placed ?g (Timestamp now) ?base ids) (external_accounts s)" "entries s' = entries s"
    "listAccounts ?g s' = Inr (col, s')"
    using finish_configuration_Inr [OF fin] p s3(2) by simp_all
  then show thesis by (rule that [OF a(2) all])
qed

text \<open>Rows listed by archival status and then by order show the accounts in the requested order.\<close>

lemma listed_in_order:
  assumes ids: "distinct ids" "distinct (map xa_id rows)" "set ids = xa_id ` set rows"
    and arch: "\<And>a. a \<in> set rows \<Longrightarrow> xa_status a = ''ARCHIVED'' \<longleftrightarrow> arch (xa_id a)"
    and order: "\<And>a. a \<in> set rows \<Longrightarrow> xa_sort_order a = base + int (place_in ids (xa_id a))"
  shows "map xa_id (sort_key (\<lambda>a. (xa_status a = ''ARCHIVED'', xa_sort_order a, xa_id a)) rows) =
    filter (\<lambda>i. \<not> arch i) ids @ filter arch ids"
proof -
  let ?f = "\<lambda>i. (arch i, place_in ids i)" and ?K = "\<lambda>a. (xa_status a = ''ARCHIVED'', xa_sort_order a, xa_id a)"
  let ?xs = "map xa_id (sort_key ?K rows)" and ?ys = "filter (\<lambda>i. \<not> arch i) ids @ filter arch ids"
  have up: "sorted (map (place_in ids) ids)" "distinct (map (place_in ids) ids)"
    unfolding place_in_map [OF ids(1)] by simp_all
  have inj: "inj_on ?f (set ids)" using up(2) by (auto simp: inj_on_def distinct_map)
  have sets: "set ?xs = set ids" "set ?ys = set ids" using ids(3) by auto
  have "sorted_wrt (\<lambda>a b. ?f (xa_id a) \<le> ?f (xa_id b)) (sort_key ?K rows)"
  proof (rule sorted_wrt_mono_rel)
    show "sorted_wrt (\<lambda>a b. ?K a \<le> ?K b) (sort_key ?K rows)"
      using sorted_sort_key [of ?K rows] by (simp add: sorted_wrt_map)
    show "?f (xa_id a) \<le> ?f (xa_id b)" if "a \<in> set (sort_key ?K rows)" "b \<in> set (sort_key ?K rows)" "?K a \<le> ?K b" for a b
      using that arch [of a] arch [of b] order [of a] order [of b] by (auto simp: less_eq_prod_def)
  qed
  then have "sorted (map ?f ?xs)" by (simp add: sorted_wrt_map)
  moreover have "sorted (map ?f ?ys)"
  proof -
    have "sorted_wrt (\<lambda>i j. place_in ids i \<le> place_in ids j) ids" using up(1) by (simp add: sorted_wrt_map)
    then have part: "sorted_wrt (\<lambda>i j. place_in ids i \<le> place_in ids j) (filter P ids)" for P by (rule sorted_wrt_filter)
    have "sorted_wrt (\<lambda>i j. ?f i \<le> ?f j) (filter (\<lambda>i. \<not> arch i) ids)" "sorted_wrt (\<lambda>i j. ?f i \<le> ?f j) (filter arch ids)"
      by (rule sorted_wrt_mono_rel [OF _ part], auto simp: less_eq_prod_def)+
    then show ?thesis by (simp add: sorted_wrt_map sorted_wrt_append less_eq_prod_def)
  qed
  moreover have "distinct (map ?f ?xs)" "distinct (map ?f ?ys)"
    using ids(1,2) inj sets by (auto simp: distinct_map simp del: map_map intro: inj_on_subset)
  ultimately show ?thesis
    using inj sets by (intro map_sorted_distinct_set_unique [of ?f]) auto
qed

text \<open>C32. Reordering realises exactly the requested order: it succeeds only for a complete list of the group's
  accounts, each once; the returned list shows the active accounts and then the archived ones, each in the
  requested order; nothing but order, version and change time of these accounts changes, and deleted accounts
  and those of other groups stay as they are.\<close>

theorem ReorderAccounts_realises_order:
  assumes run: "ReorderAccounts env actor m ids v s = (Inr col, s')" and keys: "distinct (map xa_id (external_accounts s))"
    and group: "\<exists>x\<in>set (groups s). gr_id x = m_GroupID m"
  shows "distinct ids \<and> set ids = xa_id ` set (live_accounts (m_GroupID m) s) \<and>
    (let arch = (\<lambda>i. \<exists>a\<in>set (live_accounts (m_GroupID m) s). xa_id a = i \<and> xa_status a = ''ARCHIVED'') in
      map xac_ID (col_Items col) = filter (\<lambda>i. \<not> arch i) ids @ filter arch ids) \<and>
    map (\<lambda>a. a\<lparr>xa_sort_order := 0, xa_version := 0, xa_updated_at := []\<rparr>) (external_accounts s') =
      map (\<lambda>a. a\<lparr>xa_sort_order := 0, xa_version := 0, xa_updated_at := []\<rparr>) (external_accounts s) \<and>
    (\<forall>a\<in>set (external_accounts s). xa_group a \<noteq> m_GroupID m \<or> xa_deleted_at a \<noteq> None \<longrightarrow> a \<in> set (external_accounts s')) \<and>
    ledger s' = ledger s"
proof -
  let ?g = "m_GroupID m" and ?live = "live_accounts (m_GroupID m)"
  let ?arch = "\<lambda>i. \<exists>a\<in>set (?live s). xa_id a = i \<and> xa_status a = ''ARCHIVED''"
  have tx: "reorder_tx env actor m ids v s = Inr (col, s')"
    using run by (auto simp: ReorderAccounts_def WithTx_def split: sum.splits prod.splits)
  show ?thesis
    using tx keys
  proof (rule reorder_effect)
    fix now base
    assume e: "distinct ids" "set ids = xa_id ` set (?live s)" "external_accounts s' = map (placed ?g now base ids) (external_accounts s)"
      "entries s' = entries s" "listAccounts ?g s' = Inr (col, s')"
    have sel: "xa_id (placed ?g now base ids a) = xa_id a" "xa_group (placed ?g now base ids a) = xa_group a"
      "xa_status (placed ?g now base ids a) = xa_status a" "xa_deleted_at (placed ?g now base ids a) = xa_deleted_at a"
      "(placed ?g now base ids a)\<lparr>xa_sort_order := 0, xa_version := 0, xa_updated_at := []\<rparr> =
        a\<lparr>xa_sort_order := 0, xa_version := 0, xa_updated_at := []\<rparr>" for a
      by (simp_all add: placed_def)
    have live: "?live s' = map (placed ?g now base ids) (?live s)"
      unfolding live_accounts_def group_accounts_def e(3) by (simp add: filter_map comp_def sel)
    have dl: "distinct (map xa_id (?live s))"
      using keys by (simp add: live_accounts_def group_accounts_def distinct_map_filter)
    have "map xa_id (sort_key (\<lambda>a. (xa_status a = ''ARCHIVED'', xa_sort_order a, xa_id a)) (?live s')) =
        filter (\<lambda>i. \<not> ?arch i) ids @ filter ?arch ids"
    proof (rule listed_in_order [OF e(1)])
      show "distinct (map xa_id (?live s'))" "set ids = xa_id ` set (?live s')"
        unfolding live using dl e(2) by (simp_all add: comp_def sel image_image)
      fix a
      assume "a \<in> set (?live s')"
      then obtain b where b: "b \<in> set (?live s)" "a = placed ?g now base ids b" unfolding live by auto
      have "c = b" if "c \<in> set (?live s)" "xa_id c = xa_id b" for c
        using inj_onD [of xa_id "set (?live s)"] dl that b(1) by (simp add: distinct_map)
      then show "xa_status a = ''ARCHIVED'' \<longleftrightarrow> ?arch (xa_id a)" using b sel by auto
      have "xa_id b \<in> set ids" "xa_group b = ?g" "xa_deleted_at b = None"
        using b(1) e(2) by (auto simp: live_accounts_def group_accounts_def)
      then show "xa_sort_order a = base + int (place_in ids (xa_id a))" using b(2) by (simp add: placed_def)
    qed
    moreover have "map xac_ID (col_Items col) = map xa_id (visible_accounts ?g s')"
      using e(5) group e(4) by (auto simp: listAccounts_def bind_eq_Inr externalAccountBalances_def entries_def account_of_def
          maskProviderDetails_def Let_def first_row_None split: if_split_asm option.splits)
    moreover have "visible_accounts ?g s' = sort_key (\<lambda>a. (xa_status a = ''ARCHIVED'', xa_sort_order a, xa_id a)) (?live s')"
      by (simp add: visible_accounts_def live_accounts_def group_accounts_def conj_commute)
    moreover have "a \<in> set (external_accounts s')" if "a \<in> set (external_accounts s)" "xa_group a \<noteq> ?g \<or> xa_deleted_at a \<noteq> None" for a
    proof -
      have "placed ?g now base ids a \<in> set (external_accounts s')" unfolding e(3) set_map using that(1) by (rule imageI)
      moreover have "placed ?g now base ids a = a" using that(2) by (auto simp: placed_def)
      ultimately show ?thesis by simp
    qed
    moreover have "ledger s' = ledger s" using e(4) by (simp add: entries_def)
    moreover have "map (\<lambda>a. a\<lparr>xa_sort_order := 0, xa_version := 0, xa_updated_at := []\<rparr>) (external_accounts s') =
      map (\<lambda>a. a\<lparr>xa_sort_order := 0, xa_version := 0, xa_updated_at := []\<rparr>) (external_accounts s)"
      unfolding e(3) map_map comp_def sel by (rule refl)
    ultimately show ?thesis using e(1,2) by (simp add: Let_def)
  qed
qed

theorem ReorderAccounts_realises_order_witness:
  "case ReorderAccounts fixed_env \<lparr>UserID = ''u''\<rparr> uta [''b'', ''a''] 1 branch of
     (r, s) \<Rightarrow> \<not> isl r \<and> map xac_ID (col_Items (projr r)) = [''b'', ''a'']"
proof -
  let ?r = "ReorderAccounts fixed_env \<lparr>UserID = ''u''\<rparr> uta [''b'', ''a''] 1 branch"
  have "\<not> isl (fst ?r)" by code_simp
  then obtain col where run: "?r = (Inr col, snd ?r)" using outcome_Inr by blast
  have d: "distinct (map xa_id (external_accounts branch))" "\<exists>x\<in>set (groups branch). gr_id x = m_GroupID uta"
    by (simp_all add: branch_def till_def shop_def uta_def cash_box_def bank_box_def empty_db_def)
  have "map xac_ID (col_Items col) = [''b'', ''a'']"
    using ReorderAccounts_realises_order [OF run d]
    by (simp add: branch_def live_accounts_def group_accounts_def cash_box_def bank_box_def uta_def)
  then show ?thesis by (subst run) simp
qed

section \<open>Payment-method links\<close>

text \<open>The link a request asks for, and a payment method after the replacement.\<close>

definition wanted :: "payment_method_link \<Rightarrow> payment_method_link" where
  "wanted l = \<lparr>ln_PaymentMethodID = ln_PaymentMethodID l, ln_ExternalAccountID = map_option TrimSpace (ln_ExternalAccountID l)\<rparr>"

definition relinked :: "string \<Rightarrow> payment_method_link list \<Rightarrow> payment_method_row \<Rightarrow> payment_method_row" where
  "relinked g links p = (if pm_group p = g
     then (case first_row (\<lambda>l. ln_PaymentMethodID l = pm_id p) links of None \<Rightarrow> p
       | Some l \<Rightarrow> p\<lparr>pm_external_account := ln_ExternalAccountID (wanted l)\<rparr>) else p)"

definition target_ok :: "string \<Rightarrow> external_account_row list \<Rightarrow> payment_method_link \<Rightarrow> bool" where
  "target_ok g accounts l \<longleftrightarrow> (case ln_ExternalAccountID (wanted l) of None \<Rightarrow> True
     | Some i \<Rightarrow> i \<noteq> [] \<and> (\<exists>a\<in>set accounts. live_account g i a \<and> xa_status a = ''ACTIVE''))"

lemma link_target_Inr:
  assumes "link_target g (ln_ExternalAccountID l) s = Inr (x, s')"
  shows "s' = s \<and> x = ln_ExternalAccountID (wanted l) \<and> target_ok g (external_accounts s) l"
proof (cases "ln_ExternalAccountID l")
  case None
  then show ?thesis using assms by (simp add: link_target_def wanted_def target_ok_def)
next
  case (Some raw)
  then show ?thesis using assms
    by (auto simp: link_target_def wanted_def target_ok_def bind_eq_Inr Let_def dest: first_row_Some)
qed

lemma replace_loop_effect:
  "replace_loop g existing seen links s = Inr (n, s') \<Longrightarrow>
     distinct (map ln_PaymentMethodID links) \<and> ln_PaymentMethodID ` set links \<subseteq> set existing \<and>
     ln_PaymentMethodID ` set links \<inter> set seen = {} \<and> list_all (target_ok g (external_accounts s)) links \<and>
     s' = s\<lparr>payment_methods := map (relinked g links) (payment_methods s)\<rparr>"
proof (induction links arbitrary: seen s n)
  case Nil
  have "relinked g [] = (\<lambda>p. p)" by (simp add: relinked_def fun_eq_iff)
  then show ?case using Nil by simp
next
  case (Cons l links)
  let ?i = "ln_PaymentMethodID l" and ?a = "ln_ExternalAccountID (wanted l)"
  let ?s1 = "s\<lparr>payment_methods := update_rows (\<lambda>p. pm_id p = ?i \<and> pm_group p = g) (\<lambda>p. p\<lparr>pm_external_account := ?a\<rparr>) (payment_methods s)\<rparr>"
  have fresh: "?i \<in> set existing" "?i \<notin> set seen" using Cons.prems by (auto simp: Let_def split: if_split_asm)
  obtain k where target: "target_ok g (external_accounts s) l" and rest: "replace_loop g existing (?i # seen) links ?s1 = Inr (k, s')"
    using Cons.prems fresh unfolding table_fields(3) [symmetric]
    by (auto simp: Let_def bind_eq_Inr dest!: link_target_Inr)
  note ih = Cons.IH [OF rest]
  have "relinked g links (if pm_id p = ?i \<and> pm_group p = g then p\<lparr>pm_external_account := ?a\<rparr> else p) = relinked g (l # links) p" for p
  proof (cases "pm_id p = ?i \<and> pm_group p = g")
    case True
    have "?i \<notin> ln_PaymentMethodID ` set links" using ih by auto
    then have "first_row (\<lambda>l. ln_PaymentMethodID l = pm_id p) links = None"
      unfolding first_row_None using True by (metis imageI)
    then show ?thesis using True by (simp add: relinked_def)
  next
    case False
    then show ?thesis by (auto simp: relinked_def)
  qed
  then have "map (relinked g links) (payment_methods ?s1) = map (relinked g (l # links)) (payment_methods s)"
    by (simp add: update_rows_def)
  then show ?case using ih fresh target by auto
qed

lemma keeps_methods [simp, intro]:
  "keeps payment_methods (bumpCollectionVersion env g v)" "keeps payment_methods (Record env g u m a t i md)"
  "keeps settings (Record env g u m a t i md)"
  by (rule keepsI; intro pres_intros; simp)+

lemma bumpCollectionVersion_Inr:
  "bumpCollectionVersion env g v s = Inr (u, s') \<Longrightarrow>
     settings s' = update_rows (\<lambda>r. st_group r = g \<and> st_external_version r = v) bump_version (settings s)"
  unfolding bumpCollectionVersion_def by (auto simp: bind_eq_Inr Now_def)

lemma requireVersion_Inr:
  "start_configuration m v s = Inr (u, s') \<Longrightarrow> \<exists>r. settings_of (m_GroupID m) s = Some r \<and> st_external_version r = v"
  unfolding start_configuration_def requireCollectionVersion_def
  by (auto simp: bind_eq_Inr dest!: access_state)

lemma listLinks_Inr:
  "listPaymentMethodLinks g s = Inr (lv, s') \<Longrightarrow> s' = s \<and> (\<exists>r. settings_of g s = Some r \<and>
     lv = (map (\<lambda>p. \<lparr>ln_PaymentMethodID = pm_id p, ln_ExternalAccountID = pm_external_account p\<rparr>) (sorted_methods g s), st_external_version r))"
  by (auto simp: listPaymentMethodLinks_def bind_eq_Inr)

lemma sorted_methods_set: "set (sorted_methods g s) = {p \<in> set (payment_methods s). pm_group p = g}"
  by (auto simp: sorted_methods_def)

text \<open>C33. Replacing the payment-method links is a complete mapping: it succeeds only when every payment method of
  the group is listed exactly once and every target is a live active account; afterwards the links are exactly
  the requested ones, the collection version has grown by one, and nothing else of the methods and no method of
  another group has changed.\<close>

theorem ReplacePaymentMethodLinks_complete:
  assumes run: "ReplacePaymentMethodLinks env actor m links v s = (Inr (now_linked, version), s')"
    and keys: "distinct (map pm_id (filter (\<lambda>p. pm_group p = m_GroupID m) (payment_methods s)))"
  shows "distinct (map ln_PaymentMethodID links) \<and>
    set (map ln_PaymentMethodID links) = pm_id ` {p \<in> set (payment_methods s). pm_group p = m_GroupID m} \<and>
    list_all (target_ok (m_GroupID m) (external_accounts s)) links \<and>
    set now_linked = wanted ` set links \<and> length now_linked = length links \<and> version = v + 1 \<and>
    map (\<lambda>p. p\<lparr>pm_external_account := None\<rparr>) (payment_methods s') = map (\<lambda>p. p\<lparr>pm_external_account := None\<rparr>) (payment_methods s) \<and>
    (\<forall>p\<in>set (payment_methods s). pm_group p \<noteq> m_GroupID m \<longrightarrow> p \<in> set (payment_methods s'))"
proof -
  let ?g = "m_GroupID m"
  have tx: "replace_links_tx env actor m links v s = Inr ((now_linked, version), s')"
    using run by (auto simp: ReplacePaymentMethodLinks_def WithTx_def split: sum.splits prod.splits)
  obtain s0 lv s1 n s2 s3 s4 where steps: "start_configuration m v s = Inr ((), s0)" "listPaymentMethodLinks ?g s0 = Inr (lv, s1)"
    "length links = length (fst lv)" "replace_loop ?g (map ln_PaymentMethodID (fst lv)) [] links s1 = Inr (n, s2)"
    "bumpCollectionVersion env ?g v s2 = Inr ((), s3)"
    "Record env ?g (UserID actor) (m_ID m) ''external_account_links.replaced'' ''group'' ?g
      [(''paymentMethodCount'', ANumber (int (length links))), (''linkedMethodCount'', ANumber n)] s3 = Inr ((), s4)"
    "listPaymentMethodLinks ?g s4 = Inr ((now_linked, version), s')"
    using tx unfolding replace_links_tx_def by (auto simp: bind_eq_Inr split: prod.splits)
  obtain r where r: "settings_of ?g s = Some r" "st_external_version r = v" using requireVersion_Inr [OF steps(1)] by blast
  have s0: "s0 = s" by (rule start_configuration_Inr [OF steps(1)])
  have s1: "s1 = s" and lv: "map ln_PaymentMethodID (fst lv) = map pm_id (sorted_methods ?g s)"
    using listLinks_Inr [OF steps(2)] s0 by auto
  note loop = replace_loop_effect [OF steps(4) [unfolded lv s1]]
  have len: "length links = length (sorted_methods ?g s)" using steps(3) arg_cong [OF lv, of length] by simp
  have methods: "payment_methods s' = map (relinked ?g links) (payment_methods s)"
    using keepsD [OF keeps_methods(1) steps(5)] keepsD [OF keeps_methods(2) steps(6)] listLinks_Inr [OF steps(7)] loop by simp
  have settings: "settings s' = update_rows (\<lambda>r. st_group r = ?g \<and> st_external_version r = v) bump_version (settings s)"
    using bumpCollectionVersion_Inr [OF steps(5)] keepsD [OF keeps_methods(3) steps(6)] listLinks_Inr [OF steps(7)] loop by simp
  have ids: "distinct (map pm_id (sorted_methods ?g s))"
    using keys by (simp add: sorted_methods_def distinct_map)
  have all: "ln_PaymentMethodID ` set links = pm_id ` set (sorted_methods ?g s)"
  proof (rule card_subset_eq)
    have "card (ln_PaymentMethodID ` set links) = length links" using loop distinct_card [of "map ln_PaymentMethodID links"] by simp
    moreover have "card (pm_id ` set (sorted_methods ?g s)) = length (sorted_methods ?g s)"
      using ids distinct_card [of "map pm_id (sorted_methods ?g s)"] by simp
    ultimately show "card (ln_PaymentMethodID ` set links) = card (pm_id ` set (sorted_methods ?g s))" using len by simp
  qed (use loop in simp_all)
  have version: "version = v + 1"
  proof -
    have "settings_of ?g s' = map_option (\<lambda>r. if st_group r = ?g \<and> st_external_version r = v then bump_version r else r) (settings_of ?g s)"
      unfolding settings_of_def settings by (rule first_row_update) (simp add: bump_version_def)
    moreover have "st_group r = ?g" using r(1) unfolding settings_of_def by (auto dest: first_row_Some)
    ultimately have "settings_of ?g s' = Some (bump_version r)" using r by simp
    then show ?thesis using listLinks_Inr [OF steps(7)] r(2) by (auto simp: bump_version_def)
  qed
  have shown: "now_linked = map (\<lambda>p. \<lparr>ln_PaymentMethodID = pm_id p, ln_ExternalAccountID = pm_external_account p\<rparr>) (sorted_methods ?g s')"
    using listLinks_Inr [OF steps(7)] by auto
  have group: "pm_group (relinked ?g links p) = pm_group p" "pm_id (relinked ?g links p) = pm_id p"
    "(relinked ?g links p)\<lparr>pm_external_account := None\<rparr> = p\<lparr>pm_external_account := None\<rparr>" for p
    by (simp_all add: relinked_def split: option.split)
  let ?link = "\<lambda>p. \<lparr>ln_PaymentMethodID = pm_id p, ln_ExternalAccountID = pm_external_account p\<rparr>"
  have link: "first_row (\<lambda>x. ln_PaymentMethodID x = ln_PaymentMethodID l) links = Some l" if "l \<in> set links" for l
    using distinct_first_row [of ln_PaymentMethodID links l] loop that by blast
  have now: "?link (relinked ?g links p) = wanted l" if "l \<in> set links" "pm_group p = ?g" "pm_id p = ln_PaymentMethodID l" for l p
    using link [OF that(1)] that(2,3) by (simp add: relinked_def wanted_def)
  have mine: "set now_linked = (\<lambda>p. ?link (relinked ?g links p)) ` set (sorted_methods ?g s)"
  proof -
    have "set (sorted_methods ?g s') = relinked ?g links ` set (sorted_methods ?g s)"
      unfolding sorted_methods_set methods by (auto simp: group intro!: imageI)
    then show ?thesis unfolding shown set_map by (simp only: image_image)
  qed
  have "set now_linked = wanted ` set links"
  proof (intro subset_antisym subsetI)
    fix x
    assume "x \<in> set now_linked"
    then obtain p where p: "p \<in> set (sorted_methods ?g s)" "x = ?link (relinked ?g links p)" unfolding mine by blast
    then obtain l where "l \<in> set links" "pm_id p = ln_PaymentMethodID l" using all by (metis imageE imageI)
    then show "x \<in> wanted ` set links" using now [of l p] p unfolding sorted_methods_set by simp
  next
    fix x
    assume "x \<in> wanted ` set links"
    then obtain l where l: "l \<in> set links" "x = wanted l" by blast
    then obtain p where p: "p \<in> set (sorted_methods ?g s)" "pm_id p = ln_PaymentMethodID l" using all by (metis imageE imageI)
    then have "x = ?link (relinked ?g links p)" using now [of l p] l unfolding sorted_methods_set by simp
    then show "x \<in> set now_linked" unfolding mine using p(1) by blast
  qed
  moreover have "length now_linked = length links"
    unfolding shown length_map len by (simp add: sorted_methods_def methods filter_map comp_def group)
  moreover have "map (\<lambda>p. p\<lparr>pm_external_account := None\<rparr>) (payment_methods s') = map (\<lambda>p. p\<lparr>pm_external_account := None\<rparr>) (payment_methods s)"
    unfolding methods map_map comp_def group by (rule refl)
  moreover have "p \<in> set (payment_methods s')" if "p \<in> set (payment_methods s)" "pm_group p \<noteq> ?g" for p
  proof -
    have "relinked ?g links p \<in> set (payment_methods s')" unfolding methods set_map using that(1) by (rule imageI)
    then show ?thesis using that(2) by (simp add: relinked_def)
  qed
  moreover have "set (map ln_PaymentMethodID links) = pm_id ` {p \<in> set (payment_methods s). pm_group p = ?g}"
    using all unfolding sorted_methods_set by simp
  moreover have "distinct (map ln_PaymentMethodID links)" "list_all (target_ok ?g (external_accounts s)) links"
    using loop by simp_all
  ultimately show ?thesis using version by (intro conjI ballI impI)
qed

theorem ReplacePaymentMethodLinks_complete_witness:
  "case ReplacePaymentMethodLinks fixed_env \<lparr>UserID = ''u''\<rparr> uta
       [\<lparr>ln_PaymentMethodID = ''c'', ln_ExternalAccountID = Some '' b ''\<rparr>] 1 branch of
     (r, s) \<Rightarrow> \<not> isl r \<and> map pm_external_account (payment_methods s) = [Some ''b''] \<and> snd (projr r) = 2"
proof -
  let ?l = "\<lparr>ln_PaymentMethodID = ''c'', ln_ExternalAccountID = Some '' b ''\<rparr>"
  let ?r = "ReplacePaymentMethodLinks fixed_env \<lparr>UserID = ''u''\<rparr> uta [?l] 1 branch"
  have ev: "case ?r of (r, s) \<Rightarrow> \<not> isl r \<and> map pm_external_account (payment_methods s) = [Some ''b'']" by code_simp
  then have "\<not> isl (fst ?r)" unfolding case_prod_beta by (rule conjunct1)
  then obtain x where "?r = (Inr x, snd ?r)" using outcome_Inr by blast
  then obtain ls v where run: "?r = (Inr (ls, v), snd ?r)" by (cases x) blast
  have "distinct (map pm_id (filter (\<lambda>p. pm_group p = m_GroupID uta) (payment_methods branch)))"
    by (simp add: branch_def till_def)
  then have "v = 2" using ReplacePaymentMethodLinks_complete [OF run] by simp
  then show ?thesis using ev unfolding case_prod_beta by (subst run) simp
qed

section \<open>Manual movements\<close>

text \<open>A normalised movement: the primary account and the counterparty are the two sides of the request.\<close>

lemma normalizeTransaction_cases:
  assumes "normalizeTransactionInput input = Inr n"
  obtains (income) "nx_Kind n = ''INCOME''" "TrimSpace (xi_SourceAccountID input) = []" "nx_PrimaryAccountID n = TrimSpace (xi_DestinationAccountID input)"
      "nx_PrimaryAccountID n \<noteq> []" "nx_AmountMinor n = xi_AmountMinor input" "nx_CounterpartyAccountID n = None" "0 < xi_AmountMinor input"
    | (expense) "nx_Kind n = ''EXPENSE''" "TrimSpace (xi_DestinationAccountID input) = []" "nx_PrimaryAccountID n = TrimSpace (xi_SourceAccountID input)"
      "nx_PrimaryAccountID n \<noteq> []" "nx_AmountMinor n = - xi_AmountMinor input" "nx_CounterpartyAccountID n = None" "0 < xi_AmountMinor input"
    | (transfer) "nx_Kind n = ''TRANSFER''" "nx_PrimaryAccountID n = TrimSpace (xi_SourceAccountID input)"
      "nx_CounterpartyAccountID n = Some (TrimSpace (xi_DestinationAccountID input))" "nx_PrimaryAccountID n \<noteq> []"
      "TrimSpace (xi_DestinationAccountID input) \<noteq> []" "nx_AmountMinor n = - xi_AmountMinor input" "0 < xi_AmountMinor input"
      "TrimSpace (xi_SourceAccountID input) \<noteq> TrimSpace (xi_DestinationAccountID input)"
proof -
  define i where "i = input\<lparr>xi_Kind := ToUpper (TrimSpace (xi_Kind input)), xi_SourceAccountID := TrimSpace (xi_SourceAccountID input),
        xi_DestinationAccountID := TrimSpace (xi_DestinationAccountID input), xi_Reason := TrimSpace (xi_Reason input),
        xi_Reference := TrimSpace (xi_Reference input), xi_Note := TrimSpace (xi_Note input)\<rparr>"
  obtain at where move: "normalize_movement i \<lparr>nx_Kind = xi_Kind i, nx_PrimaryAccountID = [], nx_CounterpartyAccountID = None,
        nx_AmountMinor = 0, nx_BookedAt = at, nx_Reason = xi_Reason i, nx_Reference = xi_Reference i, nx_Note = xi_Note i\<rparr> = Inr n"
    and amount: "0 < xi_AmountMinor input"
    using assms unfolding normalizeTransactionInput_def i_def [symmetric] Let_def
    by (auto simp: i_def split: sum.splits if_split_asm)
  have sel: "xi_SourceAccountID i = TrimSpace (xi_SourceAccountID input)" "xi_DestinationAccountID i = TrimSpace (xi_DestinationAccountID input)"
    "xi_AmountMinor i = xi_AmountMinor input"
    by (simp_all add: i_def)
  show thesis
    using move amount unfolding normalize_movement_def sel
    by (auto split: if_split_asm intro: income expense transfer)
qed

text \<open>C29. A manual movement recorded under a fresh key moves exactly its amount: the destination account gains it, the
  source account loses it (an income has no source, an expense no destination), every other external account
  of every group, all member balances, bookings, payments and periods stay, one movement and two rows that
  cancel are appended.\<close>

theorem CreateTransaction_moves_amount:
  assumes run: "CreateTransactionWithAttachment env actor m key input upload s = (Inr view, s')"
    and new: "\<forall>r\<in>set (idempotency s). \<not> (ir_group r = m_GroupID m \<and> ir_user r = UserID actor \<and> ir_key r = key)"
  shows "\<exists>t rows. external_transactions s' = external_transactions s @ [t] \<and> ledger s' = ledger s @ rows \<and> length rows = 2 \<and>
    sum_list (map le_amount rows) = 0 \<and> xr_group t = m_GroupID m \<and> \<bar>xr_amount t\<bar> = xi_AmountMinor input \<and>
    (\<forall>g a. a \<noteq> [] \<longrightarrow> external_total g a s' = external_total g a s + (if g \<noteq> m_GroupID m then 0
       else (if a = TrimSpace (xi_DestinationAccountID input) then xi_AmountMinor input else 0) -
            (if a = TrimSpace (xi_SourceAccountID input) then xi_AmountMinor input else 0))) \<and>
    (\<forall>g y. y \<noteq> [] \<longrightarrow> member_balance g y s' = member_balance g y s) \<and>
    bookings s' = bookings s \<and> payments s' = payments s \<and> periods s' = periods s"
proof -
  obtain n att where norm: "normalizeTransactionInput input = Inr n" and tx: "create_transaction_tx env actor m key n att s = Inr (view, s')"
    using run by (auto simp: CreateTransactionWithAttachment_def WithTx_def split: sum.splits option.splits prod.splits)
  let ?h = "Hash env (ReqExternalTransaction n (case att of None \<Rightarrow> [] | Some a \<Rightarrow> sa_SHA256 a))"
  have load: "Load (m_GroupID m) (UserID actor) key ?h s = Inr (None, s)" using new by (simp add: Load_None)
  obtain x s1 s2 where create: "createManualTransactionTx env m n att s = Inr (x, s1)"
    and aud: "Record env (m_GroupID m) (UserID actor) (m_ID m) ''external_account_transaction.created''
         ''external_account_transaction'' (xt_ID x) [(''kind'', AText (xt_Kind x)),
           (''amountMinor'', ANumber (xt_AmountMinor x)), (''primaryAccountId'', AText (xt_PrimaryAccountID x))] s1 = Inr ((), s2)"
    and store: "Store env (m_GroupID m) (UserID actor) key ?h 201 (RespTransaction view) s2 = Inr ((), s')"
    using tx unfolding create_transaction_tx_def Let_def by (auto simp: bind_eq_Inr load dest!: access_state)
  have core: "core s' = core s1"
    using keepsD [OF keeps_core_services(1) store] keepsD [OF keeps_core_services(2) aud] by simp
  from create show ?thesis
  proof (rule createManual_effect)
    fix t r1 r2
    assume e: "posts s s1 [r1, r2] [t]" "xr_group t = m_GroupID m" "xr_amount t = nx_AmountMinor n"
      "movement_row (m_GroupID m) (xr_id t) r1" "movement_row (m_GroupID m) (xr_id t) r2"
      "le_external_account r1 = Some (nx_PrimaryAccountID n)" "le_amount r1 = nx_AmountMinor n" "le_amount r2 = - nx_AmountMinor n"
      "if nx_Kind n = ''TRANSFER''
       then le_external_account r2 = Some (coalesce_text (nx_CounterpartyAccountID n)) \<and> le_account r2 = ''EXTERNAL_ACCOUNT''
       else le_external_account r2 = None \<and> le_account r2 = ''EXTERNAL_OFFSET''"
    have s': "ledger s' = ledger s @ [r1, r2]" "external_transactions s' = external_transactions s @ [t]"
      "bookings s' = bookings s" "payments s' = payments s" "periods s' = periods s"
      using core e(1) by (simp_all add: core_def posts_split)
    have rows: "le_group r1 = m_GroupID m" "le_group r2 = m_GroupID m" "le_membership r1 = None" "le_membership r2 = None"
      using e(4,5) by (simp_all add: movement_row_def)
    have total: "external_total g a s' = external_total g a s + (if g \<noteq> m_GroupID m then 0
       else (if le_external_account r1 = Some a then nx_AmountMinor n else 0) -
            (if le_external_account r2 = Some a then nx_AmountMinor n else 0))" for g a
      using rows e(7,8) by (simp add: external_total_def s'(1))
    have "external_total g a s' = external_total g a s + (if g \<noteq> m_GroupID m then 0
       else (if a = TrimSpace (xi_DestinationAccountID input) then xi_AmountMinor input else 0) -
            (if a = TrimSpace (xi_SourceAccountID input) then xi_AmountMinor input else 0))" if a: "a \<noteq> []" for g a
      using norm by (cases rule: normalizeTransaction_cases) (use a e(6,9) in \<open>auto simp: total coalesce_text_def\<close>)
    moreover have "\<bar>nx_AmountMinor n\<bar> = xi_AmountMinor input"
      using norm by (cases rule: normalizeTransaction_cases) simp_all
    moreover have "member_balance g y s' = member_balance g y s" if "y \<noteq> []" for g y
      using member_balance_append [OF s'(1), of g y] rows(3,4) that by (simp add: member_row_def)
    moreover have "sum_list (map le_amount [r1, r2]) = 0" using e(7,8) by simp
    ultimately show ?thesis using s' e(2,3)
      by (intro exI [of _ t] exI [of _ "[r1, r2]"]) simp
  qed
qed

theorem CreateTransaction_moves_amount_witness:
  "external_total ''g'' ''a'' till = 0 \<and> external_total ''g'' ''a'' (snd earned) = 500"
proof -
  have "\<not> isl (fst earned)" by code_simp
  then obtain view where run: "CreateTransactionWithAttachment fixed_env \<lparr>UserID = ''u''\<rparr> uta ''key-0006'' five_euro None till
      = (Inr view, snd earned)"
    unfolding earned_def CreateTransaction_def using outcome_Inr by blast
  have "idempotency till = []" "ledger till = []" by (simp_all add: till_def shop_def empty_db_def)
  moreover have "TrimSpace (xi_DestinationAccountID five_euro) = ''a''" "TrimSpace (xi_SourceAccountID five_euro) = []" by code_simp+
  moreover have "xi_AmountMinor five_euro = 500" "m_GroupID uta = ''g''" by (simp_all add: five_euro_def uta_def)
  ultimately show ?thesis
    using CreateTransaction_moves_amount [OF run] by (auto simp: external_total_def)
qed

end
