(* ===== verification/Spec2Isabelle.thy ===== *)
theory Spec2Isabelle
  imports Barcodes PaymentTargets Authorization Allocation Notifications Accounts Configuration
begin

text \<open>
  A model of the accounting core of TeamTaler, a self-hosted web application in which a club or team books
  shared purchases on the accounts of its members. The Go services under \<open>src/internal\<close> work on one
  SQLite database; every command checks a permission, opens a transaction, consults the idempotency store,
  posts to a double-entry ledger, rebuilds the derived allocations, queues notifications and records an
  audit event. The development follows this structure.

  \<^bold>\<open>Parts and theories.\<close>
  \<^item> \<open>Prelude\<close> (transactions \<open>dbtx\<close> as state functions with errors, frame rules \<open>keeps\<close> and \<open>preserves\<close>
    collected in \<open>pres_intros\<close>, tables as lists of rows), \<open>GoStrings\<close> (the byte strings and UTF-8 decoding
    behind \<open>strings\<close>), \<open>Civil\<close> and \<open>Timestamps\<close> (dates, RFC 3339 text), \<open>Paging\<close> (the keyset contract).
  \<^item> \<open>Domain\<close> holds the records of \<open>domain/domain.go\<close> and the command inputs; \<open>Database\<close> the tables with
    the constraints of \<open>migrations/\<close>, \<open>storage.WithTx\<close>, \<open>platform\<close>, \<open>idempotency\<close> and \<open>audit\<close>.
  \<^item> \<open>Authorization\<close> (\<open>authorization/policy.go\<close>), \<open>Allocation\<close> (\<open>ledger/allocation.go\<close>), \<open>Notifications\<close>
    (\<open>notifications/catalog.go, service.go, preferences.go\<close>), \<open>Barcodes\<close> (\<open>catalog/barcodes.go\<close>),
    \<open>PaymentTargets\<close> (\<open>paymenttargets/validation.go\<close>) and \<open>Guests\<close> (\<open>groups/guests.go\<close>).
  \<^item> \<open>Ledger\<close> and \<open>Bookings\<close> (\<open>bookings/service.go\<close>), \<open>Periods\<close> (\<open>periods/service.go\<close>), \<open>ExternalAccounts\<close>
    (all of \<open>externalaccounts\<close>) and \<open>Finance\<close> (\<open>finance/service.go\<close>): the commands that post. Each
    definition has the name of its Go function, with the transaction body of a command as \<open><name>_tx\<close>.
  \<^item> \<open>BookingLedger\<close>, \<open>PeriodLaws\<close>, \<open>ExternalLaws\<close> and \<open>FinanceLaws\<close> state what these commands do to the
    books, command by command; \<open>Configuration\<close> states what the external-account commands do to accounts,
    their order and their payment-method links.
  \<^item> \<open>Journal\<close>, \<open>Invariants\<close>, \<open>Balance\<close> and \<open>Accounts\<close> compose them: \<open>step\<close> lets the transactions of all
    commands interleave with arbitrary changes of other tables, \<open>reachable\<close> is its closure from databases
    whose books are empty, and \<open>book_invariant\<close> and \<open>posting_invariant\<close> say what an invariant has to satisfy
    for the bodies that post.

  \<^bold>\<open>How state and effects correspond.\<close> A table is a list of rows in insertion order and a query is a
  filter, a stable sort and a projection; \<open>ORDER BY\<close> on text is the lexicographic order of bytes. A
  transaction is a function from the database to an error or a result with the next database; \<open>WithTx\<close> drops
  the changes of a failed body and keeps only the clock and random readings. Reads that the code makes
  outside a transaction are reads of the state before it. Machine integers are \<open>int\<close> where the code
  checks the range (\<open>is_int64\<close>) and the checks are translated with their bounds; Go strings are their bytes.

  \<^bold>\<open>What is shown.\<close> The account book (\<open>Accounts\<close>) is refined by booking, reversing, paying, reversing
  a payment and closing a period; retried keys and errors change nothing. In every reachable database the
  ledger of a group sums to zero, bookings own exactly their rows, payments and movements cancel, at most
  one period is open (\<open>Balance\<close>), and external balances fit an \<open>int64\<close> (\<open>Invariants\<close>). Each command
  has its effect theorem: \<open>Create\<close>, \<open>CreateBulk\<close> and \<open>Void\<close> (\<open>BookingLedger\<close>), \<open>Close\<close> (\<open>PeriodLaws\<close>), payments
  (\<open>FinanceLaws\<close>, \<open>Accounts\<close>). \<open>RebuildPaymentAllocations\<close> implements first-in first-out settlement of
  claims (\<open>Allocation\<close>); \<open>Can\<close> is sound and complete for role grants (\<open>Authorization\<close>); queued deliveries
  satisfy the delivery policy, preferences change exactly as asked, pages list the inbox completely
  (\<open>Notifications\<close>); check digits, IBAN checks, normal forms and timestamps are correct
  (\<open>Barcodes\<close>, \<open>PaymentTargets\<close>, \<open>Timestamps\<close>).

  \<^bold>\<open>Termination and bounds.\<close> Every loop of the code is a structurally recursive function or a
  \<open>function\<close> with a measure: the claim loop of the allocation (remaining claims plus remaining amount), the
  expansion of permissions (unseen catalogue entries and queue). No fuel is used. The clock and the source
  of random identifiers are streams in \<open>env\<close> indexed by how often they were read, so results hold for
  every clock, including one that stands still or runs backwards.

  \<^bold>\<open>Parameters.\<close> \<open>env\<close> supplies the clock, random bytes and the request digest (JSON with SHA-256), whose
  collisions are not excluded; \<open>parse_url\<close> is \<open>net/url.Parse\<close>; the outcome of storing a receipt file is an
  argument of the payment and movement commands; \<open>notification_service\<close> holds the channel gates as in
  the code.

  \<^bold>\<open>Not modelled.\<close> HTTP, sessions and authentication, e-mail and push transport, file storage, exports,
  posters, backups and instance administration (I/O or cryptography around the services); the filtered and
  paged tables and statistics (SQL projections that change nothing); planning, catalogue, role and member
  maintenance, which change other tables only - in \<open>step\<close> they are the arbitrary changes outside the books.
  SQLite's own failure modes (overflow of \<open>sum\<close>, busy database, disk) are not errors of the model.
\<close>

end
